(* ===== verification/Mesh_Prelude.thy ===== *)
theory Mesh_Prelude
  imports Complex_Main "HOL-Library.AList" "HOL-Library.Multiset" "HOL-Library.Word"
begin

text \<open>
  The vocabulary every component of the development shares: Go slices (whose nil and empty
  values differ), Go maps (association lists with distinct keys, iterated in an order the
  runtime chooses), the outcome of a Go call that may panic, the machine integers, and the
  lemma collections the component proofs use.
\<close>

section \<open>Definitions\<close>

subsection \<open>Machine integers\<close>

type_synonym u32 = "32 word"
type_synonym i32 = "32 word"
type_synonym i64 = "64 word"
type_synonym float64 = rat

subsection \<open>Slices\<close>

text \<open>
  A Go slice is nil or holds elements; \<open>append\<close> to a nil slice of no elements stays nil.
\<close>

type_synonym 'a slice = "'a list option"

definition elems :: "'a slice \<Rightarrow> 'a list" where
  "elems s = (case s of None \<Rightarrow> [] | Some xs \<Rightarrow> xs)"

definition sappend :: "'a slice \<Rightarrow> 'a list \<Rightarrow> 'a slice" where
  "sappend s xs = (if s = None \<and> xs = [] then None else Some (elems s @ xs))"

subsection \<open>Maps\<close>

text \<open>
  A Go map is an association list with distinct keys. \<open>map_of\<close> is its contents;
  \<open>AList.update\<close> and \<open>AList.delete\<close> are the assignment \<open>m[k] = v\<close> and
  \<open>delete(m, k)\<close>. \<open>for k, v := range m\<close> visits the entries in an order the runtime
  chooses: an operation that ranges over a map takes that choice as an argument.
\<close>

type_synonym ('k, 'v) gomap = "('k \<times> 'v) list"
type_synonym ('k, 'v) iter = "('k \<times> 'v) list \<Rightarrow> ('k \<times> 'v) list"

definition gm_ok :: "('k, 'v) gomap \<Rightarrow> bool" where
  "gm_ok m \<longleftrightarrow> distinct (map fst m)"

definition range_order :: "('a list \<Rightarrow> 'a list) \<Rightarrow> bool" where
  "range_order ord \<longleftrightarrow> (\<forall>xs. mset (ord xs) = mset xs)"

definition has_key :: "('k, 'v) gomap \<Rightarrow> 'k \<Rightarrow> bool" where
  "has_key m k \<longleftrightarrow> map_of m k \<noteq> None"

subsection \<open>Calls that may panic\<close>

datatype 'a go = Ret 'a | Panic

definition go_bind :: "'a go \<Rightarrow> ('a \<Rightarrow> 'b go) \<Rightarrow> 'b go" where
  "go_bind m f = (case m of Ret x \<Rightarrow> f x | Panic \<Rightarrow> Panic)"

text \<open>A loop that appends the results of its body, and stops at a panic.\<close>

fun go_collect :: "('a \<Rightarrow> 'b list go) \<Rightarrow> 'a list \<Rightarrow> 'b list go" where
  "go_collect f [] = Ret []"
| "go_collect f (x # xs) = go_bind (f x) (\<lambda>y. go_bind (go_collect f xs) (\<lambda>ys. Ret (y @ ys)))"

section \<open>Lemmas\<close>

named_theorems go_simps "evaluation of calls that may panic"
named_theorems gomap_simps "contents of Go maps"

subsection \<open>Slices\<close>

lemma elems_simps [simp]:
  "elems None = []" "elems (Some xs) = xs"
  by (simp_all add: elems_def)

lemma elems_sappend [simp]: "elems (sappend s xs) = elems s @ xs"
  by (simp add: sappend_def)

lemma sappend_Nil [simp]: "sappend s [] = s"
  by (cases s) (simp_all add: sappend_def)

lemma sappend_sappend: "sappend (sappend s xs) ys = sappend s (xs @ ys)"
  by (simp add: sappend_def)

subsection \<open>Maps\<close>

lemma gm_ok_Nil [simp, intro]: "gm_ok []"
  by (simp add: gm_ok_def)

lemma gm_ok_update [simp, intro]: "gm_ok m \<Longrightarrow> gm_ok (AList.update k v m)"
  by (simp add: gm_ok_def distinct_update)

lemma gm_ok_delete [simp, intro]: "gm_ok m \<Longrightarrow> gm_ok (AList.delete k m)"
  by (simp add: gm_ok_def distinct_delete)

lemma map_of_update [gomap_simps]: "map_of (AList.update k v m) = (map_of m)(k \<mapsto> v)"
  by (rule update_conv')

lemma map_of_delete [gomap_simps]: "map_of (AList.delete k m) = (map_of m)(k := None)"
  by (rule delete_conv')

lemma range_order_id [simp, intro]: "range_order (\<lambda>xs. xs)"
  by (simp add: range_order_def)

lemma range_order_rev [simp, intro]: "range_order rev"
  by (simp add: range_order_def)

lemma range_order_set: "range_order ord \<Longrightarrow> set (ord xs) = set xs"
  by (metis range_order_def set_mset_mset)

lemma range_order_mset: "range_order ord \<Longrightarrow> mset (ord xs) = mset xs"
  by (simp add: range_order_def)

lemma range_order_length: "range_order ord \<Longrightarrow> length (ord xs) = length xs"
  by (metis range_order_def size_mset)

lemma range_order_Nil [simp]: "range_order ord \<Longrightarrow> ord [] = []"
  by (metis length_0_conv range_order_length)

lemma range_order_distinct_fst:
  "range_order ord \<Longrightarrow> gm_ok m \<Longrightarrow> gm_ok (ord m)"
  by (metis gm_ok_def mset_eq_imp_distinct_iff mset_map range_order_def)

lemma range_order_map_of:
  assumes "range_order ord" "gm_ok m"
  shows "map_of (ord m) = map_of m"
proof -
  from assms have "distinct (map fst (ord m))"
    using range_order_distinct_fst gm_ok_def by blast
  with assms show ?thesis
    by (intro map_of_inject_set [THEN iffD2]) (auto simp: range_order_set gm_ok_def)
qed

lemma ran_map_of: "gm_ok m \<Longrightarrow> ran (map_of m) = snd ` set m"
  by (simp add: gm_ok_def ran_distinct)

lemma has_key_iff: "has_key m k \<longleftrightarrow> k \<in> fst ` set m"
  by (auto simp: has_key_def map_of_eq_None_iff)

lemma has_key_update [gomap_simps]: "has_key (AList.update k v m) j \<longleftrightarrow> j = k \<or> has_key m j"
  by (auto simp: has_key_def update_conv')

lemma has_key_delete [gomap_simps]: "has_key (AList.delete k m) j \<longleftrightarrow> j \<noteq> k \<and> has_key m j"
  by (auto simp: has_key_def delete_conv')

lemma map_of_eq_iff_mem: "gm_ok m \<Longrightarrow> map_of m k = Some v \<longleftrightarrow> (k, v) \<in> set m"
  by (simp add: gm_ok_def)

subsection \<open>Calls that may panic\<close>

lemma go_bind_simps [simp, go_simps]:
  "go_bind (Ret x) f = f x" "go_bind Panic f = Panic"
  by (simp_all add: go_bind_def)

lemma go_bind_Ret_iff [go_simps]: "go_bind m f = Ret y \<longleftrightarrow> (\<exists>x. m = Ret x \<and> f x = Ret y)"
  by (cases m) simp_all

lemma go_bind_Panic_iff [go_simps]:
  "go_bind m f = Panic \<longleftrightarrow> m = Panic \<or> (\<exists>x. m = Ret x \<and> f x = Panic)"
  by (cases m) simp_all

lemma go_neq_Panic_iff: "m \<noteq> Panic \<longleftrightarrow> (\<exists>x. m = Ret x)"
  by (cases m) simp_all

lemma go_collect_Panic_iff: "go_collect f xs = Panic \<longleftrightarrow> (\<exists>x \<in> set xs. f x = Panic)"
proof (induction xs)
  case (Cons x xs)
  then show ?case by (cases "f x"; cases "go_collect f xs") auto
qed simp

lemma go_collect_Ret:
  "go_collect f xs = Ret ys \<Longrightarrow> set ys = (\<Union>x \<in> set xs. \<Union>y \<in> {y. f x = Ret y}. set y)"
proof (induction xs arbitrary: ys)
  case (Cons x xs)
  then obtain y zs where "f x = Ret y" "go_collect f xs = Ret zs" "ys = y @ zs"
    by (auto simp: go_bind_Ret_iff)
  with Cons.IH [of zs] show ?case by auto
qed simp

lemma go_collect_Ret_ex:
  "go_collect f xs = Ret ys \<Longrightarrow> y \<in> set ys \<Longrightarrow> \<exists>x \<in> set xs. \<exists>zs. f x = Ret zs \<and> y \<in> set zs"
  by (auto dest!: go_collect_Ret)

end
