(* ===== verification/Go_Strings.thy ===== *)
theory Go_Strings
  imports Mesh_Prelude "HOL-Library.Char_ord" "HOL-Library.List_Lexorder"
begin

text \<open>
  What the program uses of Go's \<open>strings\<close>, \<open>sort\<close> and \<open>fmt\<close> packages. A Go string is a
  sequence of bytes, as \<open>string\<close> is here; \<open>Char_ord\<close> and \<open>List_Lexorder\<close> give it the
  bytewise lexicographic order of \<open>sort.Strings\<close>.
\<close>

section \<open>Definitions\<close>

definition HasPrefix :: "string \<Rightarrow> string \<Rightarrow> bool" where
  "HasPrefix s p \<longleftrightarrow> take (length p) s = p"

definition TrimPrefix :: "string \<Rightarrow> string \<Rightarrow> string" where
  "TrimPrefix s p = (if HasPrefix s p then drop (length p) s else s)"

text \<open>\<open>strings.Split\<close> with a one-byte separator.\<close>

fun Split :: "string \<Rightarrow> char \<Rightarrow> string list" where
  "Split [] c = [[]]"
| "Split (x # xs) c =
     (if x = c then [] # Split xs c
      else (case Split xs c of [] \<Rightarrow> [[x]] | p # ps \<Rightarrow> (x # p) # ps))"

text \<open>\<open>strings.Index\<close> with a one-byte pattern: the first position, or -1.\<close>

fun Index :: "string \<Rightarrow> char \<Rightarrow> int" where
  "Index [] c = -1"
| "Index (x # xs) c =
     (if x = c then 0 else let i = Index xs c in if i = -1 then -1 else i + 1)"

text \<open>\<open>strings.Contains\<close>.\<close>

fun Contains :: "string \<Rightarrow> string \<Rightarrow> bool" where
  "Contains [] sub \<longleftrightarrow> sub = []"
| "Contains (x # xs) sub \<longleftrightarrow> HasPrefix (x # xs) sub \<or> Contains xs sub"

text \<open>
  \<open>strings.Replace(s, old, new, -1)\<close> and \<open>strings.ReplaceAll\<close> for a non-empty \<open>old\<close>: the
  matches are found from the left and do not overlap.
\<close>

function ReplaceAll :: "string \<Rightarrow> string \<Rightarrow> string \<Rightarrow> string" where
  "ReplaceAll s old new =
     (if s = [] then []
      else if old \<noteq> [] \<and> HasPrefix s old then new @ ReplaceAll (drop (length old) s) old new
      else hd s # ReplaceAll (tl s) old new)"
  by pat_completeness auto
termination
  by (relation "measure (\<lambda>(s, old, new). length s)") (auto simp: Suc_le_eq)

declare ReplaceAll.simps [simp del]

text \<open>\<open>strings.ToLower\<close> on ASCII bytes; other bytes are kept.\<close>

definition lower_char :: "char \<Rightarrow> char" where
  "lower_char c = (let n = (of_char c :: nat) in if 65 \<le> n \<and> n \<le> 90 then char_of (n + 32) else c)"

definition ToLower :: "string \<Rightarrow> string" where
  "ToLower s = map lower_char s"

text \<open>The digits of a number, most significant first: the \<open>%d\<close> and \<open>%x\<close> of \<open>fmt\<close>.\<close>

definition digit_char :: "nat \<Rightarrow> char" where
  "digit_char d = ''0123456789abcdef'' ! d"

fun digits :: "nat \<Rightarrow> nat \<Rightarrow> string" where
  "digits b n =
     (if b < 2 \<or> n < b then [digit_char n] else digits b (n div b) @ [digit_char (n mod b)])"

declare digits.simps [simp del]

definition hex_digit :: "char \<Rightarrow> bool" where
  "hex_digit c \<longleftrightarrow> c \<in> set ''0123456789abcdef''"

definition fmt_d :: "nat \<Rightarrow> string" where
  "fmt_d n = digits 10 n"

definition fmt_x :: "nat \<Rightarrow> string" where
  "fmt_x n = digits 16 n"

definition fmt_int :: "int \<Rightarrow> string" where
  "fmt_int i = (if i < 0 then ''-'' @ fmt_d (nat (- i)) else fmt_d (nat i))"

text \<open>The value of a digit string, the inverse of \<open>digits\<close>.\<close>

definition digit_val :: "char \<Rightarrow> nat" where
  "digit_val c = (let n = (of_char c :: nat) in if n < 58 then n - 48 else n - 87)"

definition undigits :: "nat \<Rightarrow> string \<Rightarrow> nat" where
  "undigits b s = foldl (\<lambda>a c. b * a + digit_val c) 0 s"

section \<open>Lemmas\<close>

named_theorems str_simps "Go string functions on concatenations"

subsection \<open>Prefixes\<close>

lemma HasPrefix_append [simp, str_simps]: "HasPrefix (p @ s) p"
  by (simp add: HasPrefix_def)

lemma HasPrefix_iff: "HasPrefix s p \<longleftrightarrow> (\<exists>t. s = p @ t)"
  by (metis HasPrefix_append HasPrefix_def append_take_drop_id)

lemma HasPrefix_Nil [simp]: "HasPrefix s []"
  by (simp add: HasPrefix_def)

lemma TrimPrefix_append [simp, str_simps]: "TrimPrefix (p @ s) p = s"
  by (simp add: TrimPrefix_def)

subsection \<open>Splitting\<close>

lemma Split_not_Nil [simp]: "Split s c \<noteq> []"
  by (induction s) (auto split: list.splits)

lemma Split_noSep: "c \<notin> set s \<Longrightarrow> Split s c = [s]"
  by (induction s) auto

lemma Split_append: "c \<notin> set p \<Longrightarrow> Split (p @ c # s) c = p # Split s c"
  by (induction p) auto

lemma Split_sep [str_simps]: "Split (c # s) c = [] # Split s c"
  by simp

lemma Split_elems: "p \<in> set (Split s c) \<Longrightarrow> c \<notin> set p"
proof (induction s arbitrary: p)
  case (Cons x xs)
  show ?case
  proof (cases "Split xs c")
    case Nil
    then show ?thesis by (rule notE [OF Split_not_Nil])
  next
    case (Cons q qs)
    with Cons.IH Cons.prems show ?thesis by (auto split: if_splits)
  qed
qed simp

text \<open>Joining the parts gives the string back.\<close>

fun join :: "char \<Rightarrow> string list \<Rightarrow> string" where
  "join c [] = []"
| "join c [p] = p"
| "join c (p # ps) = p @ c # join c ps"

lemma join_Cons: "ps \<noteq> [] \<Longrightarrow> join c (p # ps) = p @ c # join c ps"
  by (cases ps) simp_all

lemma join_Split: "join c (Split s c) = s"
proof (induction s)
  case (Cons x xs)
  obtain q qs where q: "Split xs c = q # qs" by (cases "Split xs c") auto
  show ?case
  proof (cases "x = c")
    case True
    with Cons.IH show ?thesis by (simp add: join_Cons)
  next
    case False
    with Cons.IH q show ?thesis by (cases qs) (auto simp: join_Cons)
  qed
qed simp

lemma Split_3: "Split s c = [a, b, d] \<longleftrightarrow> s = a @ c # b @ c # d \<and> c \<notin> set a \<and> c \<notin> set b \<and> c \<notin> set d"
proof
  assume sp: "Split s c = [a, b, d]"
  then have "join c [a, b, d] = s" using join_Split [of c s] by simp
  with sp show "s = a @ c # b @ c # d \<and> c \<notin> set a \<and> c \<notin> set b \<and> c \<notin> set d"
    using Split_elems [of _ s c] by auto
qed (auto simp: Split_append Split_noSep)

lemma Split_2: "Split s c = [a, b] \<longleftrightarrow> s = a @ c # b \<and> c \<notin> set a \<and> c \<notin> set b"
proof
  assume sp: "Split s c = [a, b]"
  then have "join c [a, b] = s" using join_Split [of c s] by simp
  with sp show "s = a @ c # b \<and> c \<notin> set a \<and> c \<notin> set b"
    using Split_elems [of _ s c] by auto
qed (auto simp: Split_append Split_noSep)

subsection \<open>Index\<close>

lemma Index_ge: "-1 \<le> Index s c"
  by (induction s) (auto simp: Let_def)

lemma Index_none: "Index s c = -1 \<longleftrightarrow> c \<notin> set s"
proof (induction s)
  case (Cons x xs)
  then show ?case using Index_ge [of xs c] by (auto simp: Let_def)
qed simp

lemma take_Index: "c \<in> set s \<Longrightarrow> take (nat (Index s c)) s = takeWhile (\<lambda>x. x \<noteq> c) s"
proof (induction s)
  case (Cons x xs)
  show ?case
  proof (cases "x = c")
    case False
    with Cons have "c \<in> set xs" by auto
    with False Cons.IH Index_ge [of xs c] Index_none [of xs c]
    show ?thesis by (simp add: Let_def nat_add_distrib)
  qed simp
qed simp

subsection \<open>Containment\<close>

lemma Contains_iff: "Contains s sub \<longleftrightarrow> (\<exists>a b. s = a @ sub @ b)"
proof (induction s)
  case (Cons x xs)
  show ?case
  proof
    assume "Contains (x # xs) sub"
    then consider t where "x # xs = [] @ sub @ t" | a b where "x # xs = (x # a) @ sub @ b"
      using Cons.IH by (auto simp: HasPrefix_iff)
    then show "\<exists>a b. x # xs = a @ sub @ b" by cases blast+
  next
    assume "\<exists>a b. x # xs = a @ sub @ b"
    then obtain a b where "x # xs = a @ sub @ b" by blast
    then show "Contains (x # xs) sub"
    proof (cases a)
      case Nil
      with \<open>x # xs = a @ sub @ b\<close> have "HasPrefix (x # xs) sub" by (simp only: append_Nil HasPrefix_append)
      then show ?thesis by simp
    next
      case (Cons c cs)
      with \<open>x # xs = a @ sub @ b\<close> Cons.IH show ?thesis by auto
    qed
  qed
qed simp

subsection \<open>Replacement\<close>

lemma ReplaceAll_Nil [simp]: "ReplaceAll [] old new = []"
  by (subst ReplaceAll.simps) simp

lemma ReplaceAll_char: "ReplaceAll s [c] [d] = map (\<lambda>x. if x = c then d else x) s"
proof (induction s)
  case (Cons x xs)
  then show ?case by (subst ReplaceAll.simps) (auto simp: HasPrefix_def)
qed simp

subsection \<open>Digits\<close>

lemma digits_not_Nil [simp]: "digits b n \<noteq> []"
  by (subst digits.simps) simp

lemma all_below_16: "(\<forall>d < (16::nat). P d) \<longleftrightarrow>
    P 0 \<and> P 1 \<and> P 2 \<and> P 3 \<and> P 4 \<and> P 5 \<and> P 6 \<and> P 7 \<and>
    P 8 \<and> P 9 \<and> P 10 \<and> P 11 \<and> P 12 \<and> P 13 \<and> P 14 \<and> P 15"
  by (simp add: numeral_eq_Suc All_less_Suc conj_ac)

lemma digit_val_char [simp]: "d < 16 \<Longrightarrow> digit_val (digit_char d) = d"
proof -
  have "\<forall>d < (16::nat). digit_val (digit_char d) = d"
    unfolding all_below_16 by (simp add: digit_val_def digit_char_def Let_def)
  then show "d < 16 \<Longrightarrow> digit_val (digit_char d) = d" by blast
qed

lemma undigits_snoc: "undigits b (s @ [c]) = b * undigits b s + digit_val c"
  by (simp add: undigits_def)

lemma undigits_digits: "2 \<le> b \<Longrightarrow> b \<le> 16 \<Longrightarrow> undigits b (digits b n) = n"
proof (induction b n rule: digits.induct)
  case (1 b n)
  show ?case
  proof (cases "n < b")
    case True
    with "1.prems" show ?thesis
      by (subst digits.simps) (simp add: undigits_def)
  next
    case False
    with "1.IH" "1.prems" have "undigits b (digits b (n div b)) = n div b" by simp
    moreover from "1.prems" have "n mod b < 16"
      using mod_less_divisor [of b n] by linarith
    ultimately show ?thesis
      using False "1.prems" by (subst digits.simps) (simp add: undigits_snoc)
  qed
qed

lemma undigits_fmt_x [simp]: "undigits 16 (fmt_x n) = n"
  by (simp add: fmt_x_def undigits_digits)

lemma undigits_fmt_d [simp]: "undigits 10 (fmt_d n) = n"
  by (simp add: fmt_d_def undigits_digits)

lemma fmt_x_inj: "fmt_x m = fmt_x n \<Longrightarrow> m = n"
  by (drule arg_cong [where f = "undigits 16"]) simp

lemma fmt_d_inj: "fmt_d m = fmt_d n \<Longrightarrow> m = n"
  by (drule arg_cong [where f = "undigits 10"]) simp

lemma hex_digit_char: "d < 16 \<Longrightarrow> hex_digit (digit_char d)"
  unfolding hex_digit_def digit_char_def by (rule nth_mem) simp

lemma digits_hex: "2 \<le> b \<Longrightarrow> b \<le> 16 \<Longrightarrow> \<forall>c \<in> set (digits b n). hex_digit c"
proof (induction b n rule: digits.induct)
  case (1 b n)
  then have lt: "n mod b < 16" "n < b \<Longrightarrow> n < 16"
    using mod_less_divisor [of b n] by linarith+
  show ?case
  proof (cases "n < b")
    case True
    with "1.prems" lt show ?thesis by (subst digits.simps) (simp add: hex_digit_char)
  next
    case False
    with "1.IH" "1.prems" lt show ?thesis
      by (subst digits.simps) (auto simp: hex_digit_char)
  qed
qed

lemma hex_digit_no_slash: "hex_digit c \<Longrightarrow> c \<noteq> CHR ''/''"
  by (auto simp: hex_digit_def)

lemma digits_length: "2 \<le> b \<Longrightarrow> 0 < k \<Longrightarrow> n < b ^ k \<Longrightarrow> length (digits b n) \<le> k"
proof (induction b n arbitrary: k rule: digits.induct)
  case (1 b n)
  show ?case
  proof (cases "n < b")
    case True
    with "1.prems" show ?thesis by (subst digits.simps) simp
  next
    case False
    then obtain j where k: "k = Suc j" "0 < j"
      using "1.prems" by (cases k; cases "k - 1") auto
    from "1.prems" k have "n div b < b ^ j"
      by (simp add: less_mult_imp_div_less mult.commute)
    with "1.IH" "1.prems" False k have "length (digits b (n div b)) \<le> j" by simp
    with False "1.prems" k show ?thesis by (subst digits.simps) simp
  qed
qed

end
