(* ===== verification/Apisix_Types.thy ===== *)
theory Apisix_Types
  imports Go_Strings
begin

text \<open>
  The APISIX resources of \<open>pkg/types/apisix\<close> (the generated Go structs, less the fields of the
  protobuf runtime) and the events of \<open>pkg/types\<close>. Slices whose nil value the code tells from
  an empty one (\<open>Nodes\<close>, \<open>Vars\<close> of an expression) are of type \<open>slice\<close>. A \<open>float64\<close> is the
  rational number it stands for; the code only ever makes them from integers.
\<close>

section \<open>Resources\<close>

record any_msg =
  aTypeUrl :: string
  aValue :: string

record var =
  vVars :: "string slice"

record node =
  nHost :: string
  nPort :: i32
  nWeight :: i32
  nMetadata :: "(string, any_msg) gomap"

datatype RouteStatus = Route_Disable | Route_Enable

record route =
  rUris :: "string list"
  rName :: string
  rId :: string
  rDesc :: string
  rPriority :: i32
  rMethods :: "string list"
  rHosts :: "string list"
  rRemoteAddrs :: "string list"
  rVars :: "var list"
  rPlugins :: "any_msg option"
  rServiceId :: string
  rUpstreamId :: string
  rStatus :: RouteStatus

record upstream_timeout =
  tConnect :: float64
  tSend :: float64
  tRead :: float64

record active_healthy =
  ahInterval :: i32
  ahHttpStatuses :: "i32 list"
  ahSuccesses :: i32

record active_unhealthy =
  auInterval :: i32
  auHttpStatuses :: "i32 list"
  auHttpFailures :: i32
  auTcpFailures :: i32
  auTimeouts :: i32

record active_check =
  acType :: string
  acTimeout :: float64
  acConcurrency :: i32
  acHost :: string
  acPort :: i32
  acHttpPath :: string
  acHttpsVerifyCertificate :: bool
  acHealthy :: "active_healthy option"
  acUnhealthy :: "active_unhealthy option"
  acReqHeaders :: "string list"

record passive_healthy =
  phHttpStatuses :: "i32 list"
  phSuccesses :: i32

record passive_unhealthy =
  puHttpStatuses :: "i32 list"
  puHttpFailures :: i32
  puTcpFailures :: i32
  puTimeouts :: i32

record passive_check =
  pcType :: string
  pcHealthy :: "passive_healthy option"
  pcUnhealthy :: "passive_unhealthy option"

record health_check =
  hcActive :: "active_check option"
  hcPassive :: "passive_check option"

record upstream =
  uRetries :: i32
  uTimeout :: "upstream_timeout option"
  uType :: string
  uHashOn :: string
  uKey :: string
  uCheck :: "health_check option"
  uScheme :: string
  uPassHost :: string
  uUpstreamHost :: string
  uName :: string
  uDesc :: string
  uId :: string
  uNodes :: "node slice"

text \<open>The zero values a Go composite literal starts from.\<close>

definition zero_route :: route where
  "zero_route = \<lparr>rUris = [], rName = '''', rId = '''', rDesc = '''', rPriority = 0,
     rMethods = [], rHosts = [], rRemoteAddrs = [], rVars = [], rPlugins = None,
     rServiceId = '''', rUpstreamId = '''', rStatus = Route_Disable\<rparr>"

definition zero_node :: node where
  "zero_node = \<lparr>nHost = '''', nPort = 0, nWeight = 0, nMetadata = []\<rparr>"

definition zero_upstream :: upstream where
  "zero_upstream = \<lparr>uRetries = 0, uTimeout = None, uType = '''', uHashOn = '''', uKey = '''',
     uCheck = None, uScheme = '''', uPassHost = '''', uUpstreamHost = '''', uName = '''',
     uDesc = '''', uId = '''', uNodes = None\<rparr>"

section \<open>Events\<close>

text \<open>
  \<open>EventType\<close> is a Go string type: any string can occur, three are named. The object of an
  event is an \<open>interface{}\<close>; the program puts a route or an upstream into it and leaves the
  other field nil.
\<close>

type_synonym event_type = string

definition EventAdd :: event_type where "EventAdd = ''add''"
definition EventUpdate :: event_type where "EventUpdate = ''update''"
definition EventDelete :: event_type where "EventDelete = ''delete''"

datatype object = ORoute route | OUpstream upstream | ONil | OOther

record event =
  eType :: event_type
  eObject :: object
  eTombstone :: object
  eRevision :: i64

definition mk_event :: "event_type \<Rightarrow> object \<Rightarrow> object \<Rightarrow> event" where
  "mk_event t obj tomb = \<lparr>eType = t, eObject = obj, eTombstone = tomb, eRevision = 0\<rparr>"

lemma event_types_distinct [simp]:
  "EventAdd \<noteq> EventUpdate" "EventAdd \<noteq> EventDelete" "EventUpdate \<noteq> EventDelete"
  "EventUpdate \<noteq> EventAdd" "EventDelete \<noteq> EventAdd" "EventDelete \<noteq> EventUpdate"
  by (simp_all add: EventAdd_def EventUpdate_def EventDelete_def)

lemma mk_event_simps [simp]:
  "eType (mk_event t a b) = t" "eObject (mk_event t a b) = a"
  "eTombstone (mk_event t a b) = b" "eRevision (mk_event t a b) = 0"
  by (simp_all add: mk_event_def)

section \<open>Resource type URLs\<close>

definition RouteConfigurationUrl :: string where
  "RouteConfigurationUrl = ''type.googleapis.com/envoy.config.route.v3.RouteConfiguration''"
definition ClusterUrl :: string where
  "ClusterUrl = ''type.googleapis.com/envoy.config.cluster.v3.Cluster''"
definition ClusterLoadAssignmentUrl :: string where
  "ClusterLoadAssignmentUrl = ''type.googleapis.com/envoy.config.endpoint.v3.ClusterLoadAssignment''"
definition ListenerUrl :: string where
  "ListenerUrl = ''type.googleapis.com/envoy.config.listener.v3.Listener''"

lemma urls_distinct [simp]:
  "RouteConfigurationUrl \<noteq> ClusterUrl" "RouteConfigurationUrl \<noteq> ClusterLoadAssignmentUrl"
  "RouteConfigurationUrl \<noteq> ListenerUrl" "ClusterUrl \<noteq> ClusterLoadAssignmentUrl"
  "ClusterUrl \<noteq> ListenerUrl" "ClusterLoadAssignmentUrl \<noteq> ListenerUrl"
  "ClusterUrl \<noteq> RouteConfigurationUrl" "ClusterLoadAssignmentUrl \<noteq> RouteConfigurationUrl"
  "ListenerUrl \<noteq> RouteConfigurationUrl" "ClusterLoadAssignmentUrl \<noteq> ClusterUrl"
  "ListenerUrl \<noteq> ClusterUrl" "ListenerUrl \<noteq> ClusterLoadAssignmentUrl"
  by (simp_all add: RouteConfigurationUrl_def ClusterUrl_def ClusterLoadAssignmentUrl_def
      ListenerUrl_def)

end
