(* ===== verification/Xds_Types.thy ===== *)
theory Xds_Types
  imports Apisix_Types
begin

text \<open>
  The fields of the Envoy xDS messages (go-control-plane) that the program reads. The messages
  are third-party protobuf types: a record has the fields the code uses, a oneof is a datatype
  whose last constructor stands for the alternatives the code does not handle. A message-typed
  field may be absent (\<open>None\<close>, a nil pointer); a list element and the message inside a set
  oneof never are, because every value comes out of the protobuf decoder.
\<close>

section \<open>Clusters and endpoints\<close>

record duration =
  dSeconds :: i64
  dNanos :: i32

datatype protocol = TCP | UDP

datatype port_specifier = PortValue u32 | NamedPort string | NoPort

record socket_address =
  saProtocol :: protocol
  saAddress :: string
  saPort :: port_specifier

datatype address = SocketAddress socket_address | OtherAddress

text \<open>An endpoint whose \<open>Address\<close> message is absent is \<open>Endpoint None\<close>.\<close>

datatype host_identifier = Endpoint "address option" | OtherIdentifier

record lb_endpoint =
  epWeight :: "u32 option"
  epHost :: host_identifier

record locality_endpoints =
  lwWeight :: "u32 option"
  lwEndpoints :: "lb_endpoint list"

record load_assignment =
  laClusterName :: string
  laEndpoints :: "locality_endpoints list"

datatype lb_policy = ROUND_ROBIN | LEAST_REQUEST | OtherPolicy

datatype discovery_type = STATIC | STRICT_DNS | LOGICAL_DNS | EDS | ORIGINAL_DST

datatype discovery = DiscType discovery_type | DiscClusterType | DiscNone

record cluster =
  clName :: string
  clLbPolicy :: lb_policy
  clConnectTimeout :: "duration option"
  clDiscovery :: discovery
  clLoadAssignment :: "load_assignment option"

text \<open>The getters of the oneof: the zero enum value where another alternative is set.\<close>

definition GetType :: "cluster \<Rightarrow> discovery_type" where
  "GetType c = (case clDiscovery c of DiscType t \<Rightarrow> t | _ \<Rightarrow> STATIC)"

section \<open>Routes\<close>

datatype match_pattern =
    SM_Exact string | SM_Prefix string | SM_Suffix string | SM_SafeRegex string
  | SM_Contains string | SM_Nil

record string_matcher =
  smPattern :: match_pattern
  smIgnoreCase :: bool

datatype query_specifier = QP_PresentMatch bool | QP_StringMatch string_matcher | QP_Nil

record query_matcher =
  qpName :: string
  qpSpecifier :: query_specifier

datatype header_specifier =
    HM_ContainsMatch string | HM_ExactMatch string | HM_PrefixMatch string
  | HM_PresentMatch bool | HM_SafeRegexMatch string | HM_SuffixMatch string | HM_Other

record header_matcher =
  hmName :: string
  hmSpecifier :: header_specifier
  hmInvert :: bool

datatype path_specifier = PS_Path string | PS_Prefix string | PS_Other

record route_match =
  rmCaseSensitive :: "bool option"
  rmPath :: path_specifier
  rmQueryParameters :: "query_matcher list"
  rmHeaders :: "header_matcher list"

datatype cluster_specifier = CS_Cluster string | CS_Other

datatype route_action = RA_Route cluster_specifier | RA_Other

record envoy_route =
  erName :: string
  erMatch :: "route_match option"
  erAction :: route_action

record virtual_host =
  vhName :: string
  vhDomains :: "string list"
  vhRoutes :: "envoy_route list"

record route_configuration =
  rcName :: string
  rcVirtualHosts :: "virtual_host list"

section \<open>Listeners\<close>

datatype hcm_route_specifier =
    HCM_Rds string | HCM_RouteConfig route_configuration | HCM_Other

record listener_filter =
  fName :: string
  fTypedConfig :: "any_msg option"

record filter_chain =
  fcFilters :: "listener_filter list"

record listener =
  lAddress :: "address option"
  lFilterChains :: "filter_chain list"

section \<open>Discovery messages\<close>

record discovery_request =
  dqTypeUrl :: string
  dqResourceNames :: "string list"
  dqVersionInfo :: string
  dqResponseNonce :: string
  dqErrorDetail :: bool

record discovery_response =
  drTypeUrl :: string
  drVersionInfo :: string
  drNonce :: string
  drResources :: "any_msg list"

section \<open>Decoders\<close>

text \<open>
  \<open>anypb.UnmarshalTo\<close> of the protobuf library, once per target type: a decoding error or the
  message. The program only branches on the outcome, so nothing is assumed of them.
\<close>

datatype decode_error = DecodeError string

record decoders =
  dec_listener :: "any_msg \<Rightarrow> decode_error + listener"
  dec_hcm :: "any_msg \<Rightarrow> decode_error + hcm_route_specifier"
  dec_route :: "any_msg \<Rightarrow> decode_error + route_configuration"
  dec_cluster :: "any_msg \<Rightarrow> decode_error + cluster"
  dec_assignment :: "any_msg \<Rightarrow> decode_error + load_assignment"

end
