(* ===== verification/Id_Gen.thy ===== *)
theory Id_Gen
  imports Go_Strings
begin

text \<open>
  \<open>pkg/id\<close>: the identifier of an APISIX resource is the CRC-32 of its name, printed in
  hexadecimal. \<open>crc32.ChecksumIEEE\<close> of Go's standard library is modelled bit by bit.
\<close>

unbundle bit_operations_syntax

section \<open>Definitions\<close>

definition crc_bit :: "u32 \<Rightarrow> u32" where
  "crc_bit c = (if bit c 0 then drop_bit 1 c XOR 0xEDB88320 else drop_bit 1 c)"

definition crc_byte :: "u32 \<Rightarrow> char \<Rightarrow> u32" where
  "crc_byte c b =
     crc_bit (crc_bit (crc_bit (crc_bit (crc_bit (crc_bit (crc_bit (crc_bit (c XOR of_char b))))))))"

definition ChecksumIEEE :: "string \<Rightarrow> u32" where
  "ChecksumIEEE s = NOT (foldl crc_byte (NOT 0) s)"

definition GenID :: "string \<Rightarrow> string" where
  "GenID raw = (if raw = '''' then '''' else let res = ChecksumIEEE raw in fmt_x (unat res))"

section \<open>Lemmas\<close>

lemma GenID_Nil [simp]: "GenID [] = []"
  by (simp add: GenID_def)

lemma GenID_eq_Nil_iff [simp]: "GenID raw = [] \<longleftrightarrow> raw = []"
  by (simp add: GenID_def Let_def fmt_x_def)

lemma GenID_hex: "c \<in> set (GenID raw) \<Longrightarrow> hex_digit c"
  using digits_hex [of 16 "unat (ChecksumIEEE raw)"]
  by (auto simp: GenID_def Let_def fmt_x_def split: if_splits)

lemma GenID_no_slash [simp]: "CHR ''/'' \<notin> set (GenID raw)"
  using GenID_hex hex_digit_no_slash by blast

lemma GenID_length: "length (GenID raw) \<le> 8"
proof -
  have "unat (ChecksumIEEE raw) < 2 ^ LENGTH(32)" by (rule unsigned_less)
  then show ?thesis
    by (simp add: GenID_def Let_def fmt_x_def digits_length)
qed

lemma GenID_eq_iff:
  "a \<noteq> [] \<Longrightarrow> b \<noteq> [] \<Longrightarrow> GenID a = GenID b \<longleftrightarrow> ChecksumIEEE a = ChecksumIEEE b"
  by (auto simp: GenID_def Let_def word_unat_eq_iff dest: fmt_x_inj)

text \<open>The check value of the CRC-32/IEEE catalogue entry, and a well-known collision.\<close>

lemma ChecksumIEEE_check: "ChecksumIEEE ''123456789'' = 0xCBF43926"
  by (simp add: ChecksumIEEE_def crc_byte_def crc_bit_def)

lemma ChecksumIEEE_collision: "ChecksumIEEE ''plumless'' = ChecksumIEEE ''buckeroo''"
  by (simp add: ChecksumIEEE_def crc_byte_def crc_bit_def)

section \<open>Properties\<close>

text \<open>C40: an identifier has at most eight characters, all lower-case hexadecimal digits (so it
  never holds a slash, the separator of etcd keys), and it is empty only for the empty name.\<close>

theorem GenID_identifier:
  "length (GenID raw) \<le> 8 \<and> list_all hex_digit (GenID raw) \<and> CHR ''/'' \<notin> set (GenID raw)
     \<and> (GenID raw = '''' \<longleftrightarrow> raw = '''')"
  using GenID_length GenID_hex by (simp add: list_all_iff)

end
