(* ===== verification/Xds_Cluster.thy ===== *)
theory Xds_Cluster
  imports Xds_Types Id_Gen
begin

text \<open>
  \<open>pkg/adaptor/xds/v3/cluster.go\<close>: a cluster becomes an upstream, its endpoints become nodes.
  The specification \<open>endpoint_node\<close> says which endpoints are usable and what node each is; the
  translation is shown to list exactly these, in order, and to panic exactly when an endpoint
  has no address message.
\<close>

section \<open>Definitions\<close>

datatype adaptor_error = ErrRequireFurtherEDS | ErrFeatureNotSupportedYet

text \<open>
  \<open>float64(int64)\<close>: exact below \<open>2 ^ 53\<close>, else rounded to the nearest multiple of the unit in
  the last place, ties to even.
\<close>

fun excess_bits :: "nat \<Rightarrow> nat" where
  "excess_bits n = (if n < 2 ^ 53 then 0 else Suc (excess_bits (n div 2)))"

declare excess_bits.simps [simp del]

definition round53 :: "nat \<Rightarrow> nat" where
  "round53 n =
     (let e = excess_bits n; q = n div 2 ^ e; r = n mod 2 ^ e
      in if e = 0 then n
         else if 2 ^ (e - 1) < r \<or> (r = 2 ^ (e - 1) \<and> odd q) then (q + 1) * 2 ^ e
         else q * 2 ^ e)"

definition float64_of_int64 :: "i64 \<Rightarrow> float64" where
  "float64_of_int64 s = of_int (sgn (sint s) * int (round53 (nat \<bar>sint s\<bar>)))"

text \<open>\<open>int32(uint32)\<close> keeps the 32 bits and reads them as a signed number.\<close>

definition int32_of_uint32 :: "u32 \<Rightarrow> i32" where
  "int32_of_uint32 w = w"

definition translateClusterLbPolicy :: "cluster \<Rightarrow> upstream \<Rightarrow> adaptor_error + upstream" where
  "translateClusterLbPolicy c ups =
     (case clLbPolicy c of
        ROUND_ROBIN \<Rightarrow> Inr (ups\<lparr>uType := ''roundrobin''\<rparr>)
      | LEAST_REQUEST \<Rightarrow> Inr (ups\<lparr>uType := ''least_conn''\<rparr>)
      | OtherPolicy \<Rightarrow> Inl ErrFeatureNotSupportedYet)"

definition translateClusterTimeoutSettings :: "cluster \<Rightarrow> upstream \<Rightarrow> upstream" where
  "translateClusterTimeoutSettings c ups =
     (case clConnectTimeout c of
        None \<Rightarrow> ups
      | Some d \<Rightarrow> ups\<lparr>uTimeout :=
          Some \<lparr>tConnect = float64_of_int64 (dSeconds d), tSend = 60, tRead = 60\<rparr>\<rparr>)"

text \<open>One endpoint: no node where the code continues, one node where it appends.\<close>

definition translateEndpoint :: "i32 \<Rightarrow> lb_endpoint \<Rightarrow> node list go" where
  "translateEndpoint weight ep =
     (let w = (case epWeight ep of None \<Rightarrow> weight | Some v \<Rightarrow> int32_of_uint32 v);
          nd = zero_node\<lparr>nWeight := w\<rparr>
      in case epHost ep of
           Endpoint None \<Rightarrow> Panic
         | Endpoint (Some (SocketAddress sa)) \<Rightarrow>
             (if saProtocol sa \<noteq> TCP then Ret []
              else case saPort sa of
                     PortValue p \<Rightarrow>
                       Ret [nd\<lparr>nHost := saAddress sa, nPort := int32_of_uint32 p\<rparr>]
                   | NamedPort _ \<Rightarrow> Ret []
                   | NoPort \<Rightarrow> Ret [nd\<lparr>nHost := saAddress sa\<rparr>])
         | Endpoint (Some OtherAddress) \<Rightarrow> Ret []
         | OtherIdentifier \<Rightarrow> Ret [])"

definition translateLocality :: "locality_endpoints \<Rightarrow> node list go" where
  "translateLocality eps =
     (let weight = (case lwWeight eps of None \<Rightarrow> 100 | Some v \<Rightarrow> int32_of_uint32 v)
      in go_collect (translateEndpoint weight) (lwEndpoints eps))"

definition TranslateClusterLoadAssignment :: "load_assignment option \<Rightarrow> node slice go" where
  "TranslateClusterLoadAssignment la =
     go_bind (go_collect translateLocality (case la of None \<Rightarrow> [] | Some l \<Rightarrow> laEndpoints l))
       (\<lambda>nodes. Ret (sappend None nodes))"

definition translateClusterLoadAssignments ::
    "cluster \<Rightarrow> upstream \<Rightarrow> (adaptor_error option \<times> upstream) go" where
  "translateClusterLoadAssignments c ups =
     (if clDiscovery c = DiscClusterType then Ret (Some ErrFeatureNotSupportedYet, ups)
      else case GetType c of
             EDS \<Rightarrow> Ret (Some ErrRequireFurtherEDS, ups)
           | _ \<Rightarrow> go_bind (TranslateClusterLoadAssignment (clLoadAssignment c))
                   (\<lambda>nodes. Ret (None, ups\<lparr>uNodes := nodes\<rparr>)))"

text \<open>The result is Go's pair of a possibly nil upstream and a possibly nil error.\<close>

definition TranslateCluster :: "cluster \<Rightarrow> (upstream option \<times> adaptor_error option) go" where
  "TranslateCluster c =
     (let ups = zero_upstream\<lparr>uName := clName c, uId := GenID (clName c), uNodes := Some []\<rparr>
      in case translateClusterLbPolicy c ups of
           Inl e \<Rightarrow> Ret (None, Some e)
         | Inr ups1 \<Rightarrow>
             go_bind (translateClusterLoadAssignments c (translateClusterTimeoutSettings c ups1))
               (\<lambda>(err, ups2).
                 (case err of
                    None \<Rightarrow> Ret (Some ups2, None)
                  | Some e \<Rightarrow>
                      if e = ErrRequireFurtherEDS then Ret (Some ups2, Some e)
                      else Ret (None, Some e))))"

subsection \<open>Specification\<close>

text \<open>The node an endpoint stands for, if the translation can use the endpoint.\<close>

definition effective_weight :: "u32 option \<Rightarrow> u32 option \<Rightarrow> i32" where
  "effective_weight loc ep =
     (case ep of Some w \<Rightarrow> w | None \<Rightarrow> (case loc of Some w \<Rightarrow> w | None \<Rightarrow> 100))"

definition endpoint_node :: "u32 option \<Rightarrow> lb_endpoint \<Rightarrow> node option" where
  "endpoint_node loc ep =
     (case epHost ep of
        Endpoint (Some (SocketAddress sa)) \<Rightarrow>
          if saProtocol sa = TCP \<and> (\<forall>n. saPort sa \<noteq> NamedPort n)
          then Some \<lparr>nHost = saAddress sa,
                     nPort = (case saPort sa of PortValue p \<Rightarrow> p | _ \<Rightarrow> 0),
                     nWeight = effective_weight loc (epWeight ep), nMetadata = []\<rparr>
          else None
      | _ \<Rightarrow> None)"

definition assignment_nodes :: "load_assignment \<Rightarrow> node list" where
  "assignment_nodes la =
     concat (map (\<lambda>eps. List.map_filter (endpoint_node (lwWeight eps)) (lwEndpoints eps))
               (laEndpoints la))"

definition has_addresses :: "load_assignment \<Rightarrow> bool" where
  "has_addresses la \<longleftrightarrow>
     (\<forall>eps \<in> set (laEndpoints la). \<forall>ep \<in> set (lwEndpoints eps). epHost ep \<noteq> Endpoint None)"

section \<open>Lemmas\<close>

subsection \<open>Nodes\<close>

lemma translateEndpoint_Panic_iff: "translateEndpoint w ep = Panic \<longleftrightarrow> epHost ep = Endpoint None"
  by (auto simp: translateEndpoint_def Let_def
      split: host_identifier.splits option.splits address.splits port_specifier.splits)

lemma translateEndpoint_node:
  assumes "epHost ep \<noteq> Endpoint None"
  shows "translateEndpoint (case lw of None \<Rightarrow> 100 | Some v \<Rightarrow> int32_of_uint32 v) ep =
    Ret (case endpoint_node lw ep of None \<Rightarrow> [] | Some n \<Rightarrow> [n])"
  using assms
  by (auto simp: translateEndpoint_def endpoint_node_def effective_weight_def Let_def
      int32_of_uint32_def zero_node_def
      split: host_identifier.splits option.splits address.splits port_specifier.splits)

lemma go_collect_map_filter:
  "(\<And>x. x \<in> set xs \<Longrightarrow> f x = Ret (case g x of None \<Rightarrow> [] | Some y \<Rightarrow> [y])) \<Longrightarrow>
     go_collect f xs = Ret (List.map_filter g xs)"
  by (induction xs) (auto simp: map_filter_simps split: option.splits)

lemma go_collect_concat:
  "(\<And>x. x \<in> set xs \<Longrightarrow> f x = Ret (g x)) \<Longrightarrow> go_collect f xs = Ret (concat (map g xs))"
  by (induction xs) auto

lemma translateLocality_eq:
  "\<forall>ep \<in> set (lwEndpoints eps). epHost ep \<noteq> Endpoint None \<Longrightarrow>
     translateLocality eps = Ret (List.map_filter (endpoint_node (lwWeight eps)) (lwEndpoints eps))"
  unfolding translateLocality_def Let_def
  by (rule go_collect_map_filter) (rule translateEndpoint_node, blast)

lemma translateLocality_Panic_iff:
  "translateLocality eps = Panic \<longleftrightarrow> (\<exists>ep \<in> set (lwEndpoints eps). epHost ep = Endpoint None)"
  by (simp add: translateLocality_def Let_def go_collect_Panic_iff translateEndpoint_Panic_iff)

lemma TranslateClusterLoadAssignment_eq:
  "TranslateClusterLoadAssignment (Some la) =
     (if has_addresses la then Ret (sappend None (assignment_nodes la)) else Panic)"
proof (cases "has_addresses la")
  case True
  then have "go_collect translateLocality (laEndpoints la) = Ret (assignment_nodes la)"
    unfolding assignment_nodes_def has_addresses_def
    by (intro go_collect_concat translateLocality_eq) blast
  with True show ?thesis by (simp add: TranslateClusterLoadAssignment_def)
next
  case False
  then have "go_collect translateLocality (laEndpoints la) = Panic"
    by (auto simp: go_collect_Panic_iff translateLocality_Panic_iff has_addresses_def)
  with False show ?thesis by (simp add: TranslateClusterLoadAssignment_def)
qed

lemma TranslateClusterLoadAssignment_None [simp]: "TranslateClusterLoadAssignment None = Ret None"
  by (simp add: TranslateClusterLoadAssignment_def)

subsection \<open>Upstreams\<close>

definition base_upstream :: "cluster \<Rightarrow> upstream" where
  "base_upstream c = zero_upstream\<lparr>uName := clName c, uId := GenID (clName c), uNodes := Some [],
     uType := (if clLbPolicy c = ROUND_ROBIN then ''roundrobin'' else ''least_conn''),
     uTimeout := map_option (\<lambda>d. \<lparr>tConnect = float64_of_int64 (dSeconds d), tSend = 60, tRead = 60\<rparr>)
       (clConnectTimeout c)\<rparr>"

definition unsupported :: "cluster \<Rightarrow> bool" where
  "unsupported c \<longleftrightarrow> clLbPolicy c = OtherPolicy \<or> clDiscovery c = DiscClusterType"

lemma policy_timeout_eq:
  assumes "clLbPolicy c \<noteq> OtherPolicy"
  shows "map_sum id (translateClusterTimeoutSettings c) (translateClusterLbPolicy c
      (zero_upstream\<lparr>uName := clName c, uId := GenID (clName c), uNodes := Some []\<rparr>)) =
    Inr (base_upstream c)"
  using assms
  by (cases "clLbPolicy c"; cases "clConnectTimeout c")
    (simp_all add: translateClusterLbPolicy_def translateClusterTimeoutSettings_def
      base_upstream_def zero_upstream_def)

lemma TranslateCluster_eq:
  "TranslateCluster c =
     (if unsupported c then Ret (None, Some ErrFeatureNotSupportedYet)
      else if GetType c = EDS then Ret (Some (base_upstream c), Some ErrRequireFurtherEDS)
      else go_bind (TranslateClusterLoadAssignment (clLoadAssignment c))
             (\<lambda>nodes. Ret (Some (base_upstream c\<lparr>uNodes := nodes\<rparr>), None)))"
proof (cases "clLbPolicy c = OtherPolicy")
  case True
  then show ?thesis
    by (simp add: TranslateCluster_def Let_def translateClusterLbPolicy_def unsupported_def)
next
  case False
  obtain u where u: "translateClusterLbPolicy c
      (zero_upstream\<lparr>uName := clName c, uId := GenID (clName c), uNodes := Some []\<rparr>) = Inr u"
      "translateClusterTimeoutSettings c u = base_upstream c"
    using policy_timeout_eq [OF False]
    by (cases "translateClusterLbPolicy c
      (zero_upstream\<lparr>uName := clName c, uId := GenID (clName c), uNodes := Some []\<rparr>)") auto
  with False show ?thesis
    by (cases "TranslateClusterLoadAssignment (clLoadAssignment c)"; cases "GetType c")
      (simp_all add: TranslateCluster_def translateClusterLoadAssignments_def unsupported_def)
qed

lemma base_upstream_simps [simp]:
  "uName (base_upstream c) = clName c" "uId (base_upstream c) = GenID (clName c)"
  "uNodes (base_upstream c) = Some []"
  "uTimeout (base_upstream c) =
     map_option (\<lambda>d. \<lparr>tConnect = float64_of_int64 (dSeconds d), tSend = 60, tRead = 60\<rparr>)
       (clConnectTimeout c)"
  "uType (base_upstream c) = (if clLbPolicy c = ROUND_ROBIN then ''roundrobin'' else ''least_conn'')"
  by (simp_all add: base_upstream_def)

lemma TranslateCluster_name:
  "TranslateCluster c = Ret (Some u, e) \<Longrightarrow> uName u = clName c \<and> uId u = GenID (clName c)"
  by (auto simp: TranslateCluster_eq go_simps split: if_splits)

subsection \<open>Connect timeouts\<close>

lemma round53_small: "n < 2 ^ 53 \<Longrightarrow> round53 n = n"
  by (simp add: round53_def excess_bits.simps [of n])

lemma float64_of_int64_small: "\<bar>sint s\<bar> < 2 ^ 53 \<Longrightarrow> float64_of_int64 s = of_int (sint s)"
  by (simp add: float64_of_int64_def round53_small nat_less_iff mult_sgn_abs)

section \<open>Properties\<close>

text \<open>C12: a load assignment becomes, in order, one node for every endpoint that has a TCP socket
  address with a numeric (or no) port, weighted by the endpoint, else the locality, else 100. The
  translation panics exactly when some endpoint has no address message.\<close>

theorem load_assignment_nodes:
  "TranslateClusterLoadAssignment (Some la) =
     (if has_addresses la then Ret (if assignment_nodes la = [] then None else Some (assignment_nodes la))
      else Panic)"
  by (simp add: TranslateClusterLoadAssignment_eq sappend_def)

text \<open>A cluster becomes an upstream with the name, the identifier, the balancing type and the
  timeouts of the cluster and the nodes of its load assignment; it is refused when its policy or its
  discovery type is not supported, and returned without nodes and with \<open>ErrRequireFurtherEDS\<close> when
  its endpoints come from EDS.\<close>

theorem cluster_translation:
  "TranslateCluster c =
     (if clLbPolicy c = OtherPolicy \<or> clDiscovery c = DiscClusterType
      then Ret (None, Some ErrFeatureNotSupportedYet)
      else
        let u = zero_upstream\<lparr>uName := clName c, uId := GenID (clName c), uNodes := Some [],
              uType := (if clLbPolicy c = ROUND_ROBIN then ''roundrobin'' else ''least_conn''),
              uTimeout := map_option (\<lambda>d. \<lparr>tConnect = float64_of_int64 (dSeconds d), tSend = 60, tRead = 60\<rparr>)
                (clConnectTimeout c)\<rparr>
        in if GetType c = EDS then Ret (Some u, Some ErrRequireFurtherEDS)
           else go_bind (TranslateClusterLoadAssignment (clLoadAssignment c))
                  (\<lambda>nodes. Ret (Some (u\<lparr>uNodes := nodes\<rparr>), None)))"
  by (simp add: TranslateCluster_eq unsupported_def base_upstream_def Let_def)

text \<open>Only whole seconds of a connect timeout reach the upstream: any nanoseconds are dropped,
  and a timeout below one second becomes 0.\<close>

theorem connect_timeout_seconds:
  assumes "TranslateCluster c = Ret (Some u, e)" "clConnectTimeout c = Some d" "\<bar>sint (dSeconds d)\<bar> < 2 ^ 53"
  shows "uTimeout u = Some \<lparr>tConnect = of_int (sint (dSeconds d)), tSend = 60, tRead = 60\<rparr>"
  using assms float64_of_int64_small [OF assms(3)]
  by (auto simp: TranslateCluster_eq go_simps split: if_splits)

lemma connect_timeout_seconds_witness:
  "\<exists>u e. TranslateCluster \<lparr>clName = ''c'', clLbPolicy = ROUND_ROBIN,
       clConnectTimeout = Some \<lparr>dSeconds = 0, dNanos = 250000000\<rparr>, clDiscovery = DiscType STATIC,
       clLoadAssignment = None\<rparr> = Ret (Some u, e)
     \<and> uTimeout u = Some \<lparr>tConnect = 0, tSend = 60, tRead = 60\<rparr>"
proof -
  let ?c = "\<lparr>clName = ''c'', clLbPolicy = ROUND_ROBIN,
       clConnectTimeout = Some \<lparr>dSeconds = 0, dNanos = 250000000\<rparr>, clDiscovery = DiscType STATIC,
       clLoadAssignment = None\<rparr>"
  have "TranslateCluster ?c = Ret (Some (base_upstream ?c\<lparr>uNodes := None\<rparr>), None)"
    by (simp add: TranslateCluster_eq unsupported_def GetType_def)
  with connect_timeout_seconds [OF this] show ?thesis by simp
qed

end
