(* ===== verification/String_Set.thy ===== *)
theory String_Set
  imports Go_Strings
begin

text \<open>
  \<open>pkg/set\<close>: the string set, a Go map from strings to the empty struct. \<open>set_of\<close> is the set
  of strings it stands for; the operations are shown to compute the set operations, whatever
  order the runtime ranges over the map in.
\<close>

section \<open>Definitions\<close>

type_synonym string_set = "(string, unit) gomap"

definition Add :: "string_set \<Rightarrow> string \<Rightarrow> string_set" where
  "Add s e = AList.update e () s"

text \<open>The two loops of \<open>Equal\<close> return false at the first element the other set lacks.\<close>

fun all_in :: "string_set \<Rightarrow> string list \<Rightarrow> bool" where
  "all_in s [] = True"
| "all_in s (e # es) = (if \<not> has_key s e then False else all_in s es)"

definition Equal :: "string_set \<Rightarrow> string_set \<Rightarrow> bool" where
  "Equal s s2 =
     (if length s \<noteq> length s2 then False
      else if \<not> all_in s (map fst s2) then False
      else if \<not> all_in s2 (map fst s) then False
      else True)"

definition Strings :: "(string, unit) iter \<Rightarrow> string_set \<Rightarrow> string list" where
  "Strings ord s = map fst (ord s)"

definition OrderedStrings ::
    "(string, unit) iter \<Rightarrow> string_set \<Rightarrow> string list" where
  "OrderedStrings ord s = sort (Strings ord s)"

definition set_of :: "string_set \<Rightarrow> string set" where
  "set_of s = fst ` set s"

section \<open>Lemmas\<close>

lemma set_of_Nil [simp]: "set_of [] = {}"
  by (simp add: set_of_def)

lemma has_key_set_of: "has_key s e \<longleftrightarrow> e \<in> set_of s"
  by (simp add: has_key_iff set_of_def)

lemma set_of_Add [simp]: "set_of (Add s e) = insert e (set_of s)"
  by (simp add: set_of_def Add_def map_of_update flip: dom_map_of_conv_image_fst)

lemma gm_ok_Add [simp, intro]: "gm_ok s \<Longrightarrow> gm_ok (Add s e)"
  by (simp add: Add_def gm_ok_update)

lemma all_in_iff: "all_in s es \<longleftrightarrow> set es \<subseteq> set_of s"
  by (induction es) (auto simp: has_key_set_of)

lemma Equal_iff:
  assumes "gm_ok s" "gm_ok s2"
  shows "Equal s s2 \<longleftrightarrow> set_of s = set_of s2"
proof -
  have len: "length t = card (set_of t)" if "gm_ok t" for t
    using distinct_card [of "map fst t"] that by (simp add: gm_ok_def set_of_def)
  have "set_of s = set_of s2 \<Longrightarrow> length s = length s2"
    using assms by (simp add: len)
  then show ?thesis
    by (auto simp: Equal_def all_in_iff set_of_def [symmetric])
qed

lemma set_Strings: "range_order ord \<Longrightarrow> set (Strings ord s) = set_of s"
  by (simp add: Strings_def set_of_def range_order_set)

lemma distinct_Strings: "range_order ord \<Longrightarrow> gm_ok s \<Longrightarrow> distinct (Strings ord s)"
  using range_order_distinct_fst by (auto simp: Strings_def gm_ok_def)

lemma OrderedStrings_eq:
  assumes "range_order ord" "gm_ok s"
  shows "OrderedStrings ord s = sorted_list_of_set (set_of s)"
proof -
  have "distinct (OrderedStrings ord s)" "set (OrderedStrings ord s) = set_of s"
    using assms by (simp_all add: OrderedStrings_def distinct_Strings set_Strings)
  moreover have "sorted (OrderedStrings ord s)" by (simp add: OrderedStrings_def)
  ultimately show ?thesis
    by (metis sorted_list_of_set.idem_if_sorted_distinct)
qed

section \<open>Properties\<close>

text \<open>\<open>Equal\<close> decides equality of the two sets, and \<open>OrderedStrings\<close> lists a set in ascending
  order whatever order its map is ranged over in.\<close>

theorem string_set_operations:
  assumes "gm_ok s" "gm_ok s2" "range_order ord"
  shows "(Equal s s2 \<longleftrightarrow> set_of s = set_of s2)
    \<and> OrderedStrings ord (Add s e) = sorted_list_of_set (insert e (set_of s))"
  using Equal_iff [OF assms(1,2)] OrderedStrings_eq [OF assms(3) gm_ok_Add [OF assms(1)]] by simp

lemma string_set_operations_witness:
  "\<not> Equal (Add (Add [] ''b'') ''a'') (Add [] ''b'')
     \<and> OrderedStrings rev (Add (Add [] ''b'') ''a'') = sorted_list_of_set (insert ''a'' (set_of (Add [] ''b'')))"
  using string_set_operations [of "Add (Add [] ''b'') ''a''" "Add [] ''b''" rev "''a''"]
    string_set_operations [of "Add [] ''b''" "Add [] ''b''" rev "''a''"]
  by simp

end
