(* ===== verification/Xds_Route.thy ===== *)
theory Xds_Route
  imports Xds_Types Id_Gen String_Set
begin

text \<open>
  \<open>pkg/adaptor/xds/v3/route.go\<close>: a route configuration becomes a list of APISIX routes, one
  per Envoy route the adaptor can express. The translation of one route (\<open>translateRoute\<close>) is
  the body of the loop of \<open>translateVirtualHost\<close>; an empty list is its \<open>continue\<close>. The code
  dereferences \<open>route.Match\<close> and panics on a string matcher with no pattern: both are \<open>Panic\<close>.
\<close>

section \<open>Definitions\<close>

subsection \<open>Parts of a route\<close>

definition getClusterName :: "envoy_route \<Rightarrow> string \<times> bool" where
  "getClusterName route =
     (case erAction route of
        RA_Route (CS_Cluster c) \<Rightarrow> (c, False)
      | RA_Route CS_Other \<Rightarrow> ('''', True)
      | RA_Other \<Rightarrow> ('''', True))"

definition getURL :: "route_match \<Rightarrow> string \<times> bool" where
  "getURL m =
     (case rmPath m of
        PS_Path p \<Rightarrow> (p, False)
      | PS_Prefix p \<Rightarrow> (p @ ''*'', False)
      | PS_Other \<Rightarrow> ('''', True))"

definition getStringMatchValue :: "string_matcher \<Rightarrow> string go" where
  "getStringMatchValue matcher =
     (case smPattern matcher of
        SM_Exact s \<Rightarrow> Ret (''^'' @ s @ ''$'')
      | SM_Contains s \<Rightarrow> Ret s
      | SM_Prefix s \<Rightarrow> Ret (''^'' @ s)
      | SM_Suffix s \<Rightarrow> Ret (s @ ''$'')
      | SM_SafeRegex s \<Rightarrow> Ret s
      | SM_Nil \<Rightarrow> Panic)"

definition query_expr :: "query_matcher \<Rightarrow> var list go" where
  "query_expr param =
     (let name = ''arg_'' @ qpName param
      in case qpSpecifier param of
           QP_PresentMatch _ \<Rightarrow> Ret [\<lparr>vVars = Some [name, ''!'', ''~~'', ''^$'']\<rparr>]
         | QP_StringMatch m \<Rightarrow>
             go_bind (getStringMatchValue m) (\<lambda>value.
               let op = (if smIgnoreCase m then ''~*'' else ''~~'')
               in Ret [\<lparr>vVars = Some [name, op, value]\<rparr>])
         | QP_Nil \<Rightarrow> Ret [\<lparr>vVars = None\<rparr>])"

definition getParametersMatchVars :: "route_match \<Rightarrow> var list go" where
  "getParametersMatchVars m = go_collect query_expr (rmQueryParameters m)"

definition header_var_name :: "string \<Rightarrow> string" where
  "header_var_name h =
     (if h = '':method'' then ''request_method''
      else if h = '':authority'' then ''http_host''
      else ''http_'' @ ReplaceAll (ToLower h) ''-'' ''_'')"

definition header_value :: "header_specifier \<Rightarrow> string option" where
  "header_value s =
     (case s of
        HM_ContainsMatch v \<Rightarrow> Some v
      | HM_ExactMatch v \<Rightarrow> Some (''^'' @ v @ ''$'')
      | HM_PrefixMatch v \<Rightarrow> Some (''^'' @ v)
      | HM_PresentMatch _ \<Rightarrow> Some ''''
      | HM_SafeRegexMatch v \<Rightarrow> Some v
      | HM_SuffixMatch v \<Rightarrow> Some (v @ ''$'')
      | HM_Other \<Rightarrow> None)"

text \<open>The loop returns at the first header matcher it cannot express (\<open>skip\<close>).\<close>

fun header_exprs :: "header_matcher list \<Rightarrow> var list \<Rightarrow> var list \<times> bool" where
  "header_exprs [] vars = (vars, False)"
| "header_exprs (h # hs) vars =
     (let name = header_var_name (hmName h)
      in case header_value (hmSpecifier h) of
           None \<Rightarrow> ([], True)
         | Some value \<Rightarrow>
             let expr = (if hmInvert h then \<lparr>vVars = Some [name, ''!'', ''~~'', value]\<rparr>
                         else \<lparr>vVars = Some [name, ''~~'', value]\<rparr>)
             in header_exprs hs (vars @ [expr]))"

definition getHeadersMatchVars :: "route_match \<Rightarrow> var list \<times> bool" where
  "getHeadersMatchVars m = header_exprs (rmHeaders m) []"

subsection \<open>Virtual hosts\<close>

definition strip_port :: "string \<Rightarrow> string" where
  "strip_port domain =
     (let pos = Index domain (CHR '':'') in if pos \<noteq> -1 then take (nat pos) domain else domain)"

fun collect_hosts :: "string list \<Rightarrow> string_set \<Rightarrow> string_set" where
  "collect_hosts [] hostSet = hostSet"
| "collect_hosts (domain # ds) hostSet =
     (if domain = ''*'' then [] else collect_hosts ds (Add hostSet (strip_port domain)))"

definition defaultRoutePriority :: i32 where
  "defaultRoutePriority = 999"

definition route_name :: "string \<Rightarrow> virtual_host \<Rightarrow> string \<Rightarrow> string" where
  "route_name name vhost prefix =
     ReplaceAll (name @ ''#'' @ vhName vhost @ ''#'' @ prefix) ''.svc.cluster.local'' ''''"

definition translateRoute :: "string \<Rightarrow> virtual_host \<Rightarrow> string list \<Rightarrow> envoy_route \<Rightarrow> route list go" where
  "translateRoute prefix vhost hosts r =
     (case erMatch r of
        None \<Rightarrow> Panic
      | Some m \<Rightarrow>
          if rmCaseSensitive m = Some False then Ret []
          else
            let (cluster, skip) = getClusterName r
            in if skip then Ret []
               else
                 let (uri, skip) = getURL m
                 in if skip then Ret []
                    else
                      let name = (if erName r = '''' then ''<anon>'' else erName r);
                          priority = (if name = ''allow_any'' then 0 else defaultRoutePriority)
                      in go_bind (getParametersMatchVars m) (\<lambda>queryVars.
                           let (vars, skip) = getHeadersMatchVars m
                           in if skip then Ret []
                              else
                                let name = route_name name vhost prefix
                                in Ret [zero_route\<lparr>
                                     rName := name, rPriority := priority, rStatus := Route_Enable,
                                     rId := GenID name, rHosts := hosts, rUris := [uri],
                                     rUpstreamId := GenID cluster, rVars := vars @ queryVars\<rparr>]))"

definition translateVirtualHost ::
    "(string, unit) iter \<Rightarrow> string \<Rightarrow> virtual_host \<Rightarrow> route list go" where
  "translateVirtualHost ord prefix vhost =
     (let prefix = (if prefix = '''' then ''<anon>'' else prefix);
          hosts = OrderedStrings ord (collect_hosts (vhDomains vhost) [])
      in go_collect (translateRoute prefix vhost hosts) (vhRoutes vhost))"

subsection \<open>Route configurations\<close>

record translate_options =
  toRouteOriginalDestination :: "(string, string) gomap option"

definition original_dst_var :: "string \<Rightarrow> var" where
  "original_dst_var origDst =
     (if HasPrefix origDst ''0.0.0.0:''
      then \<lparr>vVars = Some [''connection_original_dst'', ''~~'', drop (length ''0.0.0.0:'') origDst @ ''$'']\<rparr>
      else \<lparr>vVars = Some [''connection_original_dst'', ''=='', origDst]\<rparr>)"

definition patchRoutesWithOriginalDestination :: "route list \<Rightarrow> string \<Rightarrow> route list" where
  "patchRoutesWithOriginalDestination routes origDst =
     map (\<lambda>r. r\<lparr>rVars := rVars r @ [original_dst_var origDst]\<rparr>) routes"

text \<open>The error of the Go signature is never set: the model returns the routes alone.\<close>

definition TranslateRouteConfiguration ::
    "(string, unit) iter \<Rightarrow> route_configuration \<Rightarrow> translate_options option \<Rightarrow> route list go" where
  "TranslateRouteConfiguration ord r opts =
     go_bind (go_collect (translateVirtualHost ord (rcName r)) (rcVirtualHosts r)) (\<lambda>routes.
       case opts of
         None \<Rightarrow> Ret routes
       | Some o' \<Rightarrow>
           (case toRouteOriginalDestination o' of
              None \<Rightarrow> Ret routes
            | Some m \<Rightarrow>
                (case map_of m (rcName r) of
                   None \<Rightarrow> Ret routes
                 | Some origDst \<Rightarrow> Ret (patchRoutesWithOriginalDestination routes origDst))))"

subsection \<open>Specification\<close>

text \<open>Which routes the adaptor can express, and which make it panic.\<close>

definition expressible :: "envoy_route \<Rightarrow> bool" where
  "expressible r =
     (case erMatch r of
        None \<Rightarrow> False
      | Some m \<Rightarrow> rmCaseSensitive m \<noteq> Some False \<and> (\<exists>c. erAction r = RA_Route (CS_Cluster c))
          \<and> rmPath m \<noteq> PS_Other)"

definition headers_expressible :: "route_match \<Rightarrow> bool" where
  "headers_expressible m \<longleftrightarrow> (\<forall>h \<in> set (rmHeaders m). hmSpecifier h \<noteq> HM_Other)"

definition patternless :: "query_matcher \<Rightarrow> bool" where
  "patternless q =
     (case qpSpecifier q of QP_StringMatch m \<Rightarrow> smPattern m = SM_Nil | _ \<Rightarrow> False)"

definition panics :: "envoy_route \<Rightarrow> bool" where
  "panics r \<longleftrightarrow> erMatch r = None \<or>
     (expressible r \<and> (\<exists>q \<in> set (rmQueryParameters (the (erMatch r))). patternless q))"

section \<open>Lemmas\<close>

subsection \<open>Hosts\<close>

lemma strip_port_eq: "strip_port d = takeWhile (\<lambda>c. c \<noteq> CHR '':'') d"
proof (cases "CHR '':'' \<in> set d")
  case True
  then show ?thesis by (simp add: strip_port_def Let_def Index_none take_Index)
next
  case False
  then have tw: "takeWhile (\<lambda>c. c \<noteq> CHR '':'') d = d"
    unfolding takeWhile_eq_all_conv by auto
  from False show ?thesis unfolding tw by (simp add: strip_port_def Let_def Index_none)
qed

lemma gm_ok_collect_hosts: "gm_ok s \<Longrightarrow> gm_ok (collect_hosts ds s)"
  by (induction ds s rule: collect_hosts.induct) auto

lemma set_of_collect_hosts:
  "set_of (collect_hosts ds s) = (if ''*'' \<in> set ds then {} else set_of s \<union> strip_port ` set ds)"
  by (induction ds s rule: collect_hosts.induct) auto

lemma hosts_eq:
  "range_order ord \<Longrightarrow> OrderedStrings ord (collect_hosts ds []) =
     (if ''*'' \<in> set ds then [] else sorted_list_of_set (strip_port ` set ds))"
  by (simp add: OrderedStrings_eq gm_ok_collect_hosts set_of_collect_hosts)

subsection \<open>Expressions\<close>

lemma header_exprs_eq:
  "header_exprs hs vars =
     (if \<exists>h \<in> set hs. hmSpecifier h = HM_Other then ([], True)
      else (vars @ map (\<lambda>h. \<lparr>vVars = Some ([header_var_name (hmName h)] @
             (if hmInvert h then [''!''] else []) @ [''~~'', the (header_value (hmSpecifier h))])\<rparr>) hs,
            False))"
proof (induction hs arbitrary: vars)
  case (Cons h hs)
  have "header_value (hmSpecifier h) = None \<longleftrightarrow> hmSpecifier h = HM_Other"
    by (simp add: header_value_def split: header_specifier.splits)
  with Cons.IH show ?case by (auto simp: Let_def split: option.splits)
qed simp

lemma getHeadersMatchVars_skip: "snd (getHeadersMatchVars m) \<longleftrightarrow> \<not> headers_expressible m"
  by (auto simp: getHeadersMatchVars_def header_exprs_eq headers_expressible_def)

lemma query_expr_Panic_iff: "query_expr q = Panic \<longleftrightarrow> patternless q"
  by (auto simp: query_expr_def patternless_def getStringMatchValue_def Let_def go_simps
      split: query_specifier.splits match_pattern.splits)

lemma getParametersMatchVars_Panic_iff:
  "getParametersMatchVars m = Panic \<longleftrightarrow> (\<exists>q \<in> set (rmQueryParameters m). patternless q)"
  by (simp add: getParametersMatchVars_def go_collect_Panic_iff query_expr_Panic_iff)

subsection \<open>One route\<close>

lemma translateRoute_inexpressible:
  "erMatch r \<noteq> None \<Longrightarrow> \<not> expressible r \<Longrightarrow> translateRoute prefix vhost hosts r = Ret []"
  by (cases "erAction r")
    (auto simp: translateRoute_def expressible_def getClusterName_def getURL_def
      split: option.splits path_specifier.splits cluster_specifier.splits)

lemma translateRoute_expressible:
  assumes "erMatch r = Some m" "expressible r" "erAction r = RA_Route (CS_Cluster c)"
  shows "translateRoute prefix vhost hosts r =
    go_bind (getParametersMatchVars m) (\<lambda>queryVars.
      if \<not> headers_expressible m then Ret []
      else let name = route_name (if erName r = '''' then ''<anon>'' else erName r) vhost prefix
        in Ret [zero_route\<lparr>rName := name,
             rPriority := (if erName r = ''allow_any'' then 0 else 999),
             rStatus := Route_Enable, rId := GenID name, rHosts := hosts,
             rUris := [case rmPath m of PS_Path p \<Rightarrow> p | PS_Prefix p \<Rightarrow> p @ ''*'' | PS_Other \<Rightarrow> ''''],
             rUpstreamId := GenID c, rVars := fst (getHeadersMatchVars m) @ queryVars\<rparr>])"
proof -
  have url: "getURL m = (case rmPath m of PS_Path p \<Rightarrow> p | PS_Prefix p \<Rightarrow> p @ ''*'' | PS_Other \<Rightarrow> '''', False)"
    using assms by (auto simp: expressible_def getURL_def split: path_specifier.splits)
  obtain vs sk where hdr: "getHeadersMatchVars m = (vs, sk)"
    by (cases "getHeadersMatchVars m")
  then have sk: "sk = (\<not> headers_expressible m)"
    using getHeadersMatchVars_skip [of m] by simp
  show ?thesis
    using assms unfolding translateRoute_def
    by (simp add: expressible_def getClusterName_def Let_def defaultRoutePriority_def url hdr sk
        cong: if_cong)
qed

lemma translateRoute_Panic_iff: "translateRoute prefix vhost hosts r = Panic \<longleftrightarrow> panics r"
proof (cases "expressible r")
  case True
  then obtain m c where "erMatch r = Some m" "erAction r = RA_Route (CS_Cluster c)"
    by (auto simp: expressible_def split: option.splits)
  with True show ?thesis
    by (simp add: translateRoute_expressible go_bind_Panic_iff Let_def panics_def
        getParametersMatchVars_Panic_iff)
next
  case False
  then show ?thesis
    by (cases "erMatch r") (simp_all add: panics_def translateRoute_inexpressible, simp add: translateRoute_def)
qed

lemma translateRoute_result:
  assumes "translateRoute prefix vhost hosts r = Ret rs" "x \<in> set rs"
  shows "\<exists>c. erAction r = RA_Route (CS_Cluster c) \<and> rUpstreamId x = GenID c
    \<and> rId x = GenID (rName x) \<and> rStatus x = Route_Enable \<and> length (rUris x) = 1
    \<and> rHosts x = hosts \<and> rPriority x = (if erName r = ''allow_any'' then 0 else 999)"
proof -
  from assms have ex: "expressible r"
    by (metis list.set_cases go.inject list.distinct(1) panics_def go.distinct(1)
        translateRoute_inexpressible translateRoute_Panic_iff)
  then obtain m c where m: "erMatch r = Some m" and c: "erAction r = RA_Route (CS_Cluster c)"
    by (auto simp: expressible_def split: option.splits)
  from assms show ?thesis
    unfolding translateRoute_expressible [OF m ex c]
    by (auto simp: go_bind_Ret_iff Let_def c split: if_splits)
qed

subsection \<open>Route configurations\<close>

lemma TranslateRouteConfiguration_Panic_iff:
  "TranslateRouteConfiguration ord rc opts = Panic \<longleftrightarrow>
     (\<exists>vh \<in> set (rcVirtualHosts rc). \<exists>r \<in> set (vhRoutes vh). panics r)"
  by (auto simp: TranslateRouteConfiguration_def go_bind_Panic_iff go_collect_Panic_iff
      translateVirtualHost_def Let_def translateRoute_Panic_iff split: option.splits)

definition patch_target :: "route_configuration \<Rightarrow> translate_options option \<Rightarrow> string option" where
  "patch_target rc opts = Option.bind (Option.bind opts toRouteOriginalDestination) (\<lambda>m. map_of m (rcName rc))"

lemma TranslateRouteConfiguration_eq:
  "TranslateRouteConfiguration ord rc opts =
     go_bind (go_collect (translateVirtualHost ord (rcName rc)) (rcVirtualHosts rc)) (\<lambda>routes.
       Ret (case patch_target rc opts of
              None \<Rightarrow> routes | Some d \<Rightarrow> patchRoutesWithOriginalDestination routes d))"
  unfolding TranslateRouteConfiguration_def patch_target_def
  by (rule arg_cong [where f = "go_bind _"]) (auto split: option.splits)

lemma patched_simps:
  "x \<in> set (patchRoutesWithOriginalDestination rs d) \<Longrightarrow>
     \<exists>y \<in> set rs. x = y\<lparr>rVars := rVars y @ [original_dst_var d]\<rparr>"
  by (auto simp: patchRoutesWithOriginalDestination_def)

subsection \<open>Nothing is lost\<close>

lemma go_collect_singles:
  "(\<And>x. x \<in> set xs \<Longrightarrow> \<exists>y. f x = Ret [y]) \<Longrightarrow> \<exists>ys. go_collect f xs = Ret ys \<and> length ys = length xs"
proof (induction xs)
  case (Cons x xs)
  then obtain y ys where "f x = Ret [y]" "go_collect f xs = Ret ys" "length ys = length xs"
    by (metis list.set_intros)
  then show ?case by simp
qed simp

lemma go_collect_length:
  "(\<And>x. x \<in> set xs \<Longrightarrow> \<exists>ys. f x = Ret ys \<and> length ys = n x) \<Longrightarrow>
     \<exists>ys. go_collect f xs = Ret ys \<and> length ys = sum_list (map n xs)"
proof (induction xs)
  case (Cons x xs)
  then obtain y ys where "f x = Ret y" "length y = n x" "go_collect f xs = Ret ys"
    "length ys = sum_list (map n xs)"
    by (metis list.set_intros)
  then show ?case by simp
qed simp

lemma translateRoute_one:
  assumes "expressible r" "headers_expressible (the (erMatch r))"
    "\<forall>q \<in> set (rmQueryParameters (the (erMatch r))). \<not> patternless q"
  shows "\<exists>x. translateRoute p vh h r = Ret [x]"
proof -
  obtain m c where m: "erMatch r = Some m" "erAction r = RA_Route (CS_Cluster c)"
    using assms(1) by (auto simp: expressible_def split: option.splits)
  then obtain vs where "getParametersMatchVars m = Ret vs"
    using assms(3) getParametersMatchVars_Panic_iff [of m] by (auto simp: go_neq_Panic_iff)
  with m assms show ?thesis by (simp add: translateRoute_expressible Let_def)
qed

section \<open>Properties\<close>

text \<open>The hosts of a virtual host's routes are its domains cut at the first colon, without
  repetitions and in ascending order, or none (any host) if one of the domains is the wildcard; the
  order in which the host set is ranged over does not show.\<close>

theorem virtual_host_hosts:
  assumes "range_order ord"
  shows "OrderedStrings ord (collect_hosts ds []) =
    (if ''*'' \<in> set ds then [] else sorted_list_of_set (takeWhile (\<lambda>c. c \<noteq> CHR '':'') ` set ds))"
  using hosts_eq [OF assms] by (simp add: strip_port_eq)

lemma virtual_host_hosts_witness:
  "OrderedStrings rev (collect_hosts [''b:80'', ''b''] []) = [''b''] \<and> OrderedStrings rev (collect_hosts [''b'', ''*''] []) = []"
  using virtual_host_hosts [OF range_order_rev, of "[''b:80'', ''b'']"]
    virtual_host_hosts [OF range_order_rev, of "[''b'', ''*'']"]
  by simp

text \<open>C37: translating a route configuration panics exactly when one of its routes has no match
  message, or is translated as far as its query parameters and has a string matcher with no
  pattern. Whether it panics does not depend on the options.\<close>

theorem route_configuration_panics:
  "TranslateRouteConfiguration ord rc opts = Panic \<longleftrightarrow>
     (\<exists>vh r. vh \<in> set (rcVirtualHosts rc) \<and> r \<in> set (vhRoutes vh)
        \<and> (erMatch r = None \<or> (expressible r \<and> list_ex patternless (rmQueryParameters (the (erMatch r))))))"
  unfolding TranslateRouteConfiguration_Panic_iff panics_def list_ex_iff by blast

text \<open>What is translated. A configuration all of whose routes are expressible (a cluster, a path
  or prefix, case-sensitive, with header and query matchers that have an APISIX expression) is
  translated route by route: nothing is lost and nothing is added.\<close>

theorem route_configuration_complete:
  assumes "\<And>vh r. vh \<in> set (rcVirtualHosts rc) \<Longrightarrow> r \<in> set (vhRoutes vh) \<Longrightarrow>
      expressible r \<and> headers_expressible (the (erMatch r))
      \<and> (\<forall>q \<in> set (rmQueryParameters (the (erMatch r))). \<not> patternless q)"
  shows "\<exists>rs. TranslateRouteConfiguration ord rc opts = Ret rs
    \<and> length rs = sum_list (map (\<lambda>vh. length (vhRoutes vh)) (rcVirtualHosts rc))"
proof -
  have one: "\<exists>x. translateRoute p vh h r = Ret [x]"
    if "vh \<in> set (rcVirtualHosts rc)" "r \<in> set (vhRoutes vh)" for vh r p h
    using translateRoute_one assms that by blast
  have "\<exists>rs. translateVirtualHost ord (rcName rc) vh = Ret rs \<and> length rs = length (vhRoutes vh)"
    if "vh \<in> set (rcVirtualHosts rc)" for vh
    using one [OF that] by (simp add: translateVirtualHost_def Let_def go_collect_singles)
  then have "\<exists>rs. go_collect (translateVirtualHost ord (rcName rc)) (rcVirtualHosts rc) = Ret rs
      \<and> length rs = sum_list (map (\<lambda>vh. length (vhRoutes vh)) (rcVirtualHosts rc))"
    by (rule go_collect_length)
  then show ?thesis
    by (auto simp: TranslateRouteConfiguration_eq patchRoutesWithOriginalDestination_def split: option.splits)
qed

definition example_configuration :: route_configuration where
  "example_configuration = \<lparr>rcName = ''80'', rcVirtualHosts = [\<lparr>vhName = ''v'', vhDomains = [''*''],
     vhRoutes = [\<lparr>erName = ''r'', erMatch = Some \<lparr>rmCaseSensitive = None, rmPath = PS_Prefix ''/'',
        rmQueryParameters = [], rmHeaders = []\<rparr>, erAction = RA_Route (CS_Cluster ''c'')\<rparr>]\<rparr>]\<rparr>"

lemma route_configuration_complete_witness:
  "\<exists>rs. TranslateRouteConfiguration rev example_configuration None = Ret rs \<and> length rs = 1"
proof -
  have "\<exists>rs. TranslateRouteConfiguration rev example_configuration None = Ret rs
      \<and> length rs = sum_list (map (\<lambda>vh. length (vhRoutes vh)) (rcVirtualHosts example_configuration))"
    by (rule route_configuration_complete)
      (simp add: example_configuration_def expressible_def headers_expressible_def)
  then show ?thesis by (simp add: example_configuration_def)
qed

text \<open>C11: what a translated route is: an enabled route with one URI, which leads to the upstream of
  the cluster its Envoy route names, is identified by the checksum of its own name and has the hosts
  of its virtual host.\<close>

theorem translated_route:
  assumes "TranslateRouteConfiguration ord rc opts = Ret rs" "x \<in> set rs"
  shows "\<exists>vh \<in> set (rcVirtualHosts rc). \<exists>r \<in> set (vhRoutes vh). \<exists>c. erAction r = RA_Route (CS_Cluster c)
    \<and> rUpstreamId x = GenID c \<and> rId x = GenID (rName x) \<and> rStatus x = Route_Enable \<and> length (rUris x) = 1
    \<and> rHosts x = OrderedStrings ord (collect_hosts (vhDomains vh) [])"
proof -
  obtain ys where ys: "go_collect (translateVirtualHost ord (rcName rc)) (rcVirtualHosts rc) = Ret ys"
    using assms(1) by (auto simp: TranslateRouteConfiguration_eq go_bind_Ret_iff)
  with assms obtain y where y: "y \<in> set ys" "x = y \<or> (\<exists>vs. x = y\<lparr>rVars := vs\<rparr>)"
  proof (cases "patch_target rc opts")
    case None
    with assms ys that [of x] show ?thesis by (auto simp: TranslateRouteConfiguration_eq)
  next
    case (Some d)
    with assms ys patched_simps [of x ys d] that show ?thesis
      by (auto simp: TranslateRouteConfiguration_eq)
  qed
  from go_collect_Ret_ex [OF ys y(1)] obtain vh zs where vh: "vh \<in> set (rcVirtualHosts rc)"
    "translateVirtualHost ord (rcName rc) vh = Ret zs" "y \<in> set zs" by blast
  from go_collect_Ret_ex [OF vh(2) [unfolded translateVirtualHost_def Let_def] vh(3)]
  obtain r ws where r: "r \<in> set (vhRoutes vh)" and t: "translateRoute
      (if rcName rc = '''' then ''<anon>'' else rcName rc) vh (OrderedStrings ord (collect_hosts (vhDomains vh) [])) r = Ret ws"
    "y \<in> set ws" by blast
  from translateRoute_result [OF t] y(2) vh(1) r show ?thesis by fastforce
qed

lemma translated_route_witness:
  "\<exists>rs. TranslateRouteConfiguration rev example_configuration None = Ret rs
     \<and> (\<exists>x \<in> set rs. rUpstreamId x = GenID ''c'' \<and> rHosts x = [])"
proof -
  have "rHosts y = [] \<and> rUpstreamId y = GenID ''c''"
    if "TranslateRouteConfiguration rev example_configuration None = Ret rs" "y \<in> set rs" for rs y
    using translated_route [OF that] by (auto simp: example_configuration_def OrderedStrings_def Strings_def)
  moreover have "\<exists>y. TranslateRouteConfiguration rev example_configuration None = Ret [y]"
    by (simp add: TranslateRouteConfiguration_def example_configuration_def translateVirtualHost_def
        translateRoute_def getClusterName_def getURL_def getParametersMatchVars_def getHeadersMatchVars_def Let_def)
  ultimately show ?thesis by fastforce
qed

text \<open>A configuration with an owner is limited to the owner's address: the last expression of
  every one of its routes compares the original destination of the connection with that address
  (or with its port, where the address is the wildcard).\<close>

theorem original_destination_limit:
  assumes "map_of owners (rcName rc) = Some d"
    and "TranslateRouteConfiguration ord rc (Some \<lparr>toRouteOriginalDestination = Some owners\<rparr>) = Ret rs"
    and "x \<in> set rs"
  shows "rVars x \<noteq> [] \<and> last (rVars x) = (if HasPrefix d ''0.0.0.0:''
      then \<lparr>vVars = Some [''connection_original_dst'', ''~~'', drop 8 d @ ''$'']\<rparr>
      else \<lparr>vVars = Some [''connection_original_dst'', ''=='', d]\<rparr>)"
proof -
  have "patch_target rc (Some \<lparr>toRouteOriginalDestination = Some owners\<rparr>) = Some d"
    using assms(1) by (simp add: patch_target_def)
  with assms(2) obtain ys where "rs = patchRoutesWithOriginalDestination ys d"
    by (auto simp: TranslateRouteConfiguration_eq go_bind_Ret_iff)
  with assms(3) obtain y where "x = y\<lparr>rVars := rVars y @ [original_dst_var d]\<rparr>"
    using patched_simps by blast
  then show ?thesis by (simp add: original_dst_var_def numeral_eq_Suc)
qed

lemma original_destination_limit_witness:
  "\<exists>y. TranslateRouteConfiguration rev example_configuration
      (Some \<lparr>toRouteOriginalDestination = Some [(''80'', ''0.0.0.0:80'')]\<rparr>) = Ret [y]
     \<and> last (rVars y) = \<lparr>vVars = Some [''connection_original_dst'', ''~~'', ''80$'']\<rparr>"
proof -
  obtain y where y: "TranslateRouteConfiguration rev example_configuration
      (Some \<lparr>toRouteOriginalDestination = Some [(''80'', ''0.0.0.0:80'')]\<rparr>) = Ret [y]"
    by (simp add: TranslateRouteConfiguration_def example_configuration_def translateVirtualHost_def
        translateRoute_def getClusterName_def getURL_def getParametersMatchVars_def getHeadersMatchVars_def
        patchRoutesWithOriginalDestination_def Let_def)
  have "last (rVars y) = \<lparr>vVars = Some [''connection_original_dst'', ''~~'', ''80$'']\<rparr>"
    using original_destination_limit [OF _ y, of "''0.0.0.0:80''" y]
    by (simp add: example_configuration_def HasPrefix_def)
  with y show ?thesis by blast
qed

end
