(* ===== verification/Xds_Listener.thy ===== *)
theory Xds_Listener
  imports Xds_Types
begin

text \<open>
  \<open>pkg/adaptor/xds/v3/listener.go\<close>: the names of the dynamic route configurations and the
  static ones, collected over the filter chains of a listener. The decoder of the
  HttpConnectionManager is a third-party parameter, and so is the well-known name of its
  filter (\<open>hcm_name\<close>, \<open>wellknown.HTTPConnectionManager\<close> of go-control-plane).
\<close>

section \<open>Definitions\<close>

definition hcmv3_url :: string where
  "hcmv3_url = ''type.googleapis.com/envoy.extensions.filters.network.http_connection_manager.v3.HttpConnectionManager''"

text \<open>The getters read a nil \<open>TypedConfig\<close> as one with an empty type URL.\<close>

definition is_hcm :: "string \<Rightarrow> listener_filter \<Rightarrow> bool" where
  "is_hcm hcm_name f \<longleftrightarrow>
     fName f = hcm_name \<and> (case fTypedConfig f of None \<Rightarrow> '''' | Some c \<Rightarrow> aTypeUrl c) = hcmv3_url"

fun collect_filters ::
    "decoders \<Rightarrow> string \<Rightarrow> listener_filter list \<Rightarrow> string list \<times> route_configuration list
       \<Rightarrow> decode_error + (string list \<times> route_configuration list)" where
  "collect_filters dec hcm_name [] acc = Inr acc"
| "collect_filters dec hcm_name (f # fs) acc =
     (if is_hcm hcm_name f then
        (case fTypedConfig f of
           None \<Rightarrow> collect_filters dec hcm_name fs acc
         | Some cfg \<Rightarrow>
             (case dec_hcm dec cfg of
                Inl e \<Rightarrow> Inl e
              | Inr (HCM_Rds name) \<Rightarrow> collect_filters dec hcm_name fs (fst acc @ [name], snd acc)
              | Inr (HCM_RouteConfig rc) \<Rightarrow> collect_filters dec hcm_name fs (fst acc, snd acc @ [rc])
              | Inr HCM_Other \<Rightarrow> collect_filters dec hcm_name fs acc))
      else collect_filters dec hcm_name fs acc)"

definition CollectRouteNamesAndConfigs ::
    "decoders \<Rightarrow> string \<Rightarrow> listener \<Rightarrow> decode_error + (string list \<times> route_configuration list)" where
  "CollectRouteNamesAndConfigs dec hcm_name l =
     collect_filters dec hcm_name (concat (map fcFilters (lFilterChains l))) ([], [])"

subsection \<open>Specification\<close>

text \<open>The route specifiers of the HTTP connection managers of a listener, in order.\<close>

definition hcm_results :: "decoders \<Rightarrow> string \<Rightarrow> listener \<Rightarrow> (decode_error + hcm_route_specifier) list" where
  "hcm_results dec hcm_name l =
     map (\<lambda>f. dec_hcm dec (the (fTypedConfig f)))
       (filter (is_hcm hcm_name) (concat (map fcFilters (lFilterChains l))))"

definition rds_names :: "hcm_route_specifier list \<Rightarrow> string list" where
  "rds_names hs = List.map_filter (\<lambda>h. case h of HCM_Rds n \<Rightarrow> Some n | _ \<Rightarrow> None) hs"

definition static_configs :: "hcm_route_specifier list \<Rightarrow> route_configuration list" where
  "static_configs hs = List.map_filter (\<lambda>h. case h of HCM_RouteConfig rc \<Rightarrow> Some rc | _ \<Rightarrow> None) hs"

text \<open>The results of a list of calls up to the first that fails.\<close>

fun all_results :: "('e + 'a) list \<Rightarrow> 'e + 'a list" where
  "all_results [] = Inr []"
| "all_results (Inl e # rs) = Inl e"
| "all_results (Inr x # rs) = map_sum id (\<lambda>xs. x # xs) (all_results rs)"

section \<open>Lemmas\<close>

lemma is_hcm_config: "is_hcm hcm_name f \<Longrightarrow> \<exists>c. fTypedConfig f = Some c"
  by (auto simp: is_hcm_def hcmv3_url_def split: option.splits)

lemma collect_filters_eq:
  "collect_filters dec hcm_name fs acc =
     map_sum id (\<lambda>hs. (fst acc @ rds_names hs, snd acc @ static_configs hs))
       (all_results (map (\<lambda>f. dec_hcm dec (the (fTypedConfig f))) (filter (is_hcm hcm_name) fs)))"
proof (induction fs arbitrary: acc)
  case Nil
  then show ?case by (simp add: rds_names_def static_configs_def map_filter_simps)
next
  case (Cons f fs)
  show ?case
  proof (cases "is_hcm hcm_name f")
    case False
    with Cons show ?thesis by simp
  next
    case True
    obtain c where c: "fTypedConfig f = Some c" using is_hcm_config [OF True] by blast
    show ?thesis
    proof (cases "dec_hcm dec c")
      case (Inr h)
      with True c Cons show ?thesis
        by (cases h) (auto simp: rds_names_def static_configs_def map_filter_simps sum.map_comp comp_def
            intro!: sum.map_cong)
    qed (simp add: True c)
  qed
qed

section \<open>Properties\<close>

text \<open>The adaptor returns the names of the dynamic route configurations of a listener and its static
  ones, each in the order of the filters; when an HTTP connection manager does not decode it returns
  the error of the first such.\<close>

theorem listener_collection:
  "CollectRouteNamesAndConfigs dec hcm_name l =
     (case all_results (hcm_results dec hcm_name l) of
        Inl e \<Rightarrow> Inl e
      | Inr hs \<Rightarrow> Inr (rds_names hs, static_configs hs))"
  by (cases "all_results (hcm_results dec hcm_name l)")
    (simp_all add: CollectRouteNamesAndConfigs_def collect_filters_eq hcm_results_def)

definition example_decoders :: decoders where
  "example_decoders = \<lparr>dec_listener = (\<lambda>_. Inl (DecodeError '''')), dec_hcm = (\<lambda>_. Inr (HCM_Rds ''9080'')),
     dec_route = (\<lambda>_. Inr \<lparr>rcName = ''9080'', rcVirtualHosts = []\<rparr>),
     dec_cluster = (\<lambda>_. Inl (DecodeError '''')), dec_assignment = (\<lambda>_. Inl (DecodeError ''''))\<rparr>"

definition example_listener :: "string \<Rightarrow> listener" where
  "example_listener url = \<lparr>lAddress = None, lFilterChains =
     [\<lparr>fcFilters = [\<lparr>fName = ''hcm'', fTypedConfig = Some \<lparr>aTypeUrl = url, aValue = ''''\<rparr>\<rparr>]\<rparr>]\<rparr>"

end
