(* ===== verification/Proto_Message.thy ===== *)
theory Proto_Message
  imports Apisix_Types
begin

text \<open>
  \<open>proto.Clone\<close> and \<open>proto.Equal\<close> of the protobuf library are not part of the repository: they
  are the arguments \<open>proto_lib\<close> of every operation that calls them, and \<open>proto_message\<close> states
  what their documentation promises for one message type: equality is an equivalence that
  respects the populated fields (so the identifier), and a clone is equal to the original.
  Equality does not tell a nil slice from an empty one, and neither does a clone keep the
  difference. The standard instance at the end is a concrete pair with this behaviour.
\<close>

section \<open>Definitions\<close>

record proto_lib =
  clone_route :: "route \<Rightarrow> route"
  equal_route :: "route \<Rightarrow> route \<Rightarrow> bool"
  clone_upstream :: "upstream \<Rightarrow> upstream"
  equal_upstream :: "upstream \<Rightarrow> upstream \<Rightarrow> bool"

text \<open>A Go map built from a slice of resources, keyed by identifier: the last one wins.\<close>

definition index_by :: "('m \<Rightarrow> string) \<Rightarrow> 'm list \<Rightarrow> (string, 'm) gomap" where
  "index_by ident rs = foldl (\<lambda>m r. AList.update (ident r) r m) [] rs"

definition norm_slice :: "'a slice \<Rightarrow> 'a slice" where
  "norm_slice s = sappend None (elems s)"

definition std_clone_route :: "route \<Rightarrow> route" where
  "std_clone_route r = r\<lparr>rVars := map (\<lambda>v. v\<lparr>vVars := norm_slice (vVars v)\<rparr>) (rVars r)\<rparr>"

definition std_clone_upstream :: "upstream \<Rightarrow> upstream" where
  "std_clone_upstream u = u\<lparr>uNodes := norm_slice (uNodes u)\<rparr>"

definition std_lib :: proto_lib where
  "std_lib = \<lparr>
     clone_route = std_clone_route,
     equal_route = (\<lambda>a b. std_clone_route a = std_clone_route b),
     clone_upstream = std_clone_upstream,
     equal_upstream = (\<lambda>a b. std_clone_upstream a = std_clone_upstream b)\<rparr>"

section \<open>Indexing a slice\<close>

lemma index_by_Nil [simp]: "index_by ident [] = []"
  by (simp add: index_by_def)

lemma index_by_snoc [simp]: "index_by ident (rs @ [r]) = AList.update (ident r) r (index_by ident rs)"
  by (simp add: index_by_def)

lemma gm_ok_index_by [simp, intro]: "gm_ok (index_by ident rs)"
  by (induction rs rule: rev_induct) auto

lemma has_key_index_by [gomap_simps]: "has_key (index_by ident rs) k \<longleftrightarrow> k \<in> ident ` set rs"
  by (induction rs rule: rev_induct) (auto simp: has_key_def map_of_update)

lemma index_by_Some: "map_of (index_by ident rs) k = Some r \<Longrightarrow> r \<in> set rs \<and> ident r = k"
  by (induction rs rule: rev_induct) (auto simp: map_of_update split: if_splits)

lemma index_by_filter:
  "map_of (index_by ident (filter (\<lambda>r. P (ident r)) rs)) k =
     (if P k then map_of (index_by ident rs) k else None)"
  by (induction rs rule: rev_induct) (auto simp: map_of_update)

lemma index_by_const:
  "(\<And>r. r \<in> set rs \<Longrightarrow> ident r = k \<Longrightarrow> r = v) \<Longrightarrow>
     map_of (index_by ident rs) k = (if k \<in> ident ` set rs then Some v else None)"
  by (induction rs rule: rev_induct) (auto simp: map_of_update)

lemma index_by_distinct:
  "distinct (map ident rs) \<Longrightarrow> r \<in> set rs \<Longrightarrow> map_of (index_by ident rs) (ident r) = Some r"
  by (subst index_by_const [where v = r]) (auto simp: distinct_map inj_on_def)

section \<open>The laws of one message type\<close>

locale proto_message =
  fixes clone :: "'m \<Rightarrow> 'm"
    and equal :: "'m \<Rightarrow> 'm \<Rightarrow> bool"
    and ident :: "'m \<Rightarrow> string"
  assumes equal_refl [intro]: "equal m m"
    and equal_sym: "equal a b \<Longrightarrow> equal b a"
    and equal_trans: "equal a b \<Longrightarrow> equal b c \<Longrightarrow> equal a c"
    and clone_equal: "equal (clone m) m"
    and equal_ident: "equal a b \<Longrightarrow> ident a = ident b"
begin

lemma ident_clone [simp]: "ident (clone m) = ident m"
  using clone_equal equal_ident by blast

text \<open>
  The abstract store: a partial map from identifiers to messages, with the effect of an
  insert (of a clone) and of a delete. Two stores agree when they hold equal messages
  under the same identifiers.
\<close>

definition put :: "(string \<rightharpoonup> 'm) \<Rightarrow> 'm \<Rightarrow> (string \<rightharpoonup> 'm)" where
  "put m r = m(ident r \<mapsto> clone r)"

definition del :: "(string \<rightharpoonup> 'm) \<Rightarrow> 'm \<Rightarrow> (string \<rightharpoonup> 'm)" where
  "del m r = m(ident r := None)"

definition agrees :: "(string \<rightharpoonup> 'm) \<Rightarrow> 'm list \<Rightarrow> bool" where
  "agrees m rs \<longleftrightarrow> (\<forall>k. rel_option equal (m k) (map_of (index_by ident rs) k))"

lemma put_all: "foldl put m rs k =
    (case map_of (index_by ident rs) k of None \<Rightarrow> m k | Some r \<Rightarrow> Some (clone r))"
  by (induction rs rule: rev_induct) (auto simp: put_def map_of_update)

lemma del_all: "foldl del m rs k = (if k \<in> ident ` set rs then None else m k)"
  by (induction rs arbitrary: m) (auto simp: del_def)

lemma agrees_Nil [simp]: "agrees Map.empty []"
  by (simp add: agrees_def)

end

definition proto_ok :: "proto_lib \<Rightarrow> bool" where
  "proto_ok pl \<longleftrightarrow> proto_message (clone_route pl) (equal_route pl) rId
     \<and> proto_message (clone_upstream pl) (equal_upstream pl) uId"

lemma proto_okD:
  assumes "proto_ok pl"
  shows "proto_message (clone_route pl) (equal_route pl) rId"
    and "proto_message (clone_upstream pl) (equal_upstream pl) uId"
  using assms by (simp_all add: proto_ok_def)

section \<open>The standard instance\<close>

lemma norm_slice_idem [simp]: "norm_slice (norm_slice s) = norm_slice s"
  by (cases s) (auto simp: norm_slice_def sappend_def)

lemma elems_norm_slice [simp]: "elems (norm_slice s) = elems s"
  by (simp add: norm_slice_def)

interpretation std_route: proto_message std_clone_route
    "\<lambda>a b. std_clone_route a = std_clone_route b" rId
proof
  fix a b m :: route
  show "std_clone_route (std_clone_route m) = std_clone_route m"
    by (simp add: std_clone_route_def)
  assume "std_clone_route a = std_clone_route b"
  then have "rId (std_clone_route a) = rId (std_clone_route b)" by simp
  then show "rId a = rId b" by (simp add: std_clone_route_def)
qed simp_all

interpretation std_upstream: proto_message std_clone_upstream
    "\<lambda>a b. std_clone_upstream a = std_clone_upstream b" uId
proof
  fix a b m :: upstream
  show "std_clone_upstream (std_clone_upstream m) = std_clone_upstream m"
    by (simp add: std_clone_upstream_def)
  assume "std_clone_upstream a = std_clone_upstream b"
  then have "uId (std_clone_upstream a) = uId (std_clone_upstream b)" by simp
  then show "uId a = uId b" by (simp add: std_clone_upstream_def)
qed simp_all

lemma proto_ok_std [simp, intro]: "proto_ok std_lib"
  unfolding proto_ok_def std_lib_def proto_lib.simps
  by (intro conjI std_route.proto_message_axioms std_upstream.proto_message_axioms)

end
