(* ===== verification/Object_Cache.thy ===== *)
theory Object_Cache
  imports Proto_Message
begin

text \<open>
  \<open>pkg/cache\<close>: the typed in-memory store of routes and of upstreams. Every operation holds the
  store's lock for its whole body, so each is one step. The locale \<open>object_store\<close> is the Go
  interface (\<open>Get\<close>, \<open>List\<close>, \<open>Insert\<close>, \<open>Delete\<close>) with the laws its clients use; both stores
  of the code are shown to satisfy it.
\<close>

section \<open>Definitions\<close>

datatype cache_error = ErrObjectNotFound

subsection \<open>The route store\<close>

type_synonym route_store = "(string, route) gomap"

definition newRoute :: route_store where
  "newRoute = []"

definition route_Get :: "proto_lib \<Rightarrow> route_store \<Rightarrow> string \<Rightarrow> cache_error + route" where
  "route_Get pl s i =
     (case map_of s i of None \<Rightarrow> Inl ErrObjectNotFound | Some obj \<Rightarrow> Inr (clone_route pl obj))"

definition route_List ::
    "proto_lib \<Rightarrow> (string, route) iter \<Rightarrow> route_store \<Rightarrow> route list" where
  "route_List pl ord s = map (\<lambda>(_, obj). clone_route pl obj) (ord s)"

definition route_Insert :: "proto_lib \<Rightarrow> route_store \<Rightarrow> route \<Rightarrow> route_store" where
  "route_Insert pl s obj = (let obj = clone_route pl obj in AList.update (rId obj) obj s)"

definition route_Delete :: "route_store \<Rightarrow> string \<Rightarrow> cache_error + route_store" where
  "route_Delete s i =
     (if \<not> has_key s i then Inl ErrObjectNotFound else Inr (AList.delete i s))"

subsection \<open>The upstream store\<close>

type_synonym upstream_store = "(string, upstream) gomap"

definition newUpstream :: upstream_store where
  "newUpstream = []"

text \<open>A clone loses the empty slice, so reads put it back where the nodes are nil.\<close>

definition fix_nodes :: "upstream \<Rightarrow> upstream" where
  "fix_nodes u = (if uNodes u = None then u\<lparr>uNodes := Some []\<rparr> else u)"

definition upstream_Get :: "proto_lib \<Rightarrow> upstream_store \<Rightarrow> string \<Rightarrow> cache_error + upstream" where
  "upstream_Get pl s i =
     (case map_of s i of
        None \<Rightarrow> Inl ErrObjectNotFound
      | Some obj \<Rightarrow> Inr (fix_nodes (clone_upstream pl obj)))"

definition upstream_List ::
    "proto_lib \<Rightarrow> (string, upstream) iter \<Rightarrow> upstream_store
       \<Rightarrow> upstream list" where
  "upstream_List pl ord s = map (\<lambda>(_, obj). fix_nodes (clone_upstream pl obj)) (ord s)"

definition upstream_Insert :: "proto_lib \<Rightarrow> upstream_store \<Rightarrow> upstream \<Rightarrow> upstream_store" where
  "upstream_Insert pl s obj = (let obj = clone_upstream pl obj in AList.update (uId obj) obj s)"

definition upstream_Delete :: "upstream_store \<Rightarrow> string \<Rightarrow> cache_error + upstream_store" where
  "upstream_Delete s i =
     (if \<not> has_key s i then Inl ErrObjectNotFound else Inr (AList.delete i s))"

subsection \<open>The cache\<close>

record cache =
  cRoute :: route_store
  cUpstream :: upstream_store

definition NewInMemoryCache :: cache where
  "NewInMemoryCache = \<lparr>cRoute = newRoute, cUpstream = newUpstream\<rparr>"

definition cache_ok :: "cache \<Rightarrow> bool" where
  "cache_ok c \<longleftrightarrow> gm_ok (cRoute c) \<and> gm_ok (cUpstream c)
     \<and> (\<forall>(k, r) \<in> set (cRoute c). rId r = k) \<and> (\<forall>(k, u) \<in> set (cUpstream c). uId u = k)"

section \<open>The store interface\<close>

locale object_store =
  fixes get :: "'s \<Rightarrow> string \<Rightarrow> cache_error + 'm"
    and list_all_objs :: "(string, 'm) iter \<Rightarrow> 's \<Rightarrow> 'm list"
    and ins :: "'s \<Rightarrow> 'm \<Rightarrow> 's"
    and del :: "'s \<Rightarrow> string \<Rightarrow> cache_error + 's"
    and new :: 's
    and view :: "'s \<Rightarrow> string \<Rightarrow> 'm option"
    and invar :: "'s \<Rightarrow> bool"
    and ident :: "'m \<Rightarrow> string"
    and stored :: "'m \<Rightarrow> 'm"
    and read :: "'m \<Rightarrow> 'm"
  assumes view_new: "view new k = None"
    and invar_new: "invar new"
    and get_view: "get s k = (case view s k of None \<Rightarrow> Inl ErrObjectNotFound | Some m \<Rightarrow> Inr (read m))"
    and list_view: "invar s \<Longrightarrow> range_order ord \<Longrightarrow> set (list_all_objs ord s) = read ` ran (view s)"
    and list_length: "invar s \<Longrightarrow> range_order ord \<Longrightarrow> length (list_all_objs ord s) = card (dom (view s))"
    and view_ins: "view (ins s m) = (view s)(ident (stored m) \<mapsto> stored m)"
    and invar_ins: "invar s \<Longrightarrow> invar (ins s m)"
    and del_error: "del s k = Inl e \<longleftrightarrow> view s k = None"
    and view_del: "del s k = Inr s' \<Longrightarrow> view s' = (view s)(k := None)"
    and invar_del: "invar s \<Longrightarrow> del s k = Inr s' \<Longrightarrow> invar s'"
begin

lemma get_new: "get new k = Inl ErrObjectNotFound"
  by (simp add: get_view view_new)

lemma get_after_ins:
  "get (ins s m) k = (if k = ident (stored m) then Inr (read (stored m)) else get s k)"
  by (simp add: get_view view_ins)

lemma get_after_del:
  "del s k = Inr s' \<Longrightarrow> get s' j = (if j = k then Inl ErrObjectNotFound else get s j)"
  by (simp add: get_view view_del)

lemma del_fails_iff: "del s k = Inl ErrObjectNotFound \<longleftrightarrow> get s k = Inl ErrObjectNotFound"
  by (simp add: del_error get_view split: option.splits)

lemma del_succeeds: "get s k = Inr m \<Longrightarrow> \<exists>s'. del s k = Inr s'"
  by (cases "del s k") (auto simp: del_error get_view)

lemma list_get:
  assumes "invar s" "range_order ord"
  shows "m \<in> set (list_all_objs ord s) \<longleftrightarrow> (\<exists>k. get s k = Inr m)"
  by (auto simp: list_view [OF assms] get_view ran_def split: option.splits)

text \<open>The view after an insert or a delete, whether or not the object was there.\<close>

lemma view_del_total:
  "view (case del s k of Inl e \<Rightarrow> s | Inr s' \<Rightarrow> s') = (view s)(k := None)"
proof (cases "del s k")
  case (Inl e)
  then have "view s k = None" by (simp add: del_error)
  with Inl show ?thesis by (simp add: fun_upd_idem)
qed (simp add: view_del)

lemma invar_del_total: "invar s \<Longrightarrow> invar (case del s k of Inl e \<Rightarrow> s | Inr s' \<Rightarrow> s')"
  by (cases "del s k") (auto intro: invar_del)

end

section \<open>Both stores satisfy the interface\<close>

lemma card_dom_gomap: "gm_ok m \<Longrightarrow> card (dom (map_of m)) = length m"
  using distinct_card [of "map fst m"] by (simp add: gm_ok_def dom_map_of_conv_image_fst)

interpretation routes: object_store "route_Get pl" "route_List pl" "route_Insert pl" route_Delete
    newRoute map_of gm_ok rId "clone_route pl" "clone_route pl" for pl
proof
  fix s s' :: route_store and ord :: "(string, route) iter" and k e and m :: route
  show "map_of newRoute k = None" "gm_ok newRoute" by (simp_all add: newRoute_def)
  show "route_Get pl s k =
      (case map_of s k of None \<Rightarrow> Inl ErrObjectNotFound | Some m \<Rightarrow> Inr (clone_route pl m))"
    by (simp add: route_Get_def)
  show "map_of (route_Insert pl s m) = (map_of s)(rId (clone_route pl m) \<mapsto> clone_route pl m)"
    by (simp add: route_Insert_def Let_def map_of_update)
  show "gm_ok s \<Longrightarrow> gm_ok (route_Insert pl s m)" by (simp add: route_Insert_def Let_def)
  show "route_Delete s k = Inl e \<longleftrightarrow> map_of s k = None"
    by (cases e) (simp add: route_Delete_def has_key_def)
  show "route_Delete s k = Inr s' \<Longrightarrow> map_of s' = (map_of s)(k := None)"
    by (auto simp: route_Delete_def map_of_delete split: if_splits)
  show "gm_ok s \<Longrightarrow> route_Delete s k = Inr s' \<Longrightarrow> gm_ok s'"
    by (auto simp: route_Delete_def split: if_splits)
  assume ok: "gm_ok s" "range_order ord"
  show "set (route_List pl ord s) = clone_route pl ` ran (map_of s)"
    using ok by (simp add: route_List_def split_beta range_order_set ran_map_of image_image)
  show "length (route_List pl ord s) = card (dom (map_of s))"
    using ok by (simp add: route_List_def range_order_length card_dom_gomap)
qed

interpretation upstreams: object_store "upstream_Get pl" "upstream_List pl" "upstream_Insert pl"
    upstream_Delete newUpstream map_of gm_ok uId "clone_upstream pl"
    "\<lambda>u. fix_nodes (clone_upstream pl u)" for pl
proof
  fix s s' :: upstream_store and ord :: "(string, upstream) iter" and k e and m :: upstream
  show "map_of newUpstream k = None" "gm_ok newUpstream" by (simp_all add: newUpstream_def)
  show "upstream_Get pl s k =
      (case map_of s k of None \<Rightarrow> Inl ErrObjectNotFound
       | Some m \<Rightarrow> Inr (fix_nodes (clone_upstream pl m)))"
    by (simp add: upstream_Get_def)
  show "map_of (upstream_Insert pl s m) = (map_of s)(uId (clone_upstream pl m) \<mapsto> clone_upstream pl m)"
    by (simp add: upstream_Insert_def Let_def map_of_update)
  show "gm_ok s \<Longrightarrow> gm_ok (upstream_Insert pl s m)" by (simp add: upstream_Insert_def Let_def)
  show "upstream_Delete s k = Inl e \<longleftrightarrow> map_of s k = None"
    by (cases e) (simp add: upstream_Delete_def has_key_def)
  show "upstream_Delete s k = Inr s' \<Longrightarrow> map_of s' = (map_of s)(k := None)"
    by (auto simp: upstream_Delete_def map_of_delete split: if_splits)
  show "gm_ok s \<Longrightarrow> upstream_Delete s k = Inr s' \<Longrightarrow> gm_ok s'"
    by (auto simp: upstream_Delete_def split: if_splits)
  assume ok: "gm_ok s" "range_order ord"
  show "set (upstream_List pl ord s) = (\<lambda>u. fix_nodes (clone_upstream pl u)) ` ran (map_of s)"
    using ok by (simp add: upstream_List_def split_beta range_order_set ran_map_of image_image)
  show "length (upstream_List pl ord s) = card (dom (map_of s))"
    using ok by (simp add: upstream_List_def range_order_length card_dom_gomap)
qed

section \<open>Lemmas\<close>

lemma fix_nodes_simps [simp]:
  "\<exists>ns. uNodes (fix_nodes u) = Some ns" "uId (fix_nodes u) = uId u" "uName (fix_nodes u) = uName u"
  "elems (uNodes (fix_nodes u)) = elems (uNodes u)"
  by (auto simp: fix_nodes_def)

lemma cache_ok_new: "cache_ok NewInMemoryCache"
  by (simp add: cache_ok_def NewInMemoryCache_def newRoute_def newUpstream_def)

text \<open>Nodes read from the cache are never nil, so they are never encoded as null.\<close>

lemma upstream_Get_nodes: "upstream_Get pl s i = Inr u \<Longrightarrow> uNodes u \<noteq> None"
  by (auto simp: upstream_Get_def split: option.splits)

lemma upstream_List_nodes: "u \<in> set (upstream_List pl ord s) \<Longrightarrow> uNodes u \<noteq> None"
  by (auto simp: upstream_List_def)

section \<open>Properties\<close>

text \<open>C35: the contract of the route store: a get after an insert returns the inserted route (as the
  library clones it), a get after a delete fails, other identifiers are not affected, deleting what
  is not there is an error, and the listing has exactly the routes that can be got.\<close>

theorem route_store_contract:
  assumes "proto_ok pl" "gm_ok s" "range_order ord"
  shows "route_Get pl (route_Insert pl s r) k = (if k = rId r then Inr (clone_route pl (clone_route pl r)) else route_Get pl s k)
    \<and> (case route_Delete s k of
          Inl e \<Rightarrow> route_Get pl s k = Inl ErrObjectNotFound
        | Inr s' \<Rightarrow> route_Get pl s' j = (if j = k then Inl ErrObjectNotFound else route_Get pl s j))
    \<and> (x \<in> set (route_List pl ord s) \<longleftrightarrow> (\<exists>i. route_Get pl s i = Inr x))"
proof (intro conjI)
  show "route_Get pl (route_Insert pl s r) k = (if k = rId r then Inr (clone_route pl (clone_route pl r)) else route_Get pl s k)"
    using routes.get_after_ins [of pl s r k] proto_message.ident_clone [OF proto_okD(1) [OF assms(1)]] by simp
  show "case route_Delete s k of
          Inl e \<Rightarrow> route_Get pl s k = Inl ErrObjectNotFound
        | Inr s' \<Rightarrow> route_Get pl s' j = (if j = k then Inl ErrObjectNotFound else route_Get pl s j)"
    using routes.get_after_del [of s k _ pl j] routes.del_error [of s k] routes.get_view [of pl s k]
    by (auto split: sum.splits)
  show "x \<in> set (route_List pl ord s) \<longleftrightarrow> (\<exists>i. route_Get pl s i = Inr x)"
    using routes.list_get [OF assms(2,3)] by blast
qed

lemma route_store_contract_witness:
  "zero_route \<in> set (route_List std_lib rev (route_Insert std_lib [] zero_route))"
proof -
  have z: "clone_route std_lib zero_route = zero_route" "rId zero_route = ''''"
    by (simp_all add: std_lib_def std_clone_route_def zero_route_def)
  have "route_Get std_lib (route_Insert std_lib [] zero_route) '''' = Inr zero_route"
    using conjunct1 [OF route_store_contract [OF proto_ok_std gm_ok_Nil range_order_rev,
      where r = zero_route and k = "''''"]] by (simp add: z)
  moreover have "gm_ok (route_Insert std_lib [] zero_route)" by (intro routes.invar_ins gm_ok_Nil)
  ultimately show ?thesis
    using conjunct2 [OF conjunct2 [OF route_store_contract [OF proto_ok_std _ range_order_rev,
      where x = zero_route]]] by blast
qed

text \<open>The same contract for upstreams; what is read back also never has nil nodes, so that the
  encoded upstream has an empty array and not a null where there are no nodes.\<close>

theorem upstream_store_contract:
  assumes "proto_ok pl" "gm_ok s" "range_order ord"
  shows "upstream_Get pl (upstream_Insert pl s u) k = (if k = uId u then Inr (fix_nodes (clone_upstream pl (clone_upstream pl u))) else upstream_Get pl s k)
    \<and> (case upstream_Delete s k of
          Inl e \<Rightarrow> upstream_Get pl s k = Inl ErrObjectNotFound
        | Inr s' \<Rightarrow> upstream_Get pl s' j = (if j = k then Inl ErrObjectNotFound else upstream_Get pl s j))
    \<and> (x \<in> set (upstream_List pl ord s) \<longleftrightarrow> (\<exists>i. upstream_Get pl s i = Inr x) \<and> uNodes x \<noteq> None)"
proof (intro conjI)
  show "upstream_Get pl (upstream_Insert pl s u) k = (if k = uId u then Inr (fix_nodes (clone_upstream pl (clone_upstream pl u))) else upstream_Get pl s k)"
    using upstreams.get_after_ins [of pl s u k] proto_message.ident_clone [OF proto_okD(2) [OF assms(1)]] by simp
  show "case upstream_Delete s k of
          Inl e \<Rightarrow> upstream_Get pl s k = Inl ErrObjectNotFound
        | Inr s' \<Rightarrow> upstream_Get pl s' j = (if j = k then Inl ErrObjectNotFound else upstream_Get pl s j)"
    using upstreams.get_after_del [of s k _ pl j] upstreams.del_error [of s k] upstreams.get_view [of pl s k]
    by (auto split: sum.splits)
  show "x \<in> set (upstream_List pl ord s) \<longleftrightarrow> (\<exists>i. upstream_Get pl s i = Inr x) \<and> uNodes x \<noteq> None"
    using upstreams.list_get [OF assms(2,3)] upstream_Get_nodes by blast
qed

lemma upstream_store_contract_witness:
  "zero_upstream\<lparr>uNodes := Some []\<rparr> \<in> set (upstream_List std_lib rev (upstream_Insert std_lib [] zero_upstream))"
proof -
  have z: "fix_nodes (clone_upstream std_lib (clone_upstream std_lib zero_upstream)) = zero_upstream\<lparr>uNodes := Some []\<rparr>"
    "uId zero_upstream = ''''"
    by (simp_all add: std_lib_def std_clone_upstream_def zero_upstream_def norm_slice_def sappend_def fix_nodes_def)
  have "upstream_Get std_lib (upstream_Insert std_lib [] zero_upstream) '''' = Inr (zero_upstream\<lparr>uNodes := Some []\<rparr>)"
    using conjunct1 [OF upstream_store_contract [OF proto_ok_std gm_ok_Nil range_order_rev,
      where u = zero_upstream and k = "''''"]] by (simp add: z)
  moreover have "gm_ok (upstream_Insert std_lib [] zero_upstream)" by (intro upstreams.invar_ins gm_ok_Nil)
  moreover have "uNodes (zero_upstream\<lparr>uNodes := Some []\<rparr>) \<noteq> None" by simp
  ultimately show ?thesis
    using conjunct2 [OF conjunct2 [OF upstream_store_contract [OF proto_ok_std _ range_order_rev,
      where x = "zero_upstream\<lparr>uNodes := Some []\<rparr>"]]] by blast
qed

end
