(* ===== verification/Resource_Diff.thy ===== *)
theory Resource_Diff
  imports Proto_Message
begin

text \<open>
  \<open>pkg/apisix\<close> and \<open>pkg/provisioner/util\<close>: the comparison of two slices of resources, the
  manifest (a collection of routes and upstreams), its difference from another one, and the
  events a manifest becomes. The central lemma (\<open>compare_by_agrees\<close>) says that a store which
  agrees with the old slice agrees with the new one after the additions, the deletions and
  the updates, in the order the events have them; it does not need distinct identifiers.
\<close>

section \<open>Definitions\<close>

subsection \<open>Comparing two slices\<close>

text \<open>\<open>CompareRoutes\<close> and \<open>CompareUpstreams\<close> are the same text over two types.\<close>

definition compare_by ::
    "('m \<Rightarrow> 'm \<Rightarrow> bool) \<Rightarrow> ('m \<Rightarrow> string) \<Rightarrow> 'm slice \<Rightarrow> 'm slice
       \<Rightarrow> 'm slice \<times> 'm slice \<times> 'm slice" where
  "compare_by equal ident r1 r2 =
     (case r1 of
        None \<Rightarrow> (r2, None, None)
      | Some xs \<Rightarrow>
          (case r2 of
             None \<Rightarrow> (None, r1, None)
           | Some ys \<Rightarrow>
               let r1Map = index_by ident xs;
                   r2Map = index_by ident ys;
                   added = sappend None (filter (\<lambda>r. \<not> has_key r1Map (ident r)) ys);
                   deleted = sappend None (filter (\<lambda>ro. \<not> has_key r2Map (ident ro)) xs);
                   updated = sappend None (concat (map (\<lambda>ro.
                     (case map_of r2Map (ident ro) of
                        None \<Rightarrow> []
                      | Some rn \<Rightarrow> if \<not> equal ro rn then [rn] else [])) xs))
               in (added, deleted, updated)))"

definition CompareRoutes ::
    "proto_lib \<Rightarrow> route slice \<Rightarrow> route slice \<Rightarrow> route slice \<times> route slice \<times> route slice" where
  "CompareRoutes pl r1 r2 = compare_by (equal_route pl) rId r1 r2"

definition CompareUpstreams ::
    "proto_lib \<Rightarrow> upstream slice \<Rightarrow> upstream slice \<Rightarrow> upstream slice \<times> upstream slice \<times> upstream slice" where
  "CompareUpstreams pl u1 u2 = compare_by (equal_upstream pl) uId u1 u2"

subsection \<open>Manifests\<close>

record manifest =
  mRoutes :: "route slice"
  mUpstreams :: "upstream slice"

definition zero_manifest :: manifest where
  "zero_manifest = \<lparr>mRoutes = None, mUpstreams = None\<rparr>"

definition DiffFrom :: "proto_lib \<Rightarrow> manifest \<Rightarrow> manifest \<Rightarrow> manifest \<times> manifest \<times> manifest" where
  "DiffFrom pl m m2 =
     (let (a, d, u) = CompareRoutes pl (mRoutes m) (mRoutes m2);
          (au, du, uu) = CompareUpstreams pl (mUpstreams m) (mUpstreams m2);
          added = \<lparr>mRoutes = sappend None (elems a), mUpstreams = sappend None (elems au)\<rparr>;
          updated = \<lparr>mRoutes = sappend None (elems u), mUpstreams = sappend None (elems uu)\<rparr>;
          deleted = \<lparr>mRoutes = sappend None (elems d), mUpstreams = sappend None (elems du)\<rparr>
      in (added, deleted, updated))"

definition manifest_Size :: "manifest \<Rightarrow> nat" where
  "manifest_Size m = length (elems (mUpstreams m)) + length (elems (mRoutes m))"

definition route_event :: "event_type \<Rightarrow> route \<Rightarrow> event" where
  "route_event t r =
     (if t = EventDelete then mk_event EventDelete ONil (ORoute r) else mk_event t (ORoute r) ONil)"

definition upstream_event :: "event_type \<Rightarrow> upstream \<Rightarrow> event" where
  "upstream_event t u =
     (if t = EventDelete then mk_event EventDelete ONil (OUpstream u) else mk_event t (OUpstream u) ONil)"

definition manifest_Events :: "manifest \<Rightarrow> event_type \<Rightarrow> event list" where
  "manifest_Events m evType =
     map (route_event evType) (elems (mRoutes m)) @ map (upstream_event evType) (elems (mUpstreams m))"

text \<open>
  The event generation both provisioners end with: a nil manifest pointer (\<open>None\<close>) is no old
  state or no new state, and the three collections become add, delete and update events.
\<close>

definition opt_size :: "manifest option \<Rightarrow> nat" where
  "opt_size m = (case m of None \<Rightarrow> 0 | Some x \<Rightarrow> manifest_Size x)"

definition opt_events :: "manifest option \<Rightarrow> event_type \<Rightarrow> event list" where
  "opt_events m t = (case m of None \<Rightarrow> [] | Some x \<Rightarrow> manifest_Events x t)"

definition generateEvents :: "proto_lib \<Rightarrow> manifest option \<Rightarrow> manifest option \<Rightarrow> event list" where
  "generateEvents pl m o' =
     (let (added, deleted, updated) =
        (case o' of
           None \<Rightarrow> (m, None, None)
         | Some old \<Rightarrow>
             (case m of
                None \<Rightarrow> (None, Some old, None)
              | Some new \<Rightarrow> (case DiffFrom pl old new of (a, d, u) \<Rightarrow> (Some a, Some d, Some u))));
        count = opt_size added + opt_size deleted + opt_size updated
      in if count = 0 then []
         else opt_events added EventAdd @ opt_events deleted EventDelete @ opt_events updated EventUpdate)"

section \<open>Lemmas\<close>

subsection \<open>The three parts of a comparison\<close>

text \<open>With nil read as empty, every case of the comparison is the general one.\<close>

definition compare_updated ::
    "('m \<Rightarrow> 'm \<Rightarrow> bool) \<Rightarrow> ('m \<Rightarrow> string) \<Rightarrow> 'm list \<Rightarrow> 'm list \<Rightarrow> 'm list" where
  "compare_updated equal ident xs ys = concat (map (\<lambda>ro.
     (case map_of (index_by ident ys) (ident ro) of
        None \<Rightarrow> [] | Some rn \<Rightarrow> if \<not> equal ro rn then [rn] else [])) xs)"

lemma compare_by_parts:
  assumes "compare_by equal ident r1 r2 = (a, d, u)"
  shows "elems a = filter (\<lambda>r. ident r \<notin> ident ` set (elems r1)) (elems r2)"
    and "elems d = filter (\<lambda>r. ident r \<notin> ident ` set (elems r2)) (elems r1)"
    and "elems u = compare_updated equal ident (elems r1) (elems r2)"
proof -
  have upd: "compare_updated equal ident xs [] = []" for xs :: "'a list"
    by (induction xs) (auto simp: compare_updated_def)
  show "elems a = filter (\<lambda>r. ident r \<notin> ident ` set (elems r1)) (elems r2)"
    and "elems d = filter (\<lambda>r. ident r \<notin> ident ` set (elems r2)) (elems r1)"
    and "elems u = compare_updated equal ident (elems r1) (elems r2)"
    using assms upd
    by (auto simp: compare_by_def Let_def gomap_simps compare_updated_def split: option.splits)
qed

lemma compare_updated_mem:
  "rn \<in> set (compare_updated equal ident xs ys) \<longleftrightarrow>
     (\<exists>ro \<in> set xs. map_of (index_by ident ys) (ident ro) = Some rn \<and> \<not> equal ro rn)"
  by (induction xs) (auto simp: compare_updated_def split: option.splits if_splits)

subsection \<open>A store that agrees with the old slice agrees with the new one afterwards\<close>

context proto_message
begin

lemma updated_index:
  "map_of (index_by ident (compare_updated equal ident xs ys)) k =
     (case map_of (index_by ident ys) k of
        None \<Rightarrow> None
      | Some rn \<Rightarrow> if \<exists>ro \<in> set xs. ident ro = k \<and> \<not> equal ro rn then Some rn else None)"
proof (cases "map_of (index_by ident ys) k")
  case None
  then have "k \<notin> ident ` set (compare_updated equal ident xs ys)"
    by (auto simp: compare_updated_mem) (metis index_by_Some option.distinct(1))
  with None show ?thesis
    by (subst index_by_const) auto
next
  case (Some rn)
  have "r \<in> set (compare_updated equal ident xs ys) \<and> ident r = k \<longleftrightarrow>
      r = rn \<and> (\<exists>ro \<in> set xs. ident ro = k \<and> \<not> equal ro rn)" for r
    using Some index_by_Some [OF Some] unfolding compare_updated_mem
    by (metis index_by_Some option.inject)
  note mem = this
  have "map_of (index_by ident (compare_updated equal ident xs ys)) k =
      (if k \<in> ident ` set (compare_updated equal ident xs ys) then Some rn else None)"
    using mem by (intro index_by_const) auto
  moreover have "k \<in> ident ` set (compare_updated equal ident xs ys) \<longleftrightarrow>
      (\<exists>ro \<in> set xs. ident ro = k \<and> \<not> equal ro rn)"
    using mem unfolding image_iff by metis
  ultimately show ?thesis using Some by simp
qed

theorem compare_by_agrees:
  assumes "agrees m (elems r1)" and "compare_by equal ident r1 r2 = (a, d, u)"
  shows "agrees (foldl put (foldl del (foldl put m (elems a)) (elems d)) (elems u)) (elems r2)"
  unfolding agrees_def
proof
  fix k
  let ?old = "map_of (index_by ident (elems r1)) k"
  let ?new = "map_of (index_by ident (elems r2)) k"
  note parts = compare_by_parts [OF assms(2)]
  have old: "rel_option equal (m k) ?old" using assms(1) by (simp add: agrees_def)
  have in_old: "k \<in> ident ` set (elems r1) \<longleftrightarrow> ?old \<noteq> None"
    by (metis has_key_def has_key_index_by)
  have in_new: "k \<in> ident ` set (elems r2) \<longleftrightarrow> ?new \<noteq> None"
    by (metis has_key_def has_key_index_by)
  have a: "map_of (index_by ident (elems a)) k = (if ?old = None then ?new else None)"
    using in_old by (simp add: parts index_by_filter [of ident "\<lambda>i. i \<notin> _"])
  have d: "k \<in> ident ` set (elems d) \<longleftrightarrow> ?old \<noteq> None \<and> ?new = None"
    using in_old in_new by (auto simp: parts)
  have eq: "\<not> (\<exists>ro \<in> set (elems r1). ident ro = k \<and> \<not> equal ro rn) \<Longrightarrow> ?old = Some ro' \<Longrightarrow> equal ro' rn"
    for rn ro'
    by (auto dest!: index_by_Some)
  show "rel_option equal
     (foldl put (foldl del (foldl put m (elems a)) (elems d)) (elems u) k) ?new"
  proof (cases ?new)
    case None
    then show ?thesis
      using old unfolding put_all del_all d a parts(3) updated_index by (cases ?old) auto
  next
    case (Some rn)
    show ?thesis
    proof (cases ?old)
      case None
      with Some in_old clone_equal show ?thesis
        unfolding put_all del_all d a parts(3) updated_index by auto
    next
      case (Some ro)
      with old obtain r where r: "m k = Some r" "equal r ro" by (cases "m k") auto
      with Some \<open>?new = Some rn\<close> eq [of rn ro] clone_equal show ?thesis
        unfolding put_all del_all d a parts(3) updated_index by (auto intro: equal_trans)
    qed
  qed
qed

end

subsection \<open>Events\<close>

lemma opt_simps [simp]:
  "opt_size None = 0" "opt_size (Some m) = manifest_Size m"
  "opt_events None t = []" "opt_events (Some m) t = manifest_Events m t"
  by (simp_all add: opt_size_def opt_events_def)

lemma length_manifest_Events: "length (manifest_Events m t) = manifest_Size m"
  by (simp add: manifest_Events_def manifest_Size_def)

lemma manifest_Events_Nil_iff: "manifest_Events m t = [] \<longleftrightarrow> manifest_Size m = 0"
  by (metis length_0_conv length_manifest_Events)

lemma generateEvents_eq:
  "generateEvents pl (Some new) (Some old) =
     (case DiffFrom pl old new of (a, d, u) \<Rightarrow>
        manifest_Events a EventAdd @ manifest_Events d EventDelete @ manifest_Events u EventUpdate)"
proof (cases "DiffFrom pl old new")
  case (fields a d u)
  then show ?thesis
    by (simp add: generateEvents_def Let_def manifest_Events_Nil_iff)
qed

lemma generateEvents_new: "generateEvents pl m None = opt_events m EventAdd"
  by (cases m) (simp_all add: generateEvents_def manifest_Events_Nil_iff eq_commute [of "[]"])

lemma generateEvents_gone: "generateEvents pl None (Some m) = manifest_Events m EventDelete"
  by (simp add: generateEvents_def manifest_Events_Nil_iff eq_commute [of "[]"])

section \<open>Properties\<close>

text \<open>The comparison of two slices of routes: added are the new routes whose identifier the old
  slice lacks and deleted the old ones whose identifier the new slice lacks, in order; updated are
  the routes the new slice has last under an identifier of an old, unequal route.\<close>

theorem CompareRoutes_parts:
  assumes "CompareRoutes pl r1 r2 = (a, d, u)"
  shows "elems a = filter (\<lambda>r. rId r \<notin> rId ` set (elems r1)) (elems r2)
    \<and> elems d = filter (\<lambda>r. rId r \<notin> rId ` set (elems r2)) (elems r1)
    \<and> set (elems u) = {rn. \<exists>ro \<in> set (elems r1).
        map_of (index_by rId (elems r2)) (rId ro) = Some rn \<and> \<not> equal_route pl ro rn}"
  using compare_by_parts [OF assms [unfolded CompareRoutes_def]] compare_updated_mem
  by fastforce

lemma CompareRoutes_parts_witness:
  "\<exists>a d u. CompareRoutes std_lib (Some [zero_route\<lparr>rId := ''1''\<rparr>, zero_route\<lparr>rId := ''2''\<rparr>])
       (Some [zero_route\<lparr>rId := ''2'', rName := ''n''\<rparr>, zero_route\<lparr>rId := ''3''\<rparr>]) = (a, d, u)
     \<and> elems a = [zero_route\<lparr>rId := ''3''\<rparr>] \<and> elems d = [zero_route\<lparr>rId := ''1''\<rparr>]"
proof -
  obtain a d u where "CompareRoutes std_lib (Some [zero_route\<lparr>rId := ''1''\<rparr>, zero_route\<lparr>rId := ''2''\<rparr>])
       (Some [zero_route\<lparr>rId := ''2'', rName := ''n''\<rparr>, zero_route\<lparr>rId := ''3''\<rparr>]) = (a, d, u)"
    using prod_cases3 by blast
  with CompareRoutes_parts [OF this] show ?thesis by (simp add: zero_route_def)
qed

end
