(* ===== verification/Cache_Reflection.thy ===== *)
theory Cache_Reflection
  imports Object_Cache Resource_Diff
begin

text \<open>
  \<open>pkg/sidecar/cachereflection.go\<close>: the sidecar applies the events of the provisioner to the
  cache and stamps each with the revision, which it then increments. Together with the
  comparison of \<open>Resource_Diff\<close> this is the state-of-the-world synchronisation: from a cache
  that agrees with the old manifest, the generated events lead to one that agrees with the
  new manifest.
\<close>

section \<open>Definitions\<close>

datatype reflect_error = CacheError cache_error | UnknownEventObject

definition reflect_event :: "proto_lib \<Rightarrow> cache \<Rightarrow> event \<Rightarrow> cache \<times> reflect_error option" where
  "reflect_event pl c ev =
     (if eType ev = EventAdd \<or> eType ev = EventUpdate then
        (case eObject ev of
           ORoute obj \<Rightarrow> (c\<lparr>cRoute := route_Insert pl (cRoute c) obj\<rparr>, None)
         | OUpstream obj \<Rightarrow> (c\<lparr>cUpstream := upstream_Insert pl (cUpstream c) obj\<rparr>, None)
         | _ \<Rightarrow> (c, Some UnknownEventObject))
      else
        (case eTombstone ev of
           ORoute obj \<Rightarrow>
             (case route_Delete (cRoute c) (rId obj) of
                Inl e \<Rightarrow> (c, Some (CacheError e))
              | Inr s \<Rightarrow> (c\<lparr>cRoute := s\<rparr>, None))
         | OUpstream obj \<Rightarrow>
             (case upstream_Delete (cUpstream c) (uId obj) of
                Inl e \<Rightarrow> (c, Some (CacheError e))
              | Inr s \<Rightarrow> (c\<lparr>cUpstream := s\<rparr>, None))
         | _ \<Rightarrow> (c, Some UnknownEventObject)))"

text \<open>
  The loop: an error is logged and the event still takes a revision. Only this loop writes the
  revision, so its compare-and-swap succeeds the first time: load \<open>rv\<close>, store \<open>rv + 1\<close>,
  stamp the event with \<open>rv\<close>. The sum wraps at 64 bits.
\<close>

fun reflectToCache :: "proto_lib \<Rightarrow> cache \<Rightarrow> i64 \<Rightarrow> event list \<Rightarrow> cache \<times> i64 \<times> event list" where
  "reflectToCache pl c rv [] = (c, rv, [])"
| "reflectToCache pl c rv (ev # evs) =
     (let (c1, err) = reflect_event pl c ev;
          (c2, rv2, evs2) = reflectToCache pl c1 (rv + 1) evs
      in (c2, rv2, ev\<lparr>eRevision := rv\<rparr> # evs2))"

definition cache_after :: "proto_lib \<Rightarrow> cache \<Rightarrow> event list \<Rightarrow> cache" where
  "cache_after pl c evs = foldl (\<lambda>c ev. fst (reflect_event pl c ev)) c evs"

fun stamp :: "i64 \<Rightarrow> event list \<Rightarrow> event list" where
  "stamp rv [] = []"
| "stamp rv (ev # evs) = ev\<lparr>eRevision := rv\<rparr> # stamp (rv + 1) evs"

text \<open>A cache holds equal messages under the identifiers a manifest has, and nothing else.\<close>

definition routes_agree :: "proto_lib \<Rightarrow> cache \<Rightarrow> route list \<Rightarrow> bool" where
  "routes_agree pl c rs \<longleftrightarrow>
     (\<forall>k. rel_option (equal_route pl) (map_of (cRoute c) k) (map_of (index_by rId rs) k))"

definition upstreams_agree :: "proto_lib \<Rightarrow> cache \<Rightarrow> upstream list \<Rightarrow> bool" where
  "upstreams_agree pl c us \<longleftrightarrow>
     (\<forall>k. rel_option (equal_upstream pl) (map_of (cUpstream c) k) (map_of (index_by uId us) k))"

section \<open>Lemmas\<close>

subsection \<open>The loop\<close>

lemma reflectToCache_eq:
  "reflectToCache pl c rv evs = (cache_after pl c evs, rv + of_nat (length evs), stamp rv evs)"
proof (induction evs arbitrary: c rv)
  case (Cons ev evs)
  then show ?case by (simp add: cache_after_def split_beta Let_def algebra_simps)
qed (simp add: cache_after_def)

lemma length_stamp [simp]: "length (stamp rv evs) = length evs"
  by (induction evs arbitrary: rv) simp_all

lemma nth_stamp: "i < length evs \<Longrightarrow> stamp rv evs ! i = (evs ! i)\<lparr>eRevision := rv + of_nat i\<rparr>"
proof (induction evs arbitrary: rv i)
  case (Cons ev evs)
  then show ?case by (cases i) (simp_all add: algebra_simps)
qed simp

lemma cache_after_simps [simp]:
  "cache_after pl c [] = c"
  "cache_after pl c (ev # evs) = cache_after pl (fst (reflect_event pl c ev)) evs"
  "cache_after pl c (xs @ ys) = cache_after pl (cache_after pl c xs) ys"
  by (simp_all add: cache_after_def)

subsection \<open>One event on the view of the cache\<close>

lemma reflect_route_view:
  "map_of (cRoute (fst (reflect_event pl c (route_event t r)))) =
     (if t = EventAdd \<or> t = EventUpdate
      then (map_of (cRoute c))(rId (clone_route pl r) \<mapsto> clone_route pl r)
      else if t = EventDelete then (map_of (cRoute c))(rId r := None)
      else map_of (cRoute c))"
  using routes.view_ins [of pl "cRoute c" r] routes.view_del_total [of "cRoute c" "rId r"]
  by (auto simp: reflect_event_def route_event_def split: sum.splits)

lemma reflect_route_other [simp]:
  "cUpstream (fst (reflect_event pl c (route_event t r))) = cUpstream c"
  by (auto simp: reflect_event_def route_event_def split: sum.splits)

lemma reflect_upstream_view:
  "map_of (cUpstream (fst (reflect_event pl c (upstream_event t u)))) =
     (if t = EventAdd \<or> t = EventUpdate
      then (map_of (cUpstream c))(uId (clone_upstream pl u) \<mapsto> clone_upstream pl u)
      else if t = EventDelete then (map_of (cUpstream c))(uId u := None)
      else map_of (cUpstream c))"
  using upstreams.view_ins [of pl "cUpstream c" u] upstreams.view_del_total [of "cUpstream c" "uId u"]
  by (auto simp: reflect_event_def upstream_event_def split: sum.splits)

lemma reflect_upstream_other [simp]:
  "cRoute (fst (reflect_event pl c (upstream_event t u))) = cRoute c"
  by (auto simp: reflect_event_def upstream_event_def split: sum.splits)

lemma cache_after_routes_other [simp]:
  "cUpstream (cache_after pl c (map (route_event t) rs)) = cUpstream c"
  by (induction rs arbitrary: c) simp_all

lemma cache_after_upstreams_other [simp]:
  "cRoute (cache_after pl c (map (upstream_event t) us)) = cRoute c"
  by (induction us arbitrary: c) simp_all

subsection \<open>The invariant of the cache\<close>

lemma cache_ok_iff:
  "cache_ok c \<longleftrightarrow> gm_ok (cRoute c) \<and> gm_ok (cUpstream c)
     \<and> (\<forall>k r. map_of (cRoute c) k = Some r \<longrightarrow> rId r = k)
     \<and> (\<forall>k u. map_of (cUpstream c) k = Some u \<longrightarrow> uId u = k)"
  by (auto simp: cache_ok_def map_of_eq_iff_mem)

lemma reflect_event_ok:
  assumes "cache_ok c"
  shows "cache_ok (fst (reflect_event pl c ev))"
proof -
  have ins: "cache_ok (c\<lparr>cRoute := route_Insert pl (cRoute c) r\<rparr>)"
    "cache_ok (c\<lparr>cUpstream := upstream_Insert pl (cUpstream c) u\<rparr>)" for r u
    using assms routes.invar_ins [of "cRoute c" pl r] upstreams.invar_ins [of "cUpstream c" pl u]
    unfolding cache_ok_iff by (auto simp: routes.view_ins upstreams.view_ins)
  moreover have "route_Delete (cRoute c) k = Inr s \<Longrightarrow> cache_ok (c\<lparr>cRoute := s\<rparr>)" for k s
    using assms routes.invar_del [of "cRoute c" k s] unfolding cache_ok_iff
    by (auto simp: routes.view_del)
  moreover have "upstream_Delete (cUpstream c) k = Inr s \<Longrightarrow> cache_ok (c\<lparr>cUpstream := s\<rparr>)" for k s
    using assms upstreams.invar_del [of "cUpstream c" k s] unfolding cache_ok_iff
    by (auto simp: upstreams.view_del)
  ultimately show ?thesis
    using assms by (auto simp: reflect_event_def split: object.splits sum.splits)
qed

lemma cache_after_ok: "cache_ok c \<Longrightarrow> cache_ok (cache_after pl c evs)"
  by (induction evs arbitrary: c) (auto intro: reflect_event_ok)

subsection \<open>The events of a manifest on the view of the cache\<close>

lemma put_routes:
  assumes "proto_ok pl" "t = EventAdd \<or> t = EventUpdate"
  shows "map_of (cRoute (cache_after pl c (map (route_event t) rs))) =
    foldl (proto_message.put (clone_route pl) rId) (map_of (cRoute c)) rs"
proof -
  note rm = proto_okD(1) [OF assms(1)]
  show ?thesis
    using assms(2)
    by (induction rs arbitrary: c)
      (auto simp: reflect_route_view proto_message.put_def [OF rm] proto_message.ident_clone [OF rm])
qed

lemma put_upstreams:
  assumes "proto_ok pl" "t = EventAdd \<or> t = EventUpdate"
  shows "map_of (cUpstream (cache_after pl c (map (upstream_event t) us))) =
    foldl (proto_message.put (clone_upstream pl) uId) (map_of (cUpstream c)) us"
proof -
  note um = proto_okD(2) [OF assms(1)]
  show ?thesis
    using assms(2)
    by (induction us arbitrary: c)
      (auto simp: reflect_upstream_view proto_message.put_def [OF um] proto_message.ident_clone [OF um])
qed

lemma del_routes:
  assumes "proto_ok pl"
  shows "map_of (cRoute (cache_after pl c (map (route_event EventDelete) rs))) =
    foldl (proto_message.del rId) (map_of (cRoute c)) rs"
proof -
  note rm = proto_okD(1) [OF assms(1)]
  show ?thesis
    by (induction rs arbitrary: c) (auto simp: reflect_route_view proto_message.del_def [OF rm])
qed

lemma del_upstreams:
  assumes "proto_ok pl"
  shows "map_of (cUpstream (cache_after pl c (map (upstream_event EventDelete) us))) =
    foldl (proto_message.del uId) (map_of (cUpstream c)) us"
proof -
  note um = proto_okD(2) [OF assms(1)]
  show ?thesis
    by (induction us arbitrary: c) (auto simp: reflect_upstream_view proto_message.del_def [OF um])
qed

lemmas manifest_effect = put_routes put_upstreams del_routes del_upstreams

subsection \<open>State-of-the-world synchronisation\<close>

lemma generateEvents_routes:
  assumes "proto_ok pl" "routes_agree pl c (elems (mRoutes old))"
  shows "routes_agree pl (cache_after pl c (generateEvents pl (Some new) (Some old)))
           (elems (mRoutes new))"
proof -
  note rm = proto_okD(1) [OF assms(1)]
  obtain a d u where cmp: "compare_by (equal_route pl) rId (mRoutes old) (mRoutes new) = (a, d, u)"
    by (cases "compare_by (equal_route pl) rId (mRoutes old) (mRoutes new)")
  then show ?thesis
    using assms proto_message.compare_by_agrees [OF rm _ cmp, of "map_of (cRoute c)"]
    by (simp add: generateEvents_eq DiffFrom_def CompareRoutes_def Let_def split_beta
        manifest_Events_def manifest_effect routes_agree_def proto_message.agrees_def [OF rm])
qed

lemma generateEvents_upstreams:
  assumes "proto_ok pl" "upstreams_agree pl c (elems (mUpstreams old))"
  shows "upstreams_agree pl (cache_after pl c (generateEvents pl (Some new) (Some old)))
           (elems (mUpstreams new))"
proof -
  note um = proto_okD(2) [OF assms(1)]
  obtain a d u where cmp:
    "compare_by (equal_upstream pl) uId (mUpstreams old) (mUpstreams new) = (a, d, u)"
    by (cases "compare_by (equal_upstream pl) uId (mUpstreams old) (mUpstreams new)")
  then show ?thesis
    using assms proto_message.compare_by_agrees [OF um _ cmp, of "map_of (cUpstream c)"]
    by (simp add: generateEvents_eq DiffFrom_def CompareUpstreams_def Let_def split_beta
        manifest_Events_def manifest_effect upstreams_agree_def proto_message.agrees_def [OF um])
qed

section \<open>Properties\<close>

text \<open>C7: state-of-the-world synchronisation. If the cache agrees with the old manifest, then after
  the generated events it agrees with the new one, for routes and for upstreams: equal messages
  under the same identifiers and nothing else. Identifiers may repeat within a manifest.\<close>

theorem state_of_the_world_sync:
  assumes "proto_ok pl" "routes_agree pl c (elems (mRoutes old))" "upstreams_agree pl c (elems (mUpstreams old))"
    and "reflectToCache pl c rv (generateEvents pl (Some new) (Some old)) = (c', rv', evs)"
  shows "routes_agree pl c' (elems (mRoutes new)) \<and> upstreams_agree pl c' (elems (mUpstreams new))"
  using generateEvents_routes [OF assms(1,2)] generateEvents_upstreams [OF assms(1,3)] assms(4)
  by (auto simp: reflectToCache_eq)

lemma state_of_the_world_sync_witness:
  "\<exists>c' rv' evs. reflectToCache std_lib NewInMemoryCache 0 (generateEvents std_lib
        (Some (zero_manifest\<lparr>mRoutes := Some [zero_route\<lparr>rId := ''1''\<rparr>]\<rparr>)) (Some zero_manifest)) = (c', rv', evs)
     \<and> routes_agree std_lib c' [zero_route\<lparr>rId := ''1''\<rparr>]"
proof -
  let ?new = "zero_manifest\<lparr>mRoutes := Some [zero_route\<lparr>rId := ''1''\<rparr>]\<rparr>"
  obtain c' rv' evs where r: "reflectToCache std_lib NewInMemoryCache 0
      (generateEvents std_lib (Some ?new) (Some zero_manifest)) = (c', rv', evs)"
    using prod_cases3 by blast
  have "routes_agree std_lib c' (elems (mRoutes ?new))"
    using state_of_the_world_sync [OF proto_ok_std _ _ r]
    by (simp add: zero_manifest_def NewInMemoryCache_def newRoute_def newUpstream_def
        routes_agree_def upstreams_agree_def)
  with r show ?thesis by simp
qed

text \<open>Reflecting a batch numbers its events consecutively from the revision before it, advances
  the revision by the length of the batch (modulo 64 bits) and keeps the cache well-formed, also
  when events fail.\<close>

theorem reflectToCache_revisions:
  assumes "cache_ok c" "reflectToCache pl c rv evs = (c', rv', evs')"
  shows "cache_ok c' \<and> rv' = rv + of_nat (length evs)
    \<and> evs' = map (\<lambda>i. (evs ! i)\<lparr>eRevision := rv + of_nat i\<rparr>) [0..<length evs]"
proof -
  have "stamp rv evs = map (\<lambda>i. (evs ! i)\<lparr>eRevision := rv + of_nat i\<rparr>) [0..<length evs]"
    by (rule nth_equalityI) (simp_all add: nth_stamp)
  with assms show ?thesis by (auto simp: reflectToCache_eq cache_after_ok)
qed

lemma reflectToCache_revisions_witness:
  "\<exists>c' rv' evs'. reflectToCache std_lib NewInMemoryCache 7 [mk_event EventAdd ONil ONil, mk_event EventAdd OOther ONil]
       = (c', rv', evs') \<and> rv' = 9 \<and> map eRevision evs' = [7, 8]"
proof -
  obtain c' rv' evs' where r: "reflectToCache std_lib NewInMemoryCache 7
      [mk_event EventAdd ONil ONil, mk_event EventAdd OOther ONil] = (c', rv', evs')"
    using prod_cases3 by blast
  from reflectToCache_revisions [OF cache_ok_new r] r show ?thesis by (simp add: numeral_2_eq_2)
qed

end
