(* ===== verification/Grpc_Provisioner.thy ===== *)
theory Grpc_Provisioner
  imports Xds_Cluster Xds_Route Xds_Listener String_Set Cache_Reflection
begin

text \<open>
  \<open>pkg/provisioner/xds/v3/grpc\<close>: the provisioner that talks the state-of-the-world variant of
  xDS over one aggregated stream. One goroutine (\<open>translateLoop\<close>) owns the state: for every
  discovery response it translates the resources, replaces what it knew of that resource type,
  emits the events of the difference, asks for further resources and answers with an ACK or a
  NACK. A response is one step of the model, from the state before to the state after, the
  requests put on the send channel in order, and the batch of events handed over (none when
  the response is rejected). What a step depends on besides (the decoders, the
  protobuf library, the orders in which maps are ranged over) is a \<open>runtime\<close>.
\<close>

section \<open>Definitions\<close>

subsection \<open>State\<close>

record runtime =
  rtProto :: proto_lib
  rtDec :: decoders
  rtHcm :: string
  rtHosts :: "(string, unit) iter"
  rtUpstreams :: "(string, upstream) iter"
  rtEds :: "(string, unit) iter"
  rtOwners :: "(string, string) iter"

definition rt_ok :: "runtime \<Rightarrow> bool" where
  "rt_ok rt \<longleftrightarrow> proto_ok (rtProto rt)
     \<and> (\<forall>u. uName (clone_upstream (rtProto rt) u) = uName u)
     \<and> range_order (rtHosts rt) \<and> range_order (rtUpstreams rt)
     \<and> range_order (rtEds rt) \<and> range_order (rtOwners rt)"

record grpc_provisioner =
  routeOwnership :: "(string, string) gomap option"
  staticRouteConfigurations :: "route_configuration slice"
  gpRoutes :: "route slice"
  gpUpstreams :: "(string, upstream) gomap"
  edsRequiredClusters :: string_set

definition NewGrpcProvisioner :: grpc_provisioner where
  "NewGrpcProvisioner = \<lparr>routeOwnership = None, staticRouteConfigurations = None,
     gpRoutes = None, gpUpstreams = [], edsRequiredClusters = []\<rparr>"

datatype translate_error =
    TDecode decode_error | TAdaptor adaptor_error | ErrUnknownClusterName | ErrUnknownResourceTypeUrl

subsection \<open>Requests\<close>

definition discovery_for :: "string \<Rightarrow> string list \<Rightarrow> discovery_request" where
  "discovery_for url names = \<lparr>dqTypeUrl = url, dqResourceNames = names, dqVersionInfo = '''',
     dqResponseNonce = '''', dqErrorDetail = False\<rparr>"

definition firstSend :: "discovery_request list" where
  "firstSend = [discovery_for ListenerUrl [], discovery_for ClusterUrl []]"

definition sendEds :: "runtime \<Rightarrow> grpc_provisioner \<Rightarrow> discovery_request list" where
  "sendEds rt p =
     (if length (edsRequiredClusters p) = 0 then []
      else [discovery_for ClusterLoadAssignmentUrl (map fst (rtEds rt (edsRequiredClusters p)))])"

definition trySendRds :: "string list \<Rightarrow> discovery_request list" where
  "trySendRds rdsNames =
     (if length rdsNames = 0 then [] else [discovery_for RouteConfigurationUrl rdsNames])"

subsection \<open>Route configurations\<close>

definition processRouteConfigurationV3 ::
    "runtime \<Rightarrow> grpc_provisioner \<Rightarrow> any_msg \<Rightarrow> (translate_error + route list) go" where
  "processRouteConfigurationV3 rt p res =
     (case dec_route (rtDec rt) res of
        Inl e \<Rightarrow> Ret (Inl (TDecode e))
      | Inr route \<Rightarrow>
          go_bind (TranslateRouteConfiguration (rtHosts rt) route
                     (Some \<lparr>toRouteOriginalDestination = routeOwnership p\<rparr>))
            (\<lambda>routes. Ret (Inr routes)))"

text \<open>The result slice is declared and returned; the loop does not append to it.\<close>

fun processStaticRouteConfigurations ::
    "runtime \<Rightarrow> grpc_provisioner \<Rightarrow> route_configuration list \<Rightarrow> route list go" where
  "processStaticRouteConfigurations rt p [] = Ret []"
| "processStaticRouteConfigurations rt p (rc # rcs) =
     go_bind (TranslateRouteConfiguration (rtHosts rt) rc
                (Some \<lparr>toRouteOriginalDestination = routeOwnership p\<rparr>))
       (\<lambda>route. processStaticRouteConfigurations rt p rcs)"

fun rds_loop ::
    "runtime \<Rightarrow> grpc_provisioner \<Rightarrow> any_msg list \<Rightarrow> route slice
       \<Rightarrow> (translate_error + route slice) go" where
  "rds_loop rt p [] routes = Ret (Inr routes)"
| "rds_loop rt p (res # rest) routes =
     go_bind (processRouteConfigurationV3 rt p res) (\<lambda>r.
       case r of
         Inl e \<Rightarrow> Ret (Inl e)
       | Inr partial \<Rightarrow> rds_loop rt p rest (sappend routes partial))"

definition translate_rds ::
    "runtime \<Rightarrow> grpc_provisioner \<Rightarrow> any_msg list \<Rightarrow> (grpc_provisioner \<times> (translate_error + event list)) go" where
  "translate_rds rt p resources =
     go_bind (rds_loop rt p resources None) (\<lambda>r.
       case r of
         Inl e \<Rightarrow> Ret (p, Inl e)
       | Inr routes \<Rightarrow>
           go_bind (case staticRouteConfigurations p of
                      None \<Rightarrow> Ret routes
                    | Some rcs \<Rightarrow> go_bind (processStaticRouteConfigurations rt p rcs)
                                    (\<lambda>partial. Ret (sappend routes partial)))
             (\<lambda>routes.
               Ret (p\<lparr>gpRoutes := routes\<rparr>,
                    Inr (generateEvents (rtProto rt)
                          (Some (zero_manifest\<lparr>mRoutes := routes\<rparr>))
                          (Some (zero_manifest\<lparr>mRoutes := gpRoutes p\<rparr>))))))"

subsection \<open>Clusters\<close>

definition processClusterV3 ::
    "runtime \<Rightarrow> grpc_provisioner \<Rightarrow> any_msg
       \<Rightarrow> (grpc_provisioner \<times> (translate_error + upstream option)) go" where
  "processClusterV3 rt p res =
     (case dec_cluster (rtDec rt) res of
        Inl e \<Rightarrow> Ret (p, Inl (TDecode e))
      | Inr cluster \<Rightarrow>
          go_bind (TranslateCluster cluster) (\<lambda>(ups, err).
            case err of
              None \<Rightarrow> Ret (p, Inr ups)
            | Some ErrRequireFurtherEDS \<Rightarrow>
                (case ups of
                   None \<Rightarrow> Panic
                 | Some u \<Rightarrow>
                     Ret (p\<lparr>edsRequiredClusters := Add (edsRequiredClusters p) (uName u)\<rparr>, Inr ups))
            | Some e \<Rightarrow> Ret (p, Inl (TAdaptor e))))"

fun cds_loop ::
    "runtime \<Rightarrow> grpc_provisioner \<Rightarrow> any_msg list \<Rightarrow> upstream slice \<Rightarrow> (string, upstream) gomap
       \<Rightarrow> (grpc_provisioner \<times> (translate_error + upstream slice \<times> (string, upstream) gomap)) go" where
  "cds_loop rt p [] ms newUps = Ret (p, Inr (ms, newUps))"
| "cds_loop rt p (res # rest) ms newUps =
     go_bind (processClusterV3 rt p res) (\<lambda>(p1, r).
       case r of
         Inl e \<Rightarrow> (if e = TAdaptor ErrFeatureNotSupportedYet then cds_loop rt p1 rest ms newUps
                   else Ret (p1, Inl e))
       | Inr None \<Rightarrow> Panic
       | Inr (Some ups) \<Rightarrow>
           cds_loop rt p1 rest (sappend ms [ups]) (AList.update (uName ups) ups newUps))"

definition translate_cds ::
    "runtime \<Rightarrow> grpc_provisioner \<Rightarrow> any_msg list
       \<Rightarrow> (grpc_provisioner \<times> discovery_request list \<times> (translate_error + event list)) go" where
  "translate_cds rt p resources =
     (let oldEds = edsRequiredClusters p
      in go_bind (cds_loop rt (p\<lparr>edsRequiredClusters := []\<rparr>) resources None []) (\<lambda>(p1, r).
           case r of
             Inl e \<Rightarrow> Ret (p1, [], Inl e)
           | Inr (ms, newUps) \<Rightarrow>
               (let old = sappend None (map snd (rtUpstreams rt (gpUpstreams p1)));
                    p2 = p1\<lparr>gpUpstreams := newUps\<rparr>;
                    reqs = (if \<not> Equal (edsRequiredClusters p2) oldEds then sendEds rt p2 else [])
                in Ret (p2, reqs,
                        Inr (generateEvents (rtProto rt)
                              (Some (zero_manifest\<lparr>mUpstreams := ms\<rparr>))
                              (Some (zero_manifest\<lparr>mUpstreams := old\<rparr>)))))))"

subsection \<open>Load assignments\<close>

definition processClusterLoadAssignmentV3 ::
    "runtime \<Rightarrow> grpc_provisioner \<Rightarrow> any_msg
       \<Rightarrow> (grpc_provisioner \<times> (translate_error + upstream)) go" where
  "processClusterLoadAssignmentV3 rt p res =
     (case dec_assignment (rtDec rt) res of
        Inl e \<Rightarrow> Ret (p, Inl (TDecode e))
      | Inr cla \<Rightarrow>
          (case map_of (gpUpstreams p) (laClusterName cla) of
             None \<Rightarrow> Ret (p, Inl ErrUnknownClusterName)
           | Some ups \<Rightarrow>
               go_bind (TranslateClusterLoadAssignment (Some cla)) (\<lambda>nodes.
                 let newUps = (clone_upstream (rtProto rt) ups)\<lparr>uNodes := nodes\<rparr>
                 in Ret (p\<lparr>gpUpstreams := AList.update (laClusterName cla) newUps (gpUpstreams p)\<rparr>,
                         Inr newUps))))"

fun eds_loop ::
    "runtime \<Rightarrow> grpc_provisioner \<Rightarrow> any_msg list \<Rightarrow> upstream list
       \<Rightarrow> (grpc_provisioner \<times> (translate_error + upstream list)) go" where
  "eds_loop rt p [] ms = Ret (p, Inr ms)"
| "eds_loop rt p (res # rest) ms =
     go_bind (processClusterLoadAssignmentV3 rt p res) (\<lambda>(p1, r).
       case r of
         Inl e \<Rightarrow> Ret (p1, Inl e)
       | Inr ups \<Rightarrow>
           eds_loop rt (p1\<lparr>gpUpstreams := AList.update (uName ups) ups (gpUpstreams p1)\<rparr>) rest
             (ms @ [ups]))"

definition translate_eds ::
    "runtime \<Rightarrow> grpc_provisioner \<Rightarrow> any_msg list \<Rightarrow> (grpc_provisioner \<times> (translate_error + event list)) go" where
  "translate_eds rt p resources =
     go_bind (eds_loop rt p resources []) (\<lambda>(p1, r).
       case r of
         Inl e \<Rightarrow> Ret (p1, Inl e)
       | Inr ms \<Rightarrow> Ret (p1, Inr (map (\<lambda>ups. mk_event EventUpdate (OUpstream ups) ONil) ms)))"

subsection \<open>Listeners\<close>

text \<open>The address a listener is bound to; none for listeners the provisioner leaves aside.\<close>

definition listen_addr :: "listener \<Rightarrow> string option" where
  "listen_addr l =
     (case lAddress l of
        Some (SocketAddress sa) \<Rightarrow>
          (let port = (case saPort sa of PortValue v \<Rightarrow> unat v | _ \<Rightarrow> 0)
           in if port = 0 then None else Some (saAddress sa @ '':'' @ fmt_d port))
      | _ \<Rightarrow> None)"

definition own :: "string \<Rightarrow> string list \<Rightarrow> (string, string) gomap \<Rightarrow> (string, string) gomap" where
  "own addr names m = foldl (\<lambda>m name. AList.update name addr m) m names"

fun listener_loop ::
    "runtime \<Rightarrow> any_msg list \<Rightarrow> string list \<Rightarrow> route_configuration slice \<Rightarrow> (string, string) gomap
       \<Rightarrow> translate_error + (string list \<times> route_configuration slice \<times> (string, string) gomap)" where
  "listener_loop rt [] rdsNames statics owners = Inr (rdsNames, statics, owners)"
| "listener_loop rt (res # rest) rdsNames statics owners =
     (case dec_listener (rtDec rt) res of
        Inl e \<Rightarrow> Inl (TDecode e)
      | Inr l \<Rightarrow>
          (case listen_addr l of
             None \<Rightarrow> listener_loop rt rest rdsNames statics owners
           | Some addr \<Rightarrow>
               (case CollectRouteNamesAndConfigs (rtDec rt) (rtHcm rt) l of
                  Inl e \<Rightarrow> Inl (TDecode e)
                | Inr (names, cfgs) \<Rightarrow>
                    listener_loop rt rest (rdsNames @ names) (sappend statics cfgs)
                      (own addr (map rcName cfgs) (own addr names owners)))))"

definition translate_lds ::
    "runtime \<Rightarrow> grpc_provisioner \<Rightarrow> any_msg list
       \<Rightarrow> grpc_provisioner \<times> discovery_request list \<times> (translate_error + event list)" where
  "translate_lds rt p resources =
     (case listener_loop rt resources [] None [] of
        Inl e \<Rightarrow> (p, [], Inl e)
      | Inr (rdsNames, statics, owners) \<Rightarrow>
          (p\<lparr>staticRouteConfigurations := statics, routeOwnership := Some owners\<rparr>,
           trySendRds rdsNames,
           Inr (generateEvents (rtProto rt) (Some zero_manifest) (Some zero_manifest))))"

subsection \<open>One response\<close>

definition translate ::
    "runtime \<Rightarrow> grpc_provisioner \<Rightarrow> discovery_response
       \<Rightarrow> (grpc_provisioner \<times> discovery_request list \<times> (translate_error + event list)) go" where
  "translate rt p resp =
     (if drTypeUrl resp = RouteConfigurationUrl then
        go_bind (translate_rds rt p (drResources resp)) (\<lambda>(p1, r). Ret (p1, [], r))
      else if drTypeUrl resp = ClusterUrl then translate_cds rt p (drResources resp)
      else if drTypeUrl resp = ClusterLoadAssignmentUrl then
        go_bind (translate_eds rt p (drResources resp)) (\<lambda>(p1, r). Ret (p1, [], r))
      else if drTypeUrl resp = ListenerUrl then Ret (translate_lds rt p (drResources resp))
      else Ret (p, [], Inl ErrUnknownResourceTypeUrl))"

text \<open>The resource names of the answer, read before the response is translated.\<close>

definition ack_names :: "runtime \<Rightarrow> grpc_provisioner \<Rightarrow> string \<Rightarrow> string list" where
  "ack_names rt p url =
     (if url = ClusterLoadAssignmentUrl then Strings (rtEds rt) (edsRequiredClusters p)
      else if url = RouteConfigurationUrl then
        map fst (rtOwners rt (case routeOwnership p of None \<Rightarrow> [] | Some m \<Rightarrow> m))
      else [])"

text \<open>One round of \<open>translateLoop\<close>; \<open>verInfo\<close> is its local variable.\<close>

definition translateLoop_step ::
    "runtime \<Rightarrow> grpc_provisioner \<times> string \<Rightarrow> discovery_response
       \<Rightarrow> ((grpc_provisioner \<times> string) \<times> discovery_request list \<times> event list option) go" where
  "translateLoop_step rt st resp =
     (let (p, verInfo) = st; names = ack_names rt p (drTypeUrl resp)
      in go_bind (translate rt p resp) (\<lambda>(p1, reqs, r).
           let ver = (case r of Inl _ \<Rightarrow> verInfo | Inr _ \<Rightarrow> drVersionInfo resp);
               ack = \<lparr>dqTypeUrl = drTypeUrl resp, dqResourceNames = names, dqVersionInfo = ver,
                      dqResponseNonce = drNonce resp,
                      dqErrorDetail = (case r of Inl _ \<Rightarrow> True | Inr _ \<Rightarrow> False)\<rparr>
           in Ret ((p1, ver), reqs @ [ack], (case r of Inl _ \<Rightarrow> None | Inr evs \<Rightarrow> Some evs))))"

fun translateLoop ::
    "grpc_provisioner \<times> string \<Rightarrow> (runtime \<times> discovery_response) list
       \<Rightarrow> ((grpc_provisioner \<times> string) \<times> discovery_request list \<times> event list list) go" where
  "translateLoop st [] = Ret (st, [], [])"
| "translateLoop st ((rt, resp) # resps) =
     go_bind (translateLoop_step rt st resp) (\<lambda>(st1, reqs1, batch).
       go_bind (translateLoop st1 resps) (\<lambda>(st2, reqs2, batches).
         Ret (st2, reqs1 @ reqs2, (case batch of None \<Rightarrow> batches | Some evs \<Rightarrow> evs # batches))))"

end
