(* ===== verification/Grpc_Sync.thy ===== *)
theory Grpc_Sync
  imports Grpc_Provisioner
begin

text \<open>
  What the gRPC provisioner promises to the cache it feeds: after every accepted response the
  cache, with the batch of events applied, agrees with the routes and the upstreams the
  provisioner knows. Upstreams are known under their cluster names and cached under the CRC-32
  of them, so the promise needs the names in use to have different checksums
  (\<open>no_collision\<close>).
\<close>

section \<open>Specification\<close>

definition upstreams_wf :: "(string, upstream) gomap \<Rightarrow> bool" where
  "upstreams_wf m \<longleftrightarrow> gm_ok m \<and> (\<forall>k u. map_of m k = Some u \<longrightarrow> uName u = k \<and> uId u = GenID k)"

definition no_collision :: "(string, upstream) gomap \<Rightarrow> bool" where
  "no_collision m \<longleftrightarrow> inj_on GenID (dom (map_of m))"

definition state_agrees :: "proto_lib \<Rightarrow> cache \<Rightarrow> grpc_provisioner \<Rightarrow> bool" where
  "state_agrees pl c p \<longleftrightarrow>
     routes_agree pl c (elems (gpRoutes p)) \<and> upstreams_agree pl c (map snd (gpUpstreams p))"

text \<open>
  The provisioner and the cache its batches are applied to. A rejected response leaves the cache
  alone; rejected load assignments are not steps of this system (see \<open>eds_reject_diverges\<close>).
\<close>

inductive synced :: "proto_lib \<Rightarrow> grpc_provisioner \<Rightarrow> cache \<Rightarrow> bool" for pl where
  start: "synced pl NewGrpcProvisioner NewInMemoryCache"
| accept: "synced pl p c \<Longrightarrow> rt_ok rt \<Longrightarrow> rtProto rt = pl \<Longrightarrow>
     translate rt p resp = Ret (p', reqs, Inr evs) \<Longrightarrow> no_collision (gpUpstreams p') \<Longrightarrow>
     synced pl p' (cache_after pl c evs)"
| reject: "synced pl p c \<Longrightarrow> drTypeUrl resp \<noteq> ClusterLoadAssignmentUrl \<Longrightarrow>
     translate rt p resp = Ret (p', reqs, Inl e) \<Longrightarrow> synced pl p' c"

section \<open>Lemmas\<close>

subsection \<open>Upstreams by name and by identifier\<close>

lemma index_by_perm:
  assumes "distinct (map ident xs)" "mset xs = mset ys"
  shows "map_of (index_by ident xs) = map_of (index_by ident ys)"
proof
  fix k
  have "distinct (map ident ys)"
    using assms by (metis mset_eq_imp_distinct_iff mset_map)
  moreover have st: "set xs = set ys" using assms(2) by (metis set_mset_mset)
  ultimately show "map_of (index_by ident xs) k = map_of (index_by ident ys) k"
    using assms(1) has_key_index_by [of ident xs k] has_key_index_by [of ident ys k]
    by (cases "k \<in> ident ` set xs") (auto simp: index_by_distinct has_key_def)
qed

lemma upstreams_wf_empty [simp]: "upstreams_wf []"
  by (simp add: upstreams_wf_def)

lemma upstreams_wf_update:
  "upstreams_wf m \<Longrightarrow> uName u = k \<Longrightarrow> uId u = GenID k \<Longrightarrow> upstreams_wf (AList.update k u m)"
  by (auto simp: upstreams_wf_def map_of_update)

lemma wf_distinct_ids:
  assumes "upstreams_wf m" "no_collision m"
  shows "distinct (map uId (map snd m))"
proof -
  have "map uId (map snd m) = map GenID (map fst m)"
    using assms(1) by (auto simp: upstreams_wf_def map_of_eq_iff_mem)
  then show ?thesis
    using assms unfolding upstreams_wf_def no_collision_def gm_ok_def
    by (simp add: distinct_map dom_map_of_conv_image_fst del: map_map)
qed

lemma by_id:
  assumes "upstreams_wf m" "no_collision m"
  shows "k \<in> dom (map_of m) \<Longrightarrow> map_of (index_by uId (map snd m)) (GenID k) = map_of m k"
    and "i \<notin> GenID ` dom (map_of m) \<Longrightarrow> map_of (index_by uId (map snd m)) i = None"
proof -
  assume "k \<in> dom (map_of m)"
  then obtain u where u: "map_of m k = Some u" by blast
  with assms(1) have "u \<in> set (map snd m)" "uId u = GenID k"
    by (auto simp: upstreams_wf_def map_of_eq_iff_mem rev_image_eqI)
  with u show "map_of (index_by uId (map snd m)) (GenID k) = map_of m k"
    using index_by_distinct [OF wf_distinct_ids [OF assms]] by metis
next
  assume i: "i \<notin> GenID ` dom (map_of m)"
  have "i \<notin> uId ` set (map snd m)"
  proof
    assume "i \<in> uId ` set (map snd m)"
    then obtain k u where "(k, u) \<in> set m" "uId u = i" by auto
    with assms(1) have "map_of m k = Some u" "GenID k = i"
      by (auto simp: upstreams_wf_def map_of_eq_iff_mem)
    with i show False by blast
  qed
  then show "map_of (index_by uId (map snd m)) i = None"
    using has_key_index_by [of uId "map snd m" i] by (simp add: has_key_def)
qed

lemma by_id_eqI:
  assumes "upstreams_wf m" "no_collision m"
    and "\<And>k. k \<in> dom (map_of m) \<Longrightarrow> f (GenID k) = map_of m k"
    and "\<And>i. i \<notin> GenID ` dom (map_of m) \<Longrightarrow> f i = None"
  shows "map_of (index_by uId (map snd m)) = f"
proof
  fix i
  show "map_of (index_by uId (map snd m)) i = f i"
  proof (cases "i \<in> GenID ` dom (map_of m)")
    case True
    then obtain k where "i = GenID k" "k \<in> dom (map_of m)" by blast
    then show ?thesis using by_id(1) [OF assms(1,2)] assms(3) by simp
  next
    case False
    then show ?thesis using by_id(2) [OF assms(1,2)] assms(4) by simp
  qed
qed

lemma by_id_range:
  assumes "upstreams_wf m" "no_collision m" "range_order ord"
  shows "map_of (index_by uId (map snd (ord m))) = map_of (index_by uId (map snd m))"
  using index_by_perm [OF wf_distinct_ids [OF assms(1,2)], of "map snd (ord m)"]
    range_order_mset [OF assms(3), of m]
  by (metis mset_map)

text \<open>The list of upstreams and the map by name built from it have the same upstreams by identifier.\<close>

lemma index_by_names:
  assumes "\<forall>u \<in> set us. uId u = GenID (uName u)" "inj_on GenID (uName ` set us)" "n \<in> uName ` set us"
  shows "map_of (index_by uId us) (GenID n) = map_of (index_by uName us) n"
  using assms
proof (induction us rule: rev_induct)
  case (snoc u us)
  show ?case
  proof (cases "n = uName u")
    case True
    with snoc.prems show ?thesis by (simp add: map_of_update)
  next
    case False
    with snoc.prems have n: "n \<in> uName ` set us" by auto
    have "GenID n \<noteq> GenID (uName u)"
      using False n inj_on_eq_iff [OF snoc.prems(2), of n "uName u"] by simp
    then have "GenID n \<noteq> uId u" using snoc.prems(1) by simp
    moreover have "inj_on GenID (uName ` set us)"
      using snoc.prems(2) by (auto intro: inj_on_subset)
    ultimately show ?thesis
      using False n snoc by (simp add: map_of_update)
  qed
qed simp

lemma wf_index_names:
  "\<forall>u \<in> set us. uId u = GenID (uName u) \<Longrightarrow> upstreams_wf (index_by uName us)"
  by (auto simp: upstreams_wf_def dest!: index_by_Some)

lemma by_id_index_names:
  assumes "\<forall>u \<in> set us. uId u = GenID (uName u)" "no_collision (index_by uName us)"
  shows "map_of (index_by uId (map snd (index_by uName us))) = map_of (index_by uId us)"
proof (rule by_id_eqI [OF wf_index_names [OF assms(1)] assms(2)])
  have d: "dom (map_of (index_by uName us)) = uName ` set us"
    using has_key_index_by [of uName us] by (auto simp: has_key_def)
  show "map_of (index_by uId us) (GenID k) = map_of (index_by uName us) k"
    if "k \<in> dom (map_of (index_by uName us))" for k
    using that assms index_by_names [of us k] unfolding d no_collision_def by blast
  show "map_of (index_by uId us) i = None"
    if "i \<notin> GenID ` dom (map_of (index_by uName us))" for i
  proof -
    have "i \<notin> uId ` set us" using that assms(1) unfolding d by auto
    then show ?thesis using has_key_index_by [of uId us i] by (simp add: has_key_def)
  qed
qed

subsection \<open>Batches that touch one kind of resource\<close>

lemma generateEvents_only_routes:
  "cUpstream (cache_after pl c (generateEvents pl (Some (zero_manifest\<lparr>mRoutes := new\<rparr>))
     (Some (zero_manifest\<lparr>mRoutes := old\<rparr>)))) = cUpstream c"
  by (simp add: generateEvents_eq DiffFrom_def CompareUpstreams_def compare_by_def zero_manifest_def
      manifest_Events_def Let_def split_beta)

lemma generateEvents_only_upstreams:
  "cRoute (cache_after pl c (generateEvents pl (Some (zero_manifest\<lparr>mUpstreams := new\<rparr>))
     (Some (zero_manifest\<lparr>mUpstreams := old\<rparr>)))) = cRoute c"
  by (simp add: generateEvents_eq DiffFrom_def CompareRoutes_def compare_by_def zero_manifest_def
      manifest_Events_def Let_def split_beta)

lemma generateEvents_zero: "generateEvents pl (Some zero_manifest) (Some zero_manifest) = []"
  by (simp add: generateEvents_eq DiffFrom_def CompareRoutes_def CompareUpstreams_def compare_by_def
      zero_manifest_def manifest_Events_def Let_def)

lemma zero_manifest_simps [simp]: "mRoutes zero_manifest = None" "mUpstreams zero_manifest = None"
  by (simp_all add: zero_manifest_def)

subsection \<open>Route configurations\<close>

lemma static_routes_dropped:
  "processStaticRouteConfigurations rt p rcs = Ret [] \<or> processStaticRouteConfigurations rt p rcs = Panic"
proof (induction rcs)
  case (Cons rc rcs)
  then show ?case
    by (cases "TranslateRouteConfiguration (rtHosts rt) rc
          (Some \<lparr>toRouteOriginalDestination = routeOwnership p\<rparr>)") auto
qed simp

text \<open>Whatever the static route configurations are, they add nothing (or panic).\<close>

lemma translate_rds_cases:
  assumes "translate_rds rt p resources = Ret res"
  obtains (reject) e where "rds_loop rt p resources None = Ret (Inl e)" "res = (p, Inl e)"
  | (accept) routes where "rds_loop rt p resources None = Ret (Inr routes)"
    "res = (p\<lparr>gpRoutes := routes\<rparr>, Inr (generateEvents (rtProto rt)
       (Some (zero_manifest\<lparr>mRoutes := routes\<rparr>)) (Some (zero_manifest\<lparr>mRoutes := gpRoutes p\<rparr>))))"
proof -
  from assms obtain r where r: "rds_loop rt p resources None = Ret r"
    by (auto simp: translate_rds_def go_bind_Ret_iff)
  show thesis
  proof (cases r)
    case (Inl e)
    with assms r reject show ?thesis by (simp add: translate_rds_def)
  next
    case (Inr routes)
    note r = r [unfolded this]
    show ?thesis
    proof (cases "staticRouteConfigurations p")
      case None
      with assms r accept show ?thesis by (simp add: translate_rds_def)
    next
      case (Some rcs)
      with assms r accept show ?thesis
        using static_routes_dropped [of rt p rcs] by (auto simp: translate_rds_def)
    qed
  qed
qed

subsection \<open>Clusters\<close>

lemma processClusterV3_frame:
  assumes "processClusterV3 rt p res = Ret (p', r)"
  shows "gpUpstreams p' = gpUpstreams p" "gpRoutes p' = gpRoutes p"
    "r = Inr (Some u) \<Longrightarrow> uId u = GenID (uName u)"
proof -
  have *: "gpUpstreams p' = gpUpstreams p \<and> gpRoutes p' = gpRoutes p
    \<and> (\<forall>u. r = Inr (Some u) \<longrightarrow> uId u = GenID (uName u))"
  proof (cases "dec_cluster (rtDec rt) res")
    case (Inr c)
    with assms obtain ups err where t: "TranslateCluster c = Ret (ups, err)"
      by (auto simp: processClusterV3_def go_bind_Ret_iff)
    have "ups = Some u \<Longrightarrow> uId u = GenID (uName u)" for u
      using TranslateCluster_name [of c u err] t by auto
    with assms Inr t show ?thesis
      by (cases err; cases "the err"; cases ups) (auto simp: processClusterV3_def)
  qed (use assms in \<open>auto simp: processClusterV3_def\<close>)
  then show "gpUpstreams p' = gpUpstreams p" "gpRoutes p' = gpRoutes p"
    "r = Inr (Some u) \<Longrightarrow> uId u = GenID (uName u)" by blast+
qed

lemma cds_loop_spec:
  assumes "cds_loop rt p resources ms (index_by uName (elems ms)) = Ret (p', r)"
    and "\<forall>u \<in> set (elems ms). uId u = GenID (uName u)"
  shows "gpUpstreams p' = gpUpstreams p \<and> gpRoutes p' = gpRoutes p
    \<and> (\<forall>ms' newUps. r = Inr (ms', newUps) \<longrightarrow>
          newUps = index_by uName (elems ms') \<and> (\<forall>u \<in> set (elems ms'). uId u = GenID (uName u)))"
  using assms
proof (induction resources arbitrary: p ms)
  case (Cons res rest)
  obtain p1 r1 where p1: "processClusterV3 rt p res = Ret (p1, r1)"
    using Cons.prems(1) by (cases "processClusterV3 rt p res") auto
  note frame = processClusterV3_frame [OF p1]
  show ?case
  proof (cases r1)
    case (Inl e)
    note r1 = p1 [unfolded this]
    show ?thesis
    proof (cases "e = TAdaptor ErrFeatureNotSupportedYet")
      case True
      then have "cds_loop rt p1 rest ms (index_by uName (elems ms)) = Ret (p', r)"
        using Cons.prems(1) r1 by simp
      from Cons.IH [OF this Cons.prems(2)] frame show ?thesis by simp
    next
      case False
      then have "p' = p1 \<and> r = Inl e" using Cons.prems(1) r1 by simp
      with frame show ?thesis by simp
    qed
  next
    case (Inr x)
    then obtain u where x: "r1 = Inr (Some u)" using Cons.prems(1) p1 by (cases x) auto
    with Cons.prems p1 have
      "cds_loop rt p1 rest (sappend ms [u]) (index_by uName (elems (sappend ms [u]))) = Ret (p', r)"
      by simp
    from Cons.IH [OF this] Cons.prems(2) frame x show ?thesis by simp
  qed
qed auto

lemma translate_cds_cases:
  assumes "translate_cds rt p resources = Ret (p', reqs, r)"
  obtains (reject) e where "r = Inl e" "reqs = []" "gpRoutes p' = gpRoutes p"
    "gpUpstreams p' = gpUpstreams p"
  | (accept) ms where "gpRoutes p' = gpRoutes p" "gpUpstreams p' = index_by uName (elems ms)"
    "\<forall>u \<in> set (elems ms). uId u = GenID (uName u)"
    "reqs = (if Equal (edsRequiredClusters p') (edsRequiredClusters p) then [] else sendEds rt p')"
    "r = Inr (generateEvents (rtProto rt) (Some (zero_manifest\<lparr>mUpstreams := ms\<rparr>))
       (Some (zero_manifest\<lparr>mUpstreams := sappend None (map snd (rtUpstreams rt (gpUpstreams p)))\<rparr>)))"
proof -
  let ?p0 = "p\<lparr>edsRequiredClusters := []\<rparr>"
  from assms obtain p1 r1 where l: "cds_loop rt ?p0 resources None [] = Ret (p1, r1)"
    by (auto simp: translate_cds_def Let_def go_bind_Ret_iff)
  then have "cds_loop rt ?p0 resources None (index_by uName (elems None)) = Ret (p1, r1)" by simp
  from cds_loop_spec [OF this] have spec: "gpUpstreams p1 = gpUpstreams p" "gpRoutes p1 = gpRoutes p"
    "\<And>ms newUps. r1 = Inr (ms, newUps) \<Longrightarrow> newUps = index_by uName (elems ms)
       \<and> (\<forall>u \<in> set (elems ms). uId u = GenID (uName u))"
    by simp_all
  show thesis
  proof (cases r1)
    case (Inl e)
    with assms l spec(1,2) reject show ?thesis by (auto simp: translate_cds_def Let_def)
  next
    case (Inr x)
    obtain ms newUps where x: "x = (ms, newUps)" by (cases x)
    note ms = spec(3) [OF Inr [unfolded x]]
    show ?thesis
      by (rule accept [of ms]) (use assms l spec(1,2) ms Inr x in \<open>auto simp: translate_cds_def Let_def\<close>)
  qed
qed

subsection \<open>Load assignments\<close>

text \<open>One load assignment replaces the upstream of its cluster by a clone with the new nodes.\<close>

lemma processCLA_cases:
  assumes "processClusterLoadAssignmentV3 rt p res = Ret (p', r)"
  obtains (reject) e where "r = Inl e" "p' = p"
  | (accept) k u nodes where "map_of (gpUpstreams p) k = Some u"
    "r = Inr ((clone_upstream (rtProto rt) u)\<lparr>uNodes := nodes\<rparr>)"
    "p' = p\<lparr>gpUpstreams := AList.update k ((clone_upstream (rtProto rt) u)\<lparr>uNodes := nodes\<rparr>) (gpUpstreams p)\<rparr>"
proof (cases "dec_assignment (rtDec rt) res")
  case (Inl e)
  with assms reject show ?thesis by (auto simp: processClusterLoadAssignmentV3_def)
next
  case (Inr cla)
  show ?thesis
  proof (cases "map_of (gpUpstreams p) (laClusterName cla)")
    case None
    with assms Inr reject show ?thesis by (auto simp: processClusterLoadAssignmentV3_def)
  next
    case (Some u)
    with assms Inr accept show ?thesis
      by (auto simp: processClusterLoadAssignmentV3_def go_bind_Ret_iff Let_def)
  qed
qed

definition update_event :: "upstream \<Rightarrow> event" where
  "update_event u = mk_event EventUpdate (OUpstream u) ONil"

lemma update_event_eq: "update_event u = upstream_event EventUpdate u"
  by (simp add: update_event_def upstream_event_def)

lemma update_agrees:
  assumes pl: "proto_ok pl" and wf: "upstreams_wf m" "no_collision m"
    and k: "k \<in> dom (map_of m)" and u: "uName u = k" "uId u = GenID k"
  shows "upstreams_agree pl c (map snd m) \<Longrightarrow>
      upstreams_agree pl (fst (reflect_event pl c (update_event u))) (map snd (AList.update k u m))"
    and "upstreams_wf (AList.update k u m)" and "no_collision (AList.update k u m)"
proof -
  note um = proto_okD(2) [OF pl]
  show wf': "upstreams_wf (AList.update k u m)" using wf(1) u by (rule upstreams_wf_update)
  show nc: "no_collision (AList.update k u m)"
    using wf(2) k by (simp add: no_collision_def map_of_update insert_absorb)
  have inj: "GenID j = GenID k \<longleftrightarrow> j = k" if "j \<in> dom (map_of m)" for j
    using wf(2) k that by (auto simp: no_collision_def inj_on_def)
  have "map_of (index_by uId (map snd (AList.update k u m))) =
      (map_of (index_by uId (map snd m)))(GenID k \<mapsto> u)"
    using k inj by_id [OF wf]
    by (intro by_id_eqI [OF wf' nc]) (auto simp: map_of_update)
  then show "upstreams_agree pl (fst (reflect_event pl c (update_event u))) (map snd (AList.update k u m))"
    if "upstreams_agree pl c (map snd m)"
    using that u(2) proto_message.clone_equal [OF um]
    by (auto simp: upstreams_agree_def update_event_eq reflect_upstream_view
        proto_message.ident_clone [OF um])
qed

lemma eds_loop_spec:
  assumes "eds_loop rt p resources ms = Ret (p', Inr ms')" "rt_ok rt"
    "upstreams_wf (gpUpstreams p)" "no_collision (gpUpstreams p)"
  shows "\<exists>us. ms' = ms @ us \<and> gpRoutes p' = gpRoutes p
    \<and> upstreams_wf (gpUpstreams p') \<and> no_collision (gpUpstreams p')
    \<and> (\<forall>c. upstreams_agree (rtProto rt) c (map snd (gpUpstreams p)) \<longrightarrow>
          upstreams_agree (rtProto rt) (cache_after (rtProto rt) c (map update_event us))
            (map snd (gpUpstreams p')))"
  using assms(1,3,4)
proof (induction resources arbitrary: p ms)
  case (Cons res rest)
  have pl: "proto_ok (rtProto rt)" using assms(2) by (simp add: rt_ok_def)
  obtain p1 r1 where p1: "processClusterLoadAssignmentV3 rt p res = Ret (p1, r1)"
    using Cons.prems(1) by (cases "processClusterLoadAssignmentV3 rt p res") auto
  from p1 show ?case
  proof (cases rule: processCLA_cases)
    case (reject e)
    with Cons.prems(1) p1 show ?thesis by simp
  next
    case (accept k u nodes)
    let ?u = "(clone_upstream (rtProto rt) u)\<lparr>uNodes := nodes\<rparr>"
    have k: "k \<in> dom (map_of (gpUpstreams p))" using accept by blast
    have u: "uName ?u = k" "uId ?u = GenID k"
      using accept(1) assms(2) Cons.prems(2) proto_message.ident_clone [OF proto_okD(2) [OF pl]]
      by (auto simp: rt_ok_def upstreams_wf_def)
    note step = update_agrees [OF pl Cons.prems(2,3) k u]
    have "AList.update k ?u (AList.update k ?u (gpUpstreams p)) = AList.update k ?u (gpUpstreams p)"
      by (rule update_triv) (simp add: map_of_update)
    then have "eds_loop rt (p\<lparr>gpUpstreams := AList.update k ?u (gpUpstreams p)\<rparr>) rest (ms @ [?u])
        = Ret (p', Inr ms')"
      using Cons.prems(1) p1 accept u by simp
    then have "\<exists>us. ms' = (ms @ [?u]) @ us \<and> gpRoutes p' = gpRoutes p
        \<and> upstreams_wf (gpUpstreams p') \<and> no_collision (gpUpstreams p')
        \<and> (\<forall>c. upstreams_agree (rtProto rt) c (map snd (AList.update k ?u (gpUpstreams p))) \<longrightarrow>
              upstreams_agree (rtProto rt) (cache_after (rtProto rt) c (map update_event us))
                (map snd (gpUpstreams p')))"
      using Cons.IH [of "p\<lparr>gpUpstreams := AList.update k ?u (gpUpstreams p)\<rparr>" "ms @ [?u]"] step(2,3)
      by simp
    then obtain us where us: "ms' = ms @ ?u # us" "gpRoutes p' = gpRoutes p"
      "upstreams_wf (gpUpstreams p')" "no_collision (gpUpstreams p')"
      "\<And>c. upstreams_agree (rtProto rt) c (map snd (AList.update k ?u (gpUpstreams p))) \<Longrightarrow>
         upstreams_agree (rtProto rt) (cache_after (rtProto rt) c (map update_event us))
           (map snd (gpUpstreams p'))"
      by auto
    show ?thesis
      by (rule exI [of _ "?u # us"]) (use us step(1) in simp)
  qed
qed auto

lemma update_events_routes: "cRoute (cache_after pl c (map update_event us)) = cRoute c"
  using cache_after_upstreams_other [of pl c EventUpdate us] by (simp add: update_event_eq cong: map_cong)

lemma translate_eds_accept:
  assumes "translate_eds rt p resources = Ret (p', Inr evs)"
  shows "\<exists>ms. eds_loop rt p resources [] = Ret (p', Inr ms) \<and> evs = map update_event ms"
proof -
  from assms obtain p1 r where r: "eds_loop rt p resources [] = Ret (p1, r)"
    by (auto simp: translate_eds_def go_bind_Ret_iff)
  with assms show ?thesis
    by (cases r) (auto simp: translate_eds_def update_event_def [abs_def])
qed

subsection \<open>One accepted response\<close>

lemma translate_lds_frame:
  assumes "translate_lds rt p resources = (p', reqs, r)"
  shows "gpRoutes p' = gpRoutes p \<and> gpUpstreams p' = gpUpstreams p \<and> (\<forall>evs. r = Inr evs \<longrightarrow> evs = [])"
  using assms by (auto simp: translate_lds_def generateEvents_zero split: sum.splits)

lemma agrees_cong:
  "cRoute c = cRoute c' \<Longrightarrow> routes_agree pl c rs = routes_agree pl c' rs"
  "cUpstream c = cUpstream c' \<Longrightarrow> upstreams_agree pl c us = upstreams_agree pl c' us"
  by (simp_all add: routes_agree_def upstreams_agree_def)

lemma translate_cases:
  assumes "translate rt p resp = Ret (p', reqs, r)"
  obtains (rds) "drTypeUrl resp = RouteConfigurationUrl" "reqs = []"
      "translate_rds rt p (drResources resp) = Ret (p', r)"
  | (cds) "drTypeUrl resp = ClusterUrl" "translate_cds rt p (drResources resp) = Ret (p', reqs, r)"
  | (eds) "drTypeUrl resp = ClusterLoadAssignmentUrl" "reqs = []"
      "translate_eds rt p (drResources resp) = Ret (p', r)"
  | (lds) "drTypeUrl resp = ListenerUrl" "translate_lds rt p (drResources resp) = (p', reqs, r)"
  | (unknown) "p' = p" "reqs = []" "r = Inl ErrUnknownResourceTypeUrl"
      "drTypeUrl resp \<notin> {RouteConfigurationUrl, ClusterUrl, ClusterLoadAssignmentUrl, ListenerUrl}"
  using assms by (auto simp: translate_def go_bind_Ret_iff split: if_splits)

lemma translate_accept_agrees:
  assumes "translate rt p resp = Ret (p', reqs, Inr evs)" "rt_ok rt"
    and wf: "upstreams_wf (gpUpstreams p)" "no_collision (gpUpstreams p)" "no_collision (gpUpstreams p')"
    and ag: "state_agrees (rtProto rt) c p"
  shows "state_agrees (rtProto rt) (cache_after (rtProto rt) c evs) p'" and "upstreams_wf (gpUpstreams p')"
proof -
  have pl: "proto_ok (rtProto rt)" and ro: "range_order (rtUpstreams rt)"
    using assms(2) by (simp_all add: rt_ok_def)
  have "state_agrees (rtProto rt) (cache_after (rtProto rt) c evs) p' \<and> upstreams_wf (gpUpstreams p')"
    using assms(1)
  proof (cases rule: translate_cases)
    case rds
    from rds(3) obtain routes where p': "p' = p\<lparr>gpRoutes := routes\<rparr>"
      and evs: "evs = generateEvents (rtProto rt) (Some (zero_manifest\<lparr>mRoutes := routes\<rparr>))
        (Some (zero_manifest\<lparr>mRoutes := gpRoutes p\<rparr>))"
      by (cases rule: translate_rds_cases) auto
    from ag pl generateEvents_routes [of "rtProto rt" c "zero_manifest\<lparr>mRoutes := gpRoutes p\<rparr>"
        "zero_manifest\<lparr>mRoutes := routes\<rparr>"]
    show ?thesis
      using wf(1) agrees_cong(2) [OF generateEvents_only_routes]
      by (auto simp: state_agrees_def p' evs)
  next
    case cds
    from cds(2) obtain ms where ms: "gpRoutes p' = gpRoutes p" "gpUpstreams p' = index_by uName (elems ms)"
      "\<forall>u \<in> set (elems ms). uId u = GenID (uName u)"
      and evs: "evs = generateEvents (rtProto rt) (Some (zero_manifest\<lparr>mUpstreams := ms\<rparr>))
       (Some (zero_manifest\<lparr>mUpstreams := sappend None (map snd (rtUpstreams rt (gpUpstreams p)))\<rparr>))"
      by (cases rule: translate_cds_cases) auto
    have "upstreams_agree (rtProto rt) c (map snd (rtUpstreams rt (gpUpstreams p)))"
      using ag by_id_range [OF wf(1,2) ro] by (simp add: state_agrees_def upstreams_agree_def)
    then have "upstreams_agree (rtProto rt) (cache_after (rtProto rt) c evs) (elems ms)"
      using generateEvents_upstreams [OF pl, of c "zero_manifest\<lparr>mUpstreams := sappend None (map snd (rtUpstreams rt (gpUpstreams p)))\<rparr>"
        "zero_manifest\<lparr>mUpstreams := ms\<rparr>"] by (simp add: evs)
    moreover have "map_of (index_by uId (map snd (gpUpstreams p'))) = map_of (index_by uId (elems ms))"
      using by_id_index_names [OF ms(3)] wf(3) by (simp add: ms(2))
    moreover have "routes_agree (rtProto rt) (cache_after (rtProto rt) c evs) (elems (gpRoutes p'))"
      using ag agrees_cong(1) [OF generateEvents_only_upstreams] by (simp add: state_agrees_def ms(1) evs)
    ultimately show ?thesis
      using wf_index_names [OF ms(3)] by (simp add: state_agrees_def upstreams_agree_def ms(2))
  next
    case eds
    then obtain us where us: "eds_loop rt p (drResources resp) [] = Ret (p', Inr us)"
      "evs = map update_event us"
      using translate_eds_accept by blast
    from eds_loop_spec [OF us(1) assms(2) wf(1,2)] ag show ?thesis
      using agrees_cong(1) [OF update_events_routes] by (auto simp: state_agrees_def us(2))
  next
    case lds
    with translate_lds_frame [OF lds(2)] ag wf(1) show ?thesis by (simp add: state_agrees_def)
  qed simp
  then show "state_agrees (rtProto rt) (cache_after (rtProto rt) c evs) p'"
    and "upstreams_wf (gpUpstreams p')" by blast+
qed

lemma translate_reject_frame:
  assumes "translate rt p resp = Ret (p', reqs, Inl e)" "drTypeUrl resp \<noteq> ClusterLoadAssignmentUrl"
  shows "gpRoutes p' = gpRoutes p" "gpUpstreams p' = gpUpstreams p" "reqs = []"
proof -
  have "gpRoutes p' = gpRoutes p \<and> gpUpstreams p' = gpUpstreams p \<and> reqs = []"
    using assms(1)
  proof (cases rule: translate_cases)
    case rds
    from rds(3,2) show ?thesis by (cases rule: translate_rds_cases) auto
  next
    case cds
    from cds(2) show ?thesis by (cases rule: translate_cds_cases) auto
  next
    case lds
    then show ?thesis by (auto simp: translate_lds_def split: sum.splits)
  qed (use assms(2) in auto)
  then show "gpRoutes p' = gpRoutes p" "gpUpstreams p' = gpUpstreams p" "reqs = []" by blast+
qed

subsection \<open>The invariant of the system\<close>

lemma synced_invariant:
  assumes "synced pl p c"
  shows "state_agrees pl c p \<and> cache_ok c \<and> upstreams_wf (gpUpstreams p) \<and> no_collision (gpUpstreams p)"
  using assms
proof induction
  case start
  show ?case
    by (simp add: state_agrees_def NewGrpcProvisioner_def NewInMemoryCache_def newRoute_def
        newUpstream_def routes_agree_def upstreams_agree_def no_collision_def cache_ok_def)
next
  case (accept p c rt resp p' reqs evs)
  then show ?case
    using translate_accept_agrees [of rt p resp p' reqs evs c] cache_after_ok by blast
next
  case (reject p c resp rt p' reqs e)
  then show ?case
    using translate_reject_frame [of rt p resp p' reqs e] by (simp add: state_agrees_def)
qed

section \<open>An instance of the runtime\<close>

text \<open>
  A decoder that reads the type of a message off its bytes: clusters \<open>''s''\<close> (static, one
  endpoint) and \<open>''e''\<close> (EDS), a load assignment for \<open>''e''\<close>, anything else does not decode.
\<close>

definition example_endpoint :: lb_endpoint where
  "example_endpoint = \<lparr>epWeight = None, epHost = Endpoint (Some (SocketAddress
     \<lparr>saProtocol = TCP, saAddress = ''10.0.0.1'', saPort = PortValue 80\<rparr>))\<rparr>"

definition example_cluster :: "string \<Rightarrow> discovery_type \<Rightarrow> cluster" where
  "example_cluster name t = \<lparr>clName = name, clLbPolicy = ROUND_ROBIN, clConnectTimeout = None,
     clDiscovery = DiscType t, clLoadAssignment = None\<rparr>"

definition example_runtime :: runtime where
  "example_runtime = \<lparr>rtProto = std_lib,
     rtDec = \<lparr>dec_listener = (\<lambda>_. Inl (DecodeError '''')), dec_hcm = (\<lambda>_. Inl (DecodeError '''')),
       dec_route = (\<lambda>_. Inr \<lparr>rcName = ''80'', rcVirtualHosts = []\<rparr>),
       dec_cluster = (\<lambda>m. if aValue m = ''e'' then Inr (example_cluster ''e'' EDS)
                          else if aValue m = ''s'' then Inr (example_cluster ''s'' STATIC)
                          else Inl (DecodeError ''cluster'')),
       dec_assignment = (\<lambda>m. if aValue m = ''e''
          then Inr \<lparr>laClusterName = ''e'', laEndpoints = [\<lparr>lwWeight = None, lwEndpoints = [example_endpoint]\<rparr>]\<rparr>
          else Inl (DecodeError ''assignment''))\<rparr>,
     rtHcm = ''hcm'', rtHosts = rev, rtUpstreams = rev, rtEds = rev, rtOwners = rev\<rparr>"

lemma example_runtime_ok [simp]: "rt_ok example_runtime" "rtProto example_runtime = std_lib"
  by (simp_all add: rt_ok_def example_runtime_def)
    (simp add: std_lib_def std_clone_upstream_def)

definition resource :: "string \<Rightarrow> any_msg" where
  "resource v = \<lparr>aTypeUrl = '''', aValue = v\<rparr>"

definition response :: "string \<Rightarrow> string list \<Rightarrow> discovery_response" where
  "response url vs = \<lparr>drTypeUrl = url, drVersionInfo = ''v1'', drNonce = ''n1'', drResources = map resource vs\<rparr>"

definition upstream_e :: "node slice \<Rightarrow> upstream" where
  "upstream_e nodes = zero_upstream\<lparr>uName := ''e'', uId := GenID ''e'', uNodes := nodes, uType := ''roundrobin''\<rparr>"

definition eds_state :: "node slice \<Rightarrow> grpc_provisioner" where
  "eds_state nodes = NewGrpcProvisioner\<lparr>gpUpstreams := [(''e'', upstream_e nodes)],
     edsRequiredClusters := [(''e'', ())]\<rparr>"

lemma TranslateCluster_e: "TranslateCluster (example_cluster ''e'' EDS) = Ret (Some (upstream_e (Some [])), Some ErrRequireFurtherEDS)"
  by (simp add: TranslateCluster_eq unsupported_def example_cluster_def GetType_def base_upstream_def
      upstream_e_def zero_upstream_def)

definition example_node :: node where
  "example_node = \<lparr>nHost = ''10.0.0.1'', nPort = 80, nWeight = 100, nMetadata = []\<rparr>"

lemma process_e:
  "processClusterV3 example_runtime p (resource ''e'') =
     Ret (p\<lparr>edsRequiredClusters := AList.update ''e'' () (edsRequiredClusters p)\<rparr>, Inr (Some (upstream_e (Some []))))"
  by (simp add: processClusterV3_def example_runtime_def resource_def TranslateCluster_e Add_def
      upstream_e_def)

lemma assign_e:
  "map_of (gpUpstreams p) ''e'' = Some (upstream_e nodes) \<Longrightarrow>
   processClusterLoadAssignmentV3 example_runtime p (resource ''e'') =
     Ret (p\<lparr>gpUpstreams := AList.update ''e'' (upstream_e (Some [example_node])) (gpUpstreams p)\<rparr>,
       Inr (upstream_e (Some [example_node])))"
  by (simp add: processClusterLoadAssignmentV3_def example_runtime_def resource_def
      TranslateClusterLoadAssignment_def translateLocality_def translateEndpoint_def example_endpoint_def
      std_lib_def std_clone_upstream_def upstream_e_def example_node_def zero_node_def
      int32_of_uint32_def sappend_def zero_upstream_def Let_def)

lemma upstream_e_simps [simp]: "uName (upstream_e nodes) = ''e''" "uId (upstream_e nodes) = GenID ''e''"
  by (simp_all add: upstream_e_def)

section \<open>Properties\<close>

text \<open>C4: the provisioner keeps the cache in step. In every state the system of provisioner and cache
  reaches by accepting responses (with cluster names of different checksums) and rejecting others than
  load assignments, the cache holds exactly the routes and the upstreams the provisioner knows, under
  their identifiers, and is well-formed.\<close>

theorem provisioner_cache_agreement:
  assumes "synced pl p c"
  shows "routes_agree pl c (elems (gpRoutes p)) \<and> upstreams_agree pl c (map snd (gpUpstreams p)) \<and> cache_ok c"
  using synced_invariant [OF assms] by (simp add: state_agrees_def)

lemma translate_example_cds:
  "translate example_runtime NewGrpcProvisioner (response ClusterUrl [''e'']) =
     Ret (eds_state (Some []), sendEds example_runtime (eds_state (Some [])),
       Inr (generateEvents std_lib (Some (zero_manifest\<lparr>mUpstreams := Some [upstream_e (Some [])]\<rparr>))
         (Some (zero_manifest\<lparr>mUpstreams := None\<rparr>))))"
  by (simp add: translate_def response_def translate_cds_def process_e NewGrpcProvisioner_def eds_state_def
      example_runtime_def [THEN arg_cong [where f = rtUpstreams]] Equal_def sappend_def Let_def)

lemma provisioner_cache_agreement_witness:
  "\<exists>c. synced std_lib (eds_state (Some [])) c \<and> upstreams_agree std_lib c [upstream_e (Some [])]"
proof -
  have "no_collision (gpUpstreams (eds_state (Some [])))"
    by (simp add: no_collision_def eds_state_def)
  with synced.accept [OF synced.start example_runtime_ok translate_example_cds]
  obtain c where c: "synced std_lib (eds_state (Some [])) c" by blast
  from provisioner_cache_agreement [OF c] have "upstreams_agree std_lib c [upstream_e (Some [])]"
    by (simp add: eds_state_def)
  with c show ?thesis by blast
qed

text \<open>Load assignments are not translated atomically. When a later one in a response is rejected, the
  earlier ones stay in the provisioner's state although no event is sent: from an agreeing cache the
  provisioner moves to a state the cache does not agree with, and the response is refused.\<close>

theorem eds_reject_diverges:
  "\<exists>p c p' e. synced std_lib p c
     \<and> translate example_runtime p (response ClusterLoadAssignmentUrl [''e'', ''x'']) = Ret (p', [], Inl e)
     \<and> \<not> upstreams_agree std_lib c (map snd (gpUpstreams p'))"
proof -
  have "no_collision (gpUpstreams (eds_state (Some [])))"
    by (simp add: no_collision_def eds_state_def)
  with synced.accept [OF synced.start example_runtime_ok translate_example_cds]
  obtain c where c: "synced std_lib (eds_state (Some [])) c" by blast
  have m: "map_of (gpUpstreams (eds_state ns)) ''e'' = Some (upstream_e ns)" for ns
    by (simp add: eds_state_def)
  have t: "translate example_runtime (eds_state (Some [])) (response ClusterLoadAssignmentUrl [''e'', ''x'']) =
      Ret (eds_state (Some [example_node]), [], Inl (TDecode (DecodeError ''assignment'')))"
    using assign_e [OF m, of "Some []"]
    by (simp add: translate_def response_def translate_eds_def)
      (simp add: eds_state_def processClusterLoadAssignmentV3_def example_runtime_def resource_def)
  have "\<not> upstreams_agree std_lib c (map snd (gpUpstreams (eds_state (Some [example_node]))))"
  proof
    assume a: "upstreams_agree std_lib c (map snd (gpUpstreams (eds_state (Some [example_node]))))"
    have b: "upstreams_agree std_lib c (map snd (gpUpstreams (eds_state (Some []))))"
      using synced_invariant [OF c] by (simp add: state_agrees_def)
    from a b obtain x where "equal_upstream std_lib x (upstream_e (Some [example_node]))"
      "equal_upstream std_lib x (upstream_e (Some []))"
      unfolding upstreams_agree_def eds_state_def index_by_def
      by (auto dest!: spec [of _ "GenID ''e''"] elim!: option.rel_cases)
    then have "uNodes (std_clone_upstream (upstream_e (Some [example_node]))) =
        uNodes (std_clone_upstream (upstream_e (Some [])))"
      by (simp add: std_lib_def)
    then show False
      by (simp add: std_clone_upstream_def upstream_e_def norm_slice_def sappend_def)
  qed
  with c t show ?thesis by blast
qed

text \<open>Static route configurations are translated and dropped: whatever they are, an accepted route
  response leaves the provisioner with the routes of its own resources only, as if there were none.\<close>

theorem static_routes_are_dropped:
  assumes "translate_rds rt p resources = Ret (p', Inr evs)"
  shows "translate_rds rt (p\<lparr>staticRouteConfigurations := None\<rparr>) resources =
    Ret (p'\<lparr>staticRouteConfigurations := None\<rparr>, Inr evs)"
  using assms
proof (cases rule: translate_rds_cases)
  case (accept routes)
  have "rds_loop rt (p\<lparr>staticRouteConfigurations := None\<rparr>) res rs = rds_loop rt p res rs" for res rs
    by (induction res arbitrary: rs) (simp_all add: processRouteConfigurationV3_def cong: sum.case_cong)
  with accept show ?thesis by (simp add: translate_rds_def)
qed simp

lemma static_routes_are_dropped_witness:
  "translate_rds example_runtime (NewGrpcProvisioner\<lparr>staticRouteConfigurations := None\<rparr>) [resource ''r''] =
     Ret (NewGrpcProvisioner\<lparr>staticRouteConfigurations := None, gpRoutes := None\<rparr>, Inr [])"
proof -
  let ?p = "NewGrpcProvisioner\<lparr>staticRouteConfigurations := Some [example_configuration]\<rparr>"
  have e: "generateEvents pl (Some (zero_manifest\<lparr>mRoutes := None\<rparr>)) (Some (zero_manifest\<lparr>mRoutes := None\<rparr>)) = []" for pl
    using generateEvents_zero by (simp add: zero_manifest_def)
  have "\<exists>y. TranslateRouteConfiguration rev example_configuration
      (Some \<lparr>toRouteOriginalDestination = None\<rparr>) = Ret [y]"
    by (simp add: TranslateRouteConfiguration_def example_configuration_def translateVirtualHost_def
        translateRoute_def getClusterName_def getURL_def getParametersMatchVars_def getHeadersMatchVars_def Let_def)
  then have "translate_rds example_runtime ?p [resource ''r''] = Ret (?p\<lparr>gpRoutes := None\<rparr>, Inr [])"
    by (auto simp: translate_rds_def processRouteConfigurationV3_def example_runtime_def
        TranslateRouteConfiguration_def [of _ "\<lparr>rcName = ''80'', rcVirtualHosts = []\<rparr>"] NewGrpcProvisioner_def e)
  from static_routes_are_dropped [OF this] show ?thesis by simp
qed

end
