(* ===== verification/Grpc_Facts.thy ===== *)
theory Grpc_Facts
  imports Grpc_Sync
begin

text \<open>
  What the gRPC provisioner says to its server: one answer to every response, requests for the
  load assignments and route configurations it needs, and what the routes and upstreams it
  keeps are made of.
\<close>

section \<open>Specification\<close>

text \<open>The clusters of a CDS response that become upstreams, and those that wait for EDS.\<close>

definition usable_clusters :: "runtime \<Rightarrow> any_msg list \<Rightarrow> cluster set" where
  "usable_clusters rt resources =
     {c. (\<exists>res \<in> set resources. dec_cluster (rtDec rt) res = Inr c) \<and> \<not> unsupported c}"

definition eds_clusters :: "runtime \<Rightarrow> any_msg list \<Rightarrow> cluster set" where
  "eds_clusters rt resources = {c \<in> usable_clusters rt resources. GetType c = EDS}"

text \<open>Who claims which route configuration, in the order of the listeners of an LDS response.\<close>

definition listener_part ::
    "runtime \<Rightarrow> any_msg \<Rightarrow> string \<times> string list \<times> route_configuration list" where
  "listener_part rt res =
     (case dec_listener (rtDec rt) res of
        Inl _ \<Rightarrow> ('''', [], [])
      | Inr l \<Rightarrow>
          (case listen_addr l of
             None \<Rightarrow> ('''', [], [])
           | Some addr \<Rightarrow>
               (case CollectRouteNamesAndConfigs (rtDec rt) (rtHcm rt) l of
                  Inl _ \<Rightarrow> ('''', [], [])
                | Inr (names, cfgs) \<Rightarrow> (addr, names, cfgs))))"

definition claims :: "runtime \<Rightarrow> any_msg list \<Rightarrow> (string \<times> string) list" where
  "claims rt resources = concat (map (\<lambda>res. case listener_part rt res of
     (addr, names, cfgs) \<Rightarrow> map (\<lambda>n. (n, addr)) (names @ map rcName cfgs)) resources)"

text \<open>The answers among the requests, and whether one is a refusal.\<close>

definition answers :: "discovery_request list \<Rightarrow> discovery_request list" where
  "answers reqs = filter (\<lambda>q. dqResponseNonce q \<noteq> '''') reqs"

section \<open>Lemmas\<close>

subsection \<open>Answers\<close>

lemma discovery_for_nonce [simp]: "dqResponseNonce (discovery_for url names) = ''''"
  by (simp add: discovery_for_def)

lemma translate_no_answers:
  assumes "translate rt p resp = Ret (p', reqs, r)"
  shows "answers reqs = []"
  using assms
proof (cases rule: translate_cases)
  case cds
  from cds(2) show ?thesis
    by (cases rule: translate_cds_cases) (auto simp: answers_def sendEds_def)
next
  case lds
  then show ?thesis by (auto simp: translate_lds_def trySendRds_def answers_def split: sum.splits)
qed (simp_all add: answers_def)

lemma step_answer:
  assumes "translateLoop_step rt (p, ver) resp = Ret ((p', ver'), reqs, batch)"
  obtains reqs' r where "translate rt p resp = Ret (p', reqs', r)"
    "batch = (case r of Inl _ \<Rightarrow> None | Inr evs \<Rightarrow> Some evs)"
    "ver' = (if batch = None then ver else drVersionInfo resp)"
    "reqs = reqs' @ [\<lparr>dqTypeUrl = drTypeUrl resp, dqResourceNames = ack_names rt p (drTypeUrl resp),
       dqVersionInfo = ver', dqResponseNonce = drNonce resp, dqErrorDetail = (batch = None)\<rparr>]"
proof -
  from assms obtain p1 reqs1 r where t: "translate rt p resp = Ret (p1, reqs1, r)"
    by (auto simp: translateLoop_step_def Let_def go_bind_Ret_iff)
  show thesis
    by (rule that [of reqs1 r])
      (use assms t in \<open>cases r; auto simp: translateLoop_step_def Let_def\<close>)+
qed

lemma loop_answers:
  assumes "translateLoop (p, ver) resps = Ret ((p', ver'), reqs, batches)"
    "\<forall>(rt, resp) \<in> set resps. drNonce resp \<noteq> ''''"
  shows "map (\<lambda>q. (dqTypeUrl q, dqResponseNonce q)) (answers reqs) =
      map (\<lambda>(rt, resp). (drTypeUrl resp, drNonce resp)) resps
    \<and> length batches = length (filter (\<lambda>q. \<not> dqErrorDetail q) (answers reqs))"
  using assms
proof (induction resps arbitrary: p ver reqs batches)
  case (Cons x resps)
  obtain rt resp where x: "x = (rt, resp)" by (cases x)
  from Cons.prems(1) x obtain p1 ver1 reqs1 batch reqs2 batches2
    where s: "translateLoop_step rt (p, ver) resp = Ret ((p1, ver1), reqs1, batch)"
      and l: "translateLoop (p1, ver1) resps = Ret ((p', ver'), reqs2, batches2)"
      and o: "reqs = reqs1 @ reqs2" "batches = (case batch of None \<Rightarrow> batches2 | Some evs \<Rightarrow> evs # batches2)"
    by (auto simp: go_bind_Ret_iff)
  from s obtain reqs' r where t: "translate rt p resp = Ret (p1, reqs', r)"
    "reqs1 = reqs' @ [\<lparr>dqTypeUrl = drTypeUrl resp, dqResourceNames = ack_names rt p (drTypeUrl resp),
       dqVersionInfo = ver1, dqResponseNonce = drNonce resp, dqErrorDetail = (batch = None)\<rparr>]"
    by (rule step_answer)
  have "answers reqs' = []" using translate_no_answers [OF t(1)] .
  then have a: "answers reqs = \<lparr>dqTypeUrl = drTypeUrl resp, dqResourceNames = ack_names rt p (drTypeUrl resp),
       dqVersionInfo = ver1, dqResponseNonce = drNonce resp, dqErrorDetail = (batch = None)\<rparr> # answers reqs2"
    using Cons.prems(2) x t(2) o(1) by (simp add: answers_def)
  from Cons.IH [OF l] Cons.prems(2) show ?case
    by (cases batch) (simp_all add: a o(2) x)
qed (simp add: answers_def)

subsection \<open>Clusters\<close>

lemma processClusterV3_accept:
  assumes "processClusterV3 rt p res = Ret (p', Inr (Some u))"
  obtains c where "dec_cluster (rtDec rt) res = Inr c" "\<not> unsupported c"
    "uName u = clName c" "GetType c = EDS \<longrightarrow> u = base_upstream c"
    "p' = (if GetType c = EDS then p\<lparr>edsRequiredClusters := Add (edsRequiredClusters p) (clName c)\<rparr> else p)"
proof (cases "dec_cluster (rtDec rt) res")
  case (Inl e)
  with assms show ?thesis by (auto simp: processClusterV3_def)
next
  case (Inr c)
  from assms Inr have ns: "\<not> unsupported c"
    by (auto simp: processClusterV3_def TranslateCluster_eq)
  show ?thesis
  proof (cases "GetType c = EDS")
    case True
    then have t: "TranslateCluster c = Ret (Some (base_upstream c), Some ErrRequireFurtherEDS)"
      using ns by (simp add: TranslateCluster_eq)
    show ?thesis
      by (rule that [OF Inr ns]) (use assms Inr True t in \<open>auto simp: processClusterV3_def\<close>)
  next
    case False
    then have "TranslateCluster c = go_bind (TranslateClusterLoadAssignment (clLoadAssignment c))
        (\<lambda>nodes. Ret (Some (base_upstream c\<lparr>uNodes := nodes\<rparr>), None))"
      using ns by (simp add: TranslateCluster_eq)
    with assms Inr obtain nodes where "u = base_upstream c\<lparr>uNodes := nodes\<rparr>" "p' = p"
      by (auto simp: processClusterV3_def go_bind_Ret_iff)
    with False that [OF Inr ns] show ?thesis by simp
  qed
qed

lemma processClusterV3_skip:
  assumes "processClusterV3 rt p res = Ret (p', Inl (TAdaptor e))"
  shows "p' = p" and "dec_cluster (rtDec rt) res = Inr c \<Longrightarrow> unsupported c"
proof -
  have "p' = p \<and> (\<forall>c. dec_cluster (rtDec rt) res = Inr c \<longrightarrow> unsupported c)"
  proof (cases "dec_cluster (rtDec rt) res")
    case (Inr c)
    then show ?thesis
      using assms by (cases "unsupported c"; cases "GetType c = EDS")
        (auto simp: processClusterV3_def TranslateCluster_eq go_bind_Ret_iff)
  qed (use assms in \<open>auto simp: processClusterV3_def\<close>)
  then show "p' = p" and "dec_cluster (rtDec rt) res = Inr c \<Longrightarrow> unsupported c" by blast+
qed

text \<open>The result of the loop over the clusters of an accepted response.\<close>

lemma cds_loop_clusters:
  assumes "cds_loop rt p resources ms newUps = Ret (p', Inr (ms', newUps'))"
  shows "set_of (edsRequiredClusters p') =
      set_of (edsRequiredClusters p) \<union> clName ` eds_clusters rt resources"
    and "gm_ok (edsRequiredClusters p) \<Longrightarrow> gm_ok (edsRequiredClusters p')"
    and "dom (map_of newUps') = dom (map_of newUps) \<union> clName ` usable_clusters rt resources"
    and "staticRouteConfigurations p' = staticRouteConfigurations p" "routeOwnership p' = routeOwnership p"
proof -
  have "set_of (edsRequiredClusters p') =
      set_of (edsRequiredClusters p) \<union> clName ` eds_clusters rt resources
    \<and> (gm_ok (edsRequiredClusters p) \<longrightarrow> gm_ok (edsRequiredClusters p'))
    \<and> dom (map_of newUps') = dom (map_of newUps) \<union> clName ` usable_clusters rt resources
    \<and> staticRouteConfigurations p' = staticRouteConfigurations p \<and> routeOwnership p' = routeOwnership p"
    using assms
  proof (induction resources arbitrary: p ms newUps)
    case Nil
    then show ?case by (simp add: eds_clusters_def usable_clusters_def)
  next
    case (Cons res rest)
    obtain p1 r1 where p1: "processClusterV3 rt p res = Ret (p1, r1)"
      using Cons.prems by (cases "processClusterV3 rt p res") auto
    show ?case
    proof (cases r1)
      case (Inl e)
      with Cons.prems p1 have e: "e = TAdaptor ErrFeatureNotSupportedYet"
        and l: "cds_loop rt p1 rest ms newUps = Ret (p', Inr (ms', newUps'))"
        by (auto split: if_splits)
      note skip = processClusterV3_skip [OF p1 [unfolded Inl e]]
      have "usable_clusters rt (res # rest) = usable_clusters rt rest"
        using skip(2) by (auto simp: usable_clusters_def)
      with Cons.IH [OF l] show ?thesis by (simp add: skip(1) eds_clusters_def)
    next
      case (Inr x)
      then obtain u where x: "r1 = Inr (Some u)" using Cons.prems p1 by (cases x) auto
      with Cons.prems p1 have l: "cds_loop rt p1 rest (sappend ms [u]) (AList.update (uName u) u newUps)
          = Ret (p', Inr (ms', newUps'))" by simp
      from p1 [unfolded x] obtain c where c: "dec_cluster (rtDec rt) res = Inr c" "\<not> unsupported c"
        "uName u = clName c"
        "p1 = (if GetType c = EDS then p\<lparr>edsRequiredClusters := Add (edsRequiredClusters p) (clName c)\<rparr> else p)"
        by (rule processClusterV3_accept)
      have us: "usable_clusters rt (res # rest) = insert c (usable_clusters rt rest)"
        using c(1,2) by (auto simp: usable_clusters_def)
      have es: "eds_clusters rt (res # rest) =
          (if GetType c = EDS then insert c (eds_clusters rt rest) else eds_clusters rt rest)"
        by (auto simp: eds_clusters_def us)
      have "dom (map_of (AList.update (uName u) u newUps)) = insert (clName c) (dom (map_of newUps))"
        by (simp add: map_of_update c(3))
      with Cons.IH [OF l] c(4) show ?thesis by (simp add: us es)
    qed
  qed
  then show "set_of (edsRequiredClusters p') =
      set_of (edsRequiredClusters p) \<union> clName ` eds_clusters rt resources"
    and "gm_ok (edsRequiredClusters p) \<Longrightarrow> gm_ok (edsRequiredClusters p')"
    and "dom (map_of newUps') = dom (map_of newUps) \<union> clName ` usable_clusters rt resources"
    and "staticRouteConfigurations p' = staticRouteConfigurations p" "routeOwnership p' = routeOwnership p"
    by blast+
qed

text \<open>
  Every upstream of an accepted response is a fresh translation: those of the clusters that
  wait for EDS have no nodes, whatever nodes were known before.
\<close>

lemma cds_loop_upstreams:
  assumes "cds_loop rt p resources ms newUps = Ret (p', Inr (ms', newUps'))"
    "map_of newUps' k = Some u"
  shows "map_of newUps k = Some u \<or>
    (\<exists>c \<in> usable_clusters rt resources. clName c = k \<and> (GetType c = EDS \<longrightarrow> u = base_upstream c))"
  using assms
proof (induction resources arbitrary: p ms newUps)
  case (Cons res rest)
  obtain p1 r1 where p1: "processClusterV3 rt p res = Ret (p1, r1)"
    using Cons.prems(1) by (cases "processClusterV3 rt p res") auto
  have sub: "usable_clusters rt rest \<subseteq> usable_clusters rt (res # rest)"
    by (auto simp: usable_clusters_def)
  show ?case
  proof (cases r1)
    case (Inl e)
    with Cons.prems(1) p1 have "cds_loop rt p1 rest ms newUps = Ret (p', Inr (ms', newUps'))"
      by (auto split: if_splits)
    from Cons.IH [OF this Cons.prems(2)] sub show ?thesis by blast
  next
    case (Inr x)
    then obtain v where x: "r1 = Inr (Some v)" using Cons.prems(1) p1 by (cases x) auto
    with Cons.prems(1) p1 have l: "cds_loop rt p1 rest (sappend ms [v]) (AList.update (uName v) v newUps)
        = Ret (p', Inr (ms', newUps'))" by simp
    from p1 [unfolded x] obtain c where c: "dec_cluster (rtDec rt) res = Inr c" "\<not> unsupported c"
      "uName v = clName c" "GetType c = EDS \<longrightarrow> v = base_upstream c"
      by (rule processClusterV3_accept) blast
    then have "c \<in> usable_clusters rt (res # rest)" by (auto simp: usable_clusters_def)
    with Cons.IH [OF l Cons.prems(2)] sub c(3,4) show ?thesis
      by (auto simp: map_of_update split: if_splits)
  qed
qed simp

subsection \<open>Listeners\<close>

lemma map_of_own: "map_of (own addr names m) n = (if n \<in> set names then Some addr else map_of m n)"
  by (induction names arbitrary: m) (auto simp: own_def map_of_update)

lemma map_of_const_rev: "map_of (rev (map (\<lambda>n. (n, a)) ns)) n = (if n \<in> set ns then Some a else None)"
  by (induction ns rule: rev_induct) auto

lemma gm_ok_own: "gm_ok m \<Longrightarrow> gm_ok (own addr names m)"
  by (induction names arbitrary: m) (auto simp: own_def)

lemma listener_loop_spec:
  assumes "listener_loop rt resources names statics owners = Inr (names', statics', owners')"
  shows "names' = names @ concat (map (\<lambda>res. fst (snd (listener_part rt res))) resources)"
    and "elems statics' = elems statics @ concat (map (\<lambda>res. snd (snd (listener_part rt res))) resources)"
    and "map_of owners' n = (case map_of (rev (claims rt resources)) n of None \<Rightarrow> map_of owners n | Some a \<Rightarrow> Some a)"
    and "gm_ok owners \<Longrightarrow> gm_ok owners'"
proof -
  have "names' = names @ concat (map (\<lambda>res. fst (snd (listener_part rt res))) resources)
    \<and> elems statics' = elems statics @ concat (map (\<lambda>res. snd (snd (listener_part rt res))) resources)
    \<and> (\<forall>n. map_of owners' n = (map_of owners ++ map_of (rev (claims rt resources))) n)
    \<and> (gm_ok owners \<longrightarrow> gm_ok owners')"
    using assms
  proof (induction resources arbitrary: names statics owners)
    case Nil
    then show ?case by (simp add: claims_def)
  next
    case (Cons res rest)
    obtain l where l: "dec_listener (rtDec rt) res = Inr l"
      using Cons.prems by (cases "dec_listener (rtDec rt) res") auto
    show ?case
    proof (cases "listen_addr l")
      case None
      with Cons.prems l have "listener_loop rt rest names statics owners = Inr (names', statics', owners')"
        by simp
      from Cons.IH [OF this] None l show ?thesis by (simp add: listener_part_def claims_def)
    next
      case (Some addr)
      then obtain ns cfgs where p: "CollectRouteNamesAndConfigs (rtDec rt) (rtHcm rt) l = Inr (ns, cfgs)"
        using Cons.prems l by (cases "CollectRouteNamesAndConfigs (rtDec rt) (rtHcm rt) l") auto
      let ?owners = "own addr (map rcName cfgs) (own addr ns owners)"
      from p Some l Cons.prems have
        "listener_loop rt rest (names @ ns) (sappend statics cfgs) ?owners = Inr (names', statics', owners')"
        by simp
      note IH = Cons.IH [OF this]
      have part: "listener_part rt res = (addr, ns, cfgs)"
        using l Some p by (simp add: listener_part_def)
      show ?thesis
        using IH map_of_const_rev [of addr "ns @ map rcName cfgs"]
        by (auto simp: claims_def part map_add_def map_of_own gm_ok_own simp del: map_append split: option.splits)
    qed
  qed
  then show "names' = names @ concat (map (\<lambda>res. fst (snd (listener_part rt res))) resources)"
    and "elems statics' = elems statics @ concat (map (\<lambda>res. snd (snd (listener_part rt res))) resources)"
    and "map_of owners' n = (case map_of (rev (claims rt resources)) n of None \<Rightarrow> map_of owners n | Some a \<Rightarrow> Some a)"
    and "gm_ok owners \<Longrightarrow> gm_ok owners'"
    by (auto simp: map_add_def)
qed

subsection \<open>Routes\<close>

text \<open>Every route of an accepted response comes from one of its route configurations.\<close>

lemma rds_loop_routes:
  assumes "rds_loop rt p resources routes = Ret (Inr routes')" "r \<in> set (elems routes')"
  shows "r \<in> set (elems routes) \<or> (\<exists>res \<in> set resources. \<exists>rc rs. dec_route (rtDec rt) res = Inr rc
    \<and> TranslateRouteConfiguration (rtHosts rt) rc
        (Some \<lparr>toRouteOriginalDestination = routeOwnership p\<rparr>) = Ret rs \<and> r \<in> set rs)"
  using assms
proof (induction resources arbitrary: routes)
  case (Cons res rest)
  then obtain rc where rc: "dec_route (rtDec rt) res = Inr rc"
    by (cases "dec_route (rtDec rt) res") (auto simp: processRouteConfigurationV3_def)
  with Cons.prems obtain rs where rs: "TranslateRouteConfiguration (rtHosts rt) rc
      (Some \<lparr>toRouteOriginalDestination = routeOwnership p\<rparr>) = Ret rs"
    "rds_loop rt p rest (sappend routes rs) = Ret (Inr routes')"
    by (auto simp: processRouteConfigurationV3_def go_bind_Ret_iff)
  from Cons.IH [OF rs(2) Cons.prems(2)] rc rs(1) show ?case
    by auto
qed simp

lemma translate_cds_accepted:
  assumes "translate_cds rt p resources = Ret (p', reqs, Inr evs)" "rt_ok rt" "gm_ok (edsRequiredClusters p)"
  shows "dom (map_of (gpUpstreams p')) = clName ` usable_clusters rt resources
    \<and> (\<forall>k u. map_of (gpUpstreams p') k = Some u \<longrightarrow>
         (\<exists>c \<in> usable_clusters rt resources. clName c = k \<and> (GetType c = EDS \<longrightarrow> u = base_upstream c)))
    \<and> set_of (edsRequiredClusters p') = clName ` eds_clusters rt resources
    \<and> (if set_of (edsRequiredClusters p') = set_of (edsRequiredClusters p) \<or> set_of (edsRequiredClusters p') = {}
       then reqs = []
       else \<exists>names. reqs = [discovery_for ClusterLoadAssignmentUrl names]
              \<and> set names = set_of (edsRequiredClusters p') \<and> distinct names)"
proof -
  let ?p0 = "p\<lparr>edsRequiredClusters := []\<rparr>"
  obtain p1 ms nu where l: "cds_loop rt ?p0 resources None [] = Ret (p1, Inr (ms, nu))"
    and p': "p' = p1\<lparr>gpUpstreams := nu\<rparr>"
    and reqs: "reqs = (if \<not> Equal (edsRequiredClusters p') (edsRequiredClusters p) then sendEds rt p' else [])"
  proof -
    obtain p1 r where r: "cds_loop rt ?p0 resources None [] = Ret (p1, r)"
      using assms(1) by (auto simp: translate_cds_def Let_def go_bind_Ret_iff)
    then show thesis
      using assms(1) that by (cases r) (auto simp: translate_cds_def Let_def)
  qed
  note cl = cds_loop_clusters [OF l]
  have ok: "gm_ok (edsRequiredClusters p')" using cl(2) by (simp add: p')
  have eds: "range_order (rtEds rt)" using assms(2) by (simp add: rt_ok_def)
  have "sendEds rt p' = (if set_of (edsRequiredClusters p') = {} then []
      else [discovery_for ClusterLoadAssignmentUrl (Strings (rtEds rt) (edsRequiredClusters p'))])"
    by (simp add: sendEds_def Strings_def set_of_def)
  then show ?thesis
    using cl(1,3) cds_loop_upstreams [OF l] Equal_iff [OF ok assms(3)] set_Strings [OF eds] distinct_Strings [OF eds ok]
    by (auto simp: reqs p' intro!: exI [of _ "Strings (rtEds rt) (edsRequiredClusters p1)"])
qed

section \<open>Properties\<close>

text \<open>C23: every discovery response is answered exactly once and in order: the requests that carry a
  nonce repeat the type URLs and the nonces of the responses, and as many of them are acceptances
  (no error detail) as batches of events were handed to the sidecar.\<close>

theorem responses_are_answered:
  assumes "translateLoop (p, ver) resps = Ret ((p', ver'), reqs, batches)"
    and "\<forall>(rt, resp) \<in> set resps. drNonce resp \<noteq> ''''"
  shows "map (\<lambda>q. (dqTypeUrl q, dqResponseNonce q)) (answers reqs) =
      map (\<lambda>(rt, resp). (drTypeUrl resp, drNonce resp)) resps
    \<and> length batches = length (filter (\<lambda>q. \<not> dqErrorDetail q) (answers reqs))"
  by (rule loop_answers [OF assms])

lemma unknown_response:
  "translateLoop (p, ver) [(rt, response ''x'' [])] =
     Ret ((p, ver), [\<lparr>dqTypeUrl = ''x'', dqResourceNames = [], dqVersionInfo = ver,
       dqResponseNonce = ''n1'', dqErrorDetail = True\<rparr>], [])"
  by (simp add: translateLoop_step_def translate_def response_def ack_names_def RouteConfigurationUrl_def
      ClusterUrl_def ClusterLoadAssignmentUrl_def ListenerUrl_def Let_def)

lemma responses_are_answered_witness:
  "answers [\<lparr>dqTypeUrl = ''x'', dqResourceNames = [], dqVersionInfo = '''',
       dqResponseNonce = ''n1'', dqErrorDetail = True\<rparr>] \<noteq> []"
  using responses_are_answered [OF unknown_response [of NewGrpcProvisioner "''''" example_runtime]]
  by (auto simp: response_def)

text \<open>The answer to a response. An accepted one is acknowledged with its own version, a rejected one
  with the version accepted last, whatever the type of that response was; an answer about load
  assignments or route configurations names the resources subscribed to before the response.\<close>

theorem answer_versions:
  assumes "translateLoop_step rt (p, ver) resp = Ret ((p', ver'), reqs, batch)"
  shows "\<exists>reqs' ack. reqs = reqs' @ [ack] \<and> dqTypeUrl ack = drTypeUrl resp \<and> dqResponseNonce ack = drNonce resp
    \<and> dqErrorDetail ack = (batch = None) \<and> dqVersionInfo ack = ver'
    \<and> ver' = (case batch of None \<Rightarrow> ver | Some _ \<Rightarrow> drVersionInfo resp)
    \<and> dqResourceNames ack =
        (if drTypeUrl resp = ClusterLoadAssignmentUrl then Strings (rtEds rt) (edsRequiredClusters p)
         else if drTypeUrl resp = RouteConfigurationUrl
         then map fst (rtOwners rt (case routeOwnership p of None \<Rightarrow> [] | Some m \<Rightarrow> m)) else [])"
  using assms
proof (rule step_answer)
  fix reqs' r
  assume "ver' = (if batch = None then ver else drVersionInfo resp)"
    "reqs = reqs' @ [\<lparr>dqTypeUrl = drTypeUrl resp, dqResourceNames = ack_names rt p (drTypeUrl resp),
       dqVersionInfo = ver', dqResponseNonce = drNonce resp, dqErrorDetail = (batch = None)\<rparr>]"
  then show ?thesis by (cases batch) (simp_all add: ack_names_def)
qed

lemma answer_versions_witness:
  "\<exists>reqs' ack. translateLoop_step example_runtime (NewGrpcProvisioner, ''v0'') (response ''x'' []) =
       Ret ((NewGrpcProvisioner, ''v0''), reqs' @ [ack], None)
     \<and> dqVersionInfo ack = ''v0'' \<and> dqErrorDetail ack"
proof -
  have s: "translateLoop_step example_runtime (NewGrpcProvisioner, ''v0'') (response ''x'' []) =
     Ret ((NewGrpcProvisioner, ''v0''), [\<lparr>dqTypeUrl = ''x'', dqResourceNames = [], dqVersionInfo = ''v0'',
       dqResponseNonce = ''n1'', dqErrorDetail = True\<rparr>], None)"
    by (simp add: translateLoop_step_def translate_def response_def ack_names_def RouteConfigurationUrl_def
      ClusterUrl_def ClusterLoadAssignmentUrl_def ListenerUrl_def Let_def)
  from answer_versions [OF s] show ?thesis unfolding s by auto
qed

text \<open>C18: an accepted cluster response replaces the upstreams: they are those of the supported clusters,
  by name, and every one whose cluster waits for load assignments is without nodes, also when nodes
  for it were known before. Load assignments are asked for only when the set of the waiting clusters
  has changed and is not empty, and then for all of them.\<close>

theorem cluster_response:
  assumes "translate_cds rt p resources = Ret (p', reqs, Inr evs)" "rt_ok rt" "gm_ok (edsRequiredClusters p)"
  shows "dom (map_of (gpUpstreams p')) = clName ` usable_clusters rt resources
    \<and> (\<forall>k u. map_of (gpUpstreams p') k = Some u \<longrightarrow>
         (\<exists>c \<in> usable_clusters rt resources. clName c = k \<and> (GetType c = EDS \<longrightarrow> u = base_upstream c)))
    \<and> set_of (edsRequiredClusters p') = clName ` eds_clusters rt resources
    \<and> (if set_of (edsRequiredClusters p') = set_of (edsRequiredClusters p) \<or> set_of (edsRequiredClusters p') = {}
       then reqs = []
       else \<exists>names. reqs = [discovery_for ClusterLoadAssignmentUrl names]
              \<and> set names = set_of (edsRequiredClusters p') \<and> distinct names)"
  by (rule translate_cds_accepted [OF assms])

lemma cluster_response_witness:
  "\<exists>p' evs. translate_cds example_runtime (eds_state (Some [example_node])) [resource ''e''] = Ret (p', [], Inr evs)
     \<and> map_of (gpUpstreams p') ''e'' = Some (upstream_e (Some []))"
proof -
  let ?p = "eds_state (Some [example_node])"
  have ed: "edsRequiredClusters ?p = [(''e'', ())]" by (simp add: eds_state_def)
  obtain evs where t: "translate_cds example_runtime ?p [resource ''e''] =
      Ret (?p\<lparr>edsRequiredClusters := [(''e'', ())], gpUpstreams := [(''e'', upstream_e (Some []))]\<rparr>, [], Inr evs)"
    by (simp add: translate_cds_def process_e ed Equal_def has_key_def Let_def)
  have "gm_ok (edsRequiredClusters ?p)" by (simp add: ed gm_ok_def)
  from cluster_response [OF t example_runtime_ok(1) this] t show ?thesis by simp
qed

text \<open>C25: an accepted listener response makes each route configuration the property of the last
  listener that names it, with the address and port that listener is bound to; the dynamic names are
  asked for in one request, in order, and the static configurations are kept.\<close>

theorem listener_response:
  assumes "translate_lds rt p resources = (p', reqs, Inr evs)"
  shows "(\<exists>owners. routeOwnership p' = Some owners \<and> gm_ok owners
      \<and> map_of owners = map_of (rev (claims rt resources)))
    \<and> elems (staticRouteConfigurations p') = concat (map (\<lambda>res. snd (snd (listener_part rt res))) resources)
    \<and> reqs = (let names = concat (map (\<lambda>res. fst (snd (listener_part rt res))) resources)
              in if names = [] then [] else [discovery_for RouteConfigurationUrl names])
    \<and> evs = []"
proof -
  obtain names statics owners where l: "listener_loop rt resources [] None [] = Inr (names, statics, owners)"
    using assms by (auto simp: translate_lds_def split: sum.splits)
  note spec = listener_loop_spec [OF l]
  have "map_of owners = map_of (rev (claims rt resources))"
    using spec(3) by (auto simp: fun_eq_iff split: option.splits)
  with spec(1,2,4) assms l show ?thesis
    by (auto simp: translate_lds_def trySendRds_def generateEvents_zero Let_def)
qed

definition listener_runtime :: runtime where
  "listener_runtime = example_runtime\<lparr>rtDec := (rtDec example_runtime)
     \<lparr>dec_listener := (\<lambda>_. Inr ((example_listener hcmv3_url)\<lparr>lAddress := Some (SocketAddress
          \<lparr>saProtocol = TCP, saAddress = ''0.0.0.0'', saPort = PortValue 80\<rparr>)\<rparr>)),
      dec_hcm := (\<lambda>_. Inr (HCM_Rds ''80''))\<rparr>\<rparr>"

lemma listener_response_witness:
  "\<exists>p'. translate_lds listener_runtime NewGrpcProvisioner [resource ''l''] =
       (p', [discovery_for RouteConfigurationUrl [''80'']], Inr [])
     \<and> (\<exists>owners. routeOwnership p' = Some owners \<and> map_of owners ''80'' = Some ''0.0.0.0:80'')"
proof -
  have d: "fmt_d 80 = ''80''" by (simp add: fmt_d_def digits.simps digit_char_def)
  have p: "listener_part listener_runtime (resource ''l'') = (''0.0.0.0:80'', [''80''], [])"
    by (simp add: listener_part_def listener_runtime_def example_runtime_def example_listener_def listen_addr_def
        CollectRouteNamesAndConfigs_def is_hcm_def d)
  obtain p' reqs evs where t: "translate_lds listener_runtime NewGrpcProvisioner [resource ''l''] = (p', reqs, Inr evs)"
    by (simp add: translate_lds_def listener_runtime_def example_runtime_def example_listener_def listen_addr_def
        CollectRouteNamesAndConfigs_def is_hcm_def d)
  from listener_response [OF t] t show ?thesis by (auto simp: p claims_def)
qed


definition route_runtime :: runtime where
  "route_runtime = example_runtime\<lparr>rtDec := (rtDec example_runtime)\<lparr>dec_route := (\<lambda>_. Inr example_configuration)\<rparr>\<rparr>"


end
