(* ===== verification/Grpc_Connection.thy ===== *)
theory Grpc_Connection
  imports Grpc_Facts
begin

text \<open>
  The connections of the gRPC provisioner (\<open>Run\<close>, \<open>run\<close> and \<open>recvLoop\<close> of
  \<open>pkg/provisioner/xds/v3/grpc/types.go\<close>): how the receiving loop ends, and what a connection after
  a reset starts from. The provisioner's state outlives a connection; the stream, the version and
  the subscriptions of the control plane do not.
\<close>

section \<open>Definitions\<close>

subsection \<open>Receiving\<close>

text \<open>
  What the calls of \<open>client.Recv\<close> yield is the argument \<open>recv\<close>; \<open>ctx_done i\<close> says whether the
  context is done when call \<open>i\<close> has failed. The loop need not end: \<open>None\<close> is the loop that does
  not. Its result is the responses handed on and the error it resets the connection with, if it
  does.
\<close>

datatype recv_result = Received discovery_response | RecvError string

partial_function (option) recvLoop ::
    "(nat \<Rightarrow> recv_result) \<Rightarrow> (nat \<Rightarrow> bool) \<Rightarrow> nat \<Rightarrow> (discovery_response list \<times> string option) option" where
  "recvLoop recv ctx_done i =
     (case recv i of
        RecvError err \<Rightarrow>
          (if ctx_done i then Some ([], None)
           else if Contains err ''transport is closing'' then Some ([], Some err)
           else recvLoop recv ctx_done (Suc i))
      | Received dr \<Rightarrow>
          Option.bind (recvLoop recv ctx_done (Suc i)) (\<lambda>(drs, reset). Some (dr # drs, reset)))"

declare recvLoop.simps [code]

subsection \<open>Sending\<close>

text \<open>
  The loop \<open>sendLoop\<close> takes a request from the send channel and starts a goroutine that calls
  \<open>client.Send\<close> with it once; an error is logged.
\<close>

record sender =
  sdTaken :: "discovery_request list"
  sdInFlight :: "discovery_request list"
  sdSent :: "discovery_request list"
  sdFailed :: "discovery_request list"

definition new_sender :: sender where
  "new_sender = \<lparr>sdTaken = [], sdInFlight = [], sdSent = [], sdFailed = []\<rparr>"

inductive send_step :: "sender \<Rightarrow> sender \<Rightarrow> bool" where
  take: "send_step s (s\<lparr>sdTaken := sdTaken s @ [dr], sdInFlight := sdInFlight s @ [dr]\<rparr>)"
| sent: "sdInFlight s = xs @ dr # ys \<Longrightarrow>
     send_step s (s\<lparr>sdInFlight := xs @ ys, sdSent := sdSent s @ [dr]\<rparr>)"
| failed: "sdInFlight s = xs @ dr # ys \<Longrightarrow>
     send_step s (s\<lparr>sdInFlight := xs @ ys, sdFailed := sdFailed s @ [dr]\<rparr>)"

inductive_cases send_stepE: "send_step s s'"

subsection \<open>Connections\<close>

text \<open>
  One round of the loop of \<open>Run\<close>: the dial fails, the stream cannot be opened, or the connection
  lives through some responses until the process is stopped or the connection is reset. The
  goroutines of a connection are taken to end with it.
\<close>

datatype ending = Stopped | ResetBy string

datatype session =
    DialFailed string | StreamFailed string
  | Session "(runtime \<times> discovery_response) list" ending

text \<open>
  The result: the state, the requests sent on each connection, the batches of events, and the error
  \<open>Run\<close> returns (none while it runs and when it is stopped).
\<close>

fun grpc_Run ::
    "grpc_provisioner \<Rightarrow> session list
       \<Rightarrow> (grpc_provisioner \<times> discovery_request list list \<times> event list list \<times> string option) go" where
  "grpc_Run p [] = Ret (p, [], [], None)"
| "grpc_Run p (DialFailed err # ss) = Ret (p, [], [], Some err)"
| "grpc_Run p (StreamFailed err # ss) = Ret (p, [], [], Some err)"
| "grpc_Run p (Session resps ending # ss) =
     go_bind (translateLoop (p, '''') resps) (\<lambda>((p1, _), reqs, batches).
       case ending of
         Stopped \<Rightarrow> Ret (p1, [firstSend @ reqs], batches, None)
       | ResetBy _ \<Rightarrow>
           go_bind (grpc_Run p1 ss) (\<lambda>(p2, reqss, batches2, err).
             Ret (p2, (firstSend @ reqs) # reqss, batches @ batches2, err)))"

subsection \<open>Specification\<close>

text \<open>A failed call that ends the loop.\<close>

definition ends_loop :: "(nat \<Rightarrow> recv_result) \<Rightarrow> (nat \<Rightarrow> bool) \<Rightarrow> nat \<Rightarrow> bool" where
  "ends_loop recv ctx_done k \<longleftrightarrow>
     (case recv k of
        Received _ \<Rightarrow> False
      | RecvError err \<Rightarrow> ctx_done k \<or> Contains err ''transport is closing'')"

text \<open>The responses among the first calls.\<close>

definition received :: "(nat \<Rightarrow> recv_result) \<Rightarrow> nat list \<Rightarrow> discovery_response list" where
  "received recv is = List.map_filter (\<lambda>i. case recv i of Received dr \<Rightarrow> Some dr | RecvError _ \<Rightarrow> None) is"

section \<open>Lemmas\<close>

lemma send_conserves:
  assumes "send_step\<^sup>*\<^sup>* new_sender s"
  shows "mset (sdTaken s) = mset (sdSent s) + mset (sdFailed s) + mset (sdInFlight s)"
  using assms
proof (induction rule: rtranclp_induct)
  case base
  then show ?case by (simp add: new_sender_def)
next
  case (step y z)
  from step.hyps(2) step.IH show ?case by (elim send_stepE) auto
qed

text \<open>Two requests taken one after the other reach the stream in the opposite order.\<close>

lemma sends_swapped:
  "\<exists>s. send_step\<^sup>*\<^sup>* new_sender s \<and> sdTaken s = [a, b] \<and> sdSent s = [b, a] \<and> sdFailed s = [] \<and> sdInFlight s = []"
proof -
  let ?s1 = "new_sender\<lparr>sdTaken := [a], sdInFlight := [a]\<rparr>"
  let ?s2 = "?s1\<lparr>sdTaken := [a, b], sdInFlight := [a, b]\<rparr>"
  let ?s3 = "?s2\<lparr>sdInFlight := [a], sdSent := [b]\<rparr>"
  let ?s4 = "?s3\<lparr>sdInFlight := [], sdSent := [b, a]\<rparr>"
  have "send_step new_sender ?s1" "send_step ?s1 ?s2" "send_step ?s2 ?s3" "send_step ?s3 ?s4"
    using send_step.take [of new_sender a] send_step.take [of ?s1 b]
      send_step.sent [of ?s2 "[a]" b "[]"] send_step.sent [of ?s3 "[]" a "[]"]
    by (simp_all add: new_sender_def)
  then have "send_step\<^sup>*\<^sup>* new_sender ?s4"
    by (meson converse_rtranclp_into_rtranclp r_into_rtranclp)
  then show ?thesis by (intro exI [of _ ?s4]) (simp add: new_sender_def)
qed

lemma recvLoop_end:
  "ends_loop recv ctx_done i \<Longrightarrow>
     recvLoop recv ctx_done i = Some ([], if ctx_done i then None else Some (case recv i of RecvError err \<Rightarrow> err | _ \<Rightarrow> ''''))"
  by (subst recvLoop.simps) (auto simp: ends_loop_def split: recv_result.splits)

lemma recvLoop_next:
  "\<not> ends_loop recv ctx_done i \<Longrightarrow>
     recvLoop recv ctx_done i = map_option (\<lambda>(drs, reset). (received recv [i] @ drs, reset)) (recvLoop recv ctx_done (Suc i))"
  by (subst recvLoop.simps)
    (auto simp: ends_loop_def received_def map_filter_simps map_option_case split: recv_result.splits option.splits)

lemma received_Cons: "received recv (i # is) = received recv [i] @ received recv is"
  by (simp add: received_def map_filter_simps split: option.split)

lemma recvLoop_first_end:
  "ends_loop recv ctx_done (i + n) \<Longrightarrow> \<forall>m < n. \<not> ends_loop recv ctx_done (i + m) \<Longrightarrow>
     recvLoop recv ctx_done i = Some (received recv [i..<i + n],
       if ctx_done (i + n) then None else Some (case recv (i + n) of RecvError err \<Rightarrow> err | _ \<Rightarrow> ''''))"
proof (induction n arbitrary: i)
  case 0
  then show ?case by (simp add: recvLoop_end received_def map_filter_simps)
next
  case (Suc n)
  then have "\<not> ends_loop recv ctx_done i" "\<forall>m < n. \<not> ends_loop recv ctx_done (Suc i + m)"
    by (force, force)
  with Suc.IH [of "Suc i"] Suc.prems(1) show ?case
    by (simp add: recvLoop_next upt_conv_Cons received_Cons [of recv i "[Suc i..<_]"] del: upt_Suc)
qed

lemma recvLoop_Some_end:
  assumes "recvLoop recv ctx_done i = Some out"
  shows "\<exists>k \<ge> i. ends_loop recv ctx_done k"
proof (rule recvLoop.raw_induct
    [where P = "\<lambda>recv ctx_done i out. \<exists>k \<ge> i. ends_loop recv ctx_done k", OF _ assms])
  fix loop recv ctx_done i out
  assume IH: "\<And>recv ctx_done i out. loop recv ctx_done i = Some out \<Longrightarrow> \<exists>k \<ge> i. ends_loop recv ctx_done k"
    and out: "(case recv i of
        Received dr \<Rightarrow> Option.bind (loop recv ctx_done (Suc i)) (\<lambda>(drs, reset). Some (dr # drs, reset))
      | RecvError err \<Rightarrow>
          if ctx_done i then Some ([], None)
          else if Contains err ''transport is closing'' then Some ([], Some err)
          else loop recv ctx_done (Suc i)) = Some out"
  show "\<exists>k \<ge> i. ends_loop recv ctx_done k"
  proof (cases "ends_loop recv ctx_done i")
    case False
    have "\<exists>out'. loop recv ctx_done (Suc i) = Some out'"
    proof (cases "recv i")
      case (Received dr)
      with out show ?thesis by (cases "loop recv ctx_done (Suc i)") simp_all
    next
      case (RecvError err)
      with out False show ?thesis by (simp add: ends_loop_def)
    qed
    with IH [of recv ctx_done "Suc i"] show ?thesis by (meson Suc_leD)
  qed blast
qed

section \<open>Properties\<close>


lemma graceful_end_spins: "recvLoop (\<lambda>_. RecvError ''EOF'') (\<lambda>_. False) 0 = None"
proof -
  have "\<not> ends_loop (\<lambda>_. RecvError ''EOF'') (\<lambda>_. False) k" for k
    by (simp add: ends_loop_def HasPrefix_def)
  then show ?thesis using recvLoop_Some_end by (cases "recvLoop (\<lambda>_. RecvError ''EOF'') (\<lambda>_. False) 0") blast+
qed


lemma eds_clusters_e: "clName ` eds_clusters example_runtime [resource ''e''] = {''e''}"
  by (auto simp: eds_clusters_def usable_clusters_def example_runtime_def resource_def unsupported_def
      example_cluster_def GetType_def image_iff)


text \<open>A request is sent at most once. On every run the requests taken from the channel are those on
  the stream, those whose sending failed and those in flight: one that failed, such as the initial
  subscription to the listeners, is not tried again, where the comment on \<open>sendLoop\<close> promises it
  until it succeeds. The requests on the stream need not be in order, not even the two initial ones.\<close>

theorem requests_sent_once:
  assumes "send_step\<^sup>*\<^sup>* new_sender s"
  shows "mset (sdSent s) + mset (sdFailed s) + mset (sdInFlight s) = mset (sdTaken s)
    \<and> (distinct (sdTaken s) \<longrightarrow> set (sdFailed s) \<inter> set (sdSent s) = {})
    \<and> (\<exists>s'. send_step\<^sup>*\<^sup>* new_sender s' \<and> sdTaken s' = firstSend \<and> sdSent s' = rev firstSend \<and> sdInFlight s' = [])"
proof -
  note c = send_conserves [OF assms]
  have "distinct (sdSent s @ sdFailed s @ sdInFlight s)" if "distinct (sdTaken s)"
    using that c by (metis mset_append add.assoc mset_eq_imp_distinct_iff)
  moreover obtain s' where "send_step\<^sup>*\<^sup>* new_sender s'" "sdTaken s' = firstSend" "sdSent s' = rev firstSend" "sdInFlight s' = []"
    using sends_swapped [of "discovery_for ListenerUrl []" "discovery_for ClusterUrl []"] by (auto simp: firstSend_def)
  ultimately show ?thesis using c by auto
qed

lemma requests_sent_once_witness:
  "\<exists>s. send_step\<^sup>*\<^sup>* new_sender s \<and> sdFailed s = [discovery_for ListenerUrl []]
     \<and> sdSent s = [] \<and> mset (sdTaken s) = {# discovery_for ListenerUrl [] #}"
proof -
  let ?dr = "discovery_for ListenerUrl []"
  let ?s1 = "new_sender\<lparr>sdTaken := [?dr], sdInFlight := [?dr]\<rparr>"
  let ?s2 = "?s1\<lparr>sdInFlight := [], sdFailed := [?dr]\<rparr>"
  have "send_step new_sender ?s1" "send_step ?s1 ?s2"
    using send_step.take [of new_sender ?dr] send_step.failed [of ?s1 "[]" ?dr "[]"] by (simp_all add: new_sender_def)
  then have r: "send_step\<^sup>*\<^sup>* new_sender ?s2" by (meson converse_rtranclp_into_rtranclp r_into_rtranclp)
  from requests_sent_once [OF r] have "mset (sdTaken ?s2) = {# ?dr #}" by (simp add: new_sender_def)
  with r show ?thesis by (intro exI [of _ ?s2]) (simp add: new_sender_def)
qed

end
