(* ===== verification/File_Provisioner.thy ===== *)
theory File_Provisioner
  imports Xds_Cluster Xds_Route Xds_Listener Cache_Reflection
begin

text \<open>
  \<open>pkg/provisioner/xds/v3/file\<close>: the provisioner that watches files, each holding one discovery
  response. A file event is one step: the response is translated into a manifest, the manifest
  is compared with the one the file had, and load assignments for clusters of other files are
  sent as updates of their own. What a read of the file gives is an argument of the step.
\<close>

section \<open>Definitions\<close>

subsection \<open>State\<close>

record file_provisioner =
  fpState :: "(string, manifest option) gomap"
  upstreamCache :: "(string, upstream) gomap"
  updatedUpstreamsFromEDS :: "(string, upstream slice) gomap"

definition NewFileProvisioner :: file_provisioner where
  "NewFileProvisioner = \<lparr>fpState = [], upstreamCache = [], updatedUpstreamsFromEDS = []\<rparr>"

text \<open>Indexing a map of pointers or slices gives nil where the key is absent.\<close>

definition state_at :: "file_provisioner \<Rightarrow> string \<Rightarrow> manifest option" where
  "state_at p file = (case map_of (fpState p) file of None \<Rightarrow> None | Some m \<Rightarrow> m)"

definition updated_at :: "file_provisioner \<Rightarrow> string \<Rightarrow> upstream slice" where
  "updated_at p file = (case map_of (updatedUpstreamsFromEDS p) file of None \<Rightarrow> None | Some us \<Rightarrow> us)"

subsection \<open>Resources\<close>

definition file_processRouteConfigurationV3 ::
    "decoders \<Rightarrow> (string, unit) iter \<Rightarrow> any_msg \<Rightarrow> route list go" where
  "file_processRouteConfigurationV3 dec ordh res =
     (case dec_route dec res of
        Inl _ \<Rightarrow> Ret []
      | Inr route \<Rightarrow> TranslateRouteConfiguration ordh route None)"

definition file_processClusterV3 ::
    "decoders \<Rightarrow> file_provisioner \<Rightarrow> any_msg \<Rightarrow> (file_provisioner \<times> upstream list) go" where
  "file_processClusterV3 dec p res =
     (case dec_cluster dec res of
        Inl _ \<Rightarrow> Ret (p, [])
      | Inr cluster \<Rightarrow>
          go_bind (TranslateCluster cluster) (\<lambda>(ups, err).
            if err \<noteq> None \<and> err \<noteq> Some ErrRequireFurtherEDS then Ret (p, [])
            else (case ups of
                    None \<Rightarrow> Panic
                  | Some u \<Rightarrow>
                      Ret (p\<lparr>upstreamCache := AList.update (uName u) u (upstreamCache p)\<rparr>, [u]))))"

definition file_processClusterLoadAssignmentV3 ::
    "proto_lib \<Rightarrow> decoders \<Rightarrow> file_provisioner \<Rightarrow> any_msg \<Rightarrow> (file_provisioner \<times> upstream list) go" where
  "file_processClusterLoadAssignmentV3 pl dec p res =
     (case dec_assignment dec res of
        Inl _ \<Rightarrow> Ret (p, [])
      | Inr cla \<Rightarrow>
          (case map_of (upstreamCache p) (laClusterName cla) of
             None \<Rightarrow> Ret (p, [])
           | Some ups \<Rightarrow>
               if 0 < length (elems (uNodes ups)) then Ret (p, [])
               else go_bind (TranslateClusterLoadAssignment (Some cla)) (\<lambda>nodes.
                 let newUps = (clone_upstream pl ups)\<lparr>uNodes := nodes\<rparr>
                 in Ret (p\<lparr>upstreamCache := AList.update (laClusterName cla) newUps (upstreamCache p)\<rparr>,
                         [newUps]))))"

text \<open>
  Merging the upstreams of a load assignment into the manifest. The inner loop counts \<open>j\<close> over
  the upstreams of the manifest and reads the one at \<open>i\<close>, the index into the new upstreams;
  those it does not find are kept, in order.
\<close>

fun merge_inner :: "upstream list \<Rightarrow> nat \<Rightarrow> upstream \<Rightarrow> nat \<Rightarrow> (bool \<times> upstream list) go" where
  "merge_inner ms i u 0 = Ret (False, ms)"
| "merge_inner ms i u (Suc n) =
     (if length ms \<le> i then Panic
      else if uName (ms ! i) = uName u then Ret (True, ms[i := u])
      else merge_inner ms i u n)"

fun merge_outer ::
    "upstream list \<Rightarrow> nat \<Rightarrow> upstream list \<Rightarrow> upstream list \<Rightarrow> (upstream list \<times> upstream list) go" where
  "merge_outer ms i [] kept = Ret (ms, kept)"
| "merge_outer ms i (u # us) kept =
     go_bind (merge_inner ms i u (length ms)) (\<lambda>(found, ms1).
       merge_outer ms1 (i + 1) us (if found then kept else kept @ [u]))"

subsection \<open>One discovery response\<close>

text \<open>\<open>rm\<close> and \<open>updatedUpstreams\<close> of the code, over the resources of the response.\<close>

fun resource_loop ::
    "proto_lib \<Rightarrow> decoders \<Rightarrow> (string, unit) iter \<Rightarrow> file_provisioner \<Rightarrow> any_msg list
       \<Rightarrow> manifest \<Rightarrow> upstream list \<Rightarrow> (file_provisioner \<times> manifest \<times> upstream list) go" where
  "resource_loop pl dec ordh p [] rm upd = Ret (p, rm, upd)"
| "resource_loop pl dec ordh p (res # rest) rm upd =
     (if aTypeUrl res = RouteConfigurationUrl then
        go_bind (file_processRouteConfigurationV3 dec ordh res) (\<lambda>rs.
          resource_loop pl dec ordh p rest (rm\<lparr>mRoutes := sappend (mRoutes rm) rs\<rparr>) upd)
      else if aTypeUrl res = ClusterUrl then
        go_bind (file_processClusterV3 dec p res) (\<lambda>(p1, us).
          resource_loop pl dec ordh p1 rest (rm\<lparr>mUpstreams := sappend (mUpstreams rm) us\<rparr>) upd)
      else if aTypeUrl res = ClusterLoadAssignmentUrl then
        go_bind (file_processClusterLoadAssignmentV3 pl dec p res) (\<lambda>(p1, us).
          go_bind (merge_outer (elems (mUpstreams rm)) 0 us []) (\<lambda>(ms, kept).
            resource_loop pl dec ordh p1 rest
              (rm\<lparr>mUpstreams := (case mUpstreams rm of None \<Rightarrow> None | Some _ \<Rightarrow> Some ms)\<rparr>) (upd @ kept)))
      else resource_loop pl dec ordh p rest rm upd)"

text \<open>The comparison with the manifest of the file, which the new one replaces.\<close>

definition file_generateEvents ::
    "proto_lib \<Rightarrow> file_provisioner \<Rightarrow> string \<Rightarrow> manifest option \<Rightarrow> manifest option
       \<Rightarrow> file_provisioner \<times> event list" where
  "file_generateEvents pl p file rmo rm =
     (p\<lparr>fpState := AList.update file rm (fpState p)\<rparr>, generateEvents pl rm rmo)"

definition generateEventsFromDiscoveryResponseV3 ::
    "proto_lib \<Rightarrow> decoders \<Rightarrow> (string, unit) iter \<Rightarrow> file_provisioner \<Rightarrow> string \<Rightarrow> discovery_response
       \<Rightarrow> (file_provisioner \<times> event list) go" where
  "generateEventsFromDiscoveryResponseV3 pl dec ordh p file dr =
     go_bind (resource_loop pl dec ordh p (drResources dr) zero_manifest []) (\<lambda>(p1, rm, upd).
       let (p2, evs) = file_generateEvents pl p1 file (state_at p1 file) (Some rm)
       in if 0 < length upd then
            Ret (p2\<lparr>updatedUpstreamsFromEDS :=
                   AList.update file (sappend (updated_at p2 file) upd) (updatedUpstreamsFromEDS p2)\<rparr>,
                 evs @ map (\<lambda>ups. mk_event EventUpdate (OUpstream ups) ONil) upd)
          else Ret (p2, evs))"

subsection \<open>File events\<close>

datatype file_op = FsCreate | FsWrite | FsRemove | FsOther

text \<open>What \<open>ioutil.ReadFile\<close> and \<open>protojson.Unmarshal\<close> make of the file.\<close>

datatype file_content = ReadError | NotJson | Response discovery_response

definition handleFileEvent ::
    "proto_lib \<Rightarrow> decoders \<Rightarrow> (string, unit) iter \<Rightarrow> file_provisioner \<Rightarrow> file_op \<Rightarrow> string \<Rightarrow> file_content
       \<Rightarrow> (file_provisioner \<times> event list) go" where
  "handleFileEvent pl dec ordh p op file content =
     (if op \<noteq> FsRemove then
        (case content of
           ReadError \<Rightarrow> Ret (p, [])
         | NotJson \<Rightarrow> Ret (p, [])
         | Response dr \<Rightarrow> generateEventsFromDiscoveryResponseV3 pl dec ordh p file dr)
      else
        (case map_of (fpState p) file of
           None \<Rightarrow> Ret (p, [])
         | Some rmo \<Rightarrow>
             let (p1, evs) = file_generateEvents pl p file rmo None;
                 resets = map (\<lambda>ups. mk_event EventUpdate
                   (OUpstream ((clone_upstream pl ups)\<lparr>uNodes := None\<rparr>)) ONil) (elems (updated_at p1 file))
             in Ret (p1\<lparr>updatedUpstreamsFromEDS := AList.delete file (updatedUpstreamsFromEDS p1)\<rparr>,
                     evs @ resets)))"

text \<open>A batch is sent only when it has events.\<close>

definition file_batch :: "event list \<Rightarrow> event list list" where
  "file_batch evs = (if 0 < length evs then [evs] else [])"

text \<open>The loop of \<open>Run\<close>: operations other than create, write and remove are skipped.\<close>

fun file_Run ::
    "proto_lib \<Rightarrow> decoders \<Rightarrow> (string, unit) iter \<Rightarrow> file_provisioner \<Rightarrow> (file_op \<times> string \<times> file_content) list
       \<Rightarrow> (file_provisioner \<times> event list list) go" where
  "file_Run pl dec ordh p [] = Ret (p, [])"
| "file_Run pl dec ordh p ((op, file, content) # rest) =
     (if op = FsOther then file_Run pl dec ordh p rest
      else go_bind (handleFileEvent pl dec ordh p op file content) (\<lambda>(p1, evs).
             go_bind (file_Run pl dec ordh p1 rest) (\<lambda>(p2, batches).
               Ret (p2, file_batch evs @ batches))))"

text \<open>
  The start: the watched paths are expanded (a path is a file, a directory with the files of
  its tree, or an error) and every file is handled as if written.
\<close>

datatype path_info = PathError string | PlainFile | Directory "string + string list"

fun initial_files :: "(string \<Rightarrow> path_info) \<Rightarrow> string list \<Rightarrow> string + string list" where
  "initial_files stat [] = Inr []"
| "initial_files stat (f # fs) =
     (case stat f of
        PathError err \<Rightarrow> Inl err
      | PlainFile \<Rightarrow> map_sum id (\<lambda>rest. f # rest) (initial_files stat fs)
      | Directory (Inl err) \<Rightarrow> Inl err
      | Directory (Inr paths) \<Rightarrow> map_sum id (\<lambda>rest. paths @ rest) (initial_files stat fs))"

definition handleInitialFileEvents ::
    "proto_lib \<Rightarrow> decoders \<Rightarrow> (string, unit) iter \<Rightarrow> (string \<Rightarrow> path_info) \<Rightarrow> (string \<Rightarrow> file_content)
       \<Rightarrow> file_provisioner \<Rightarrow> string list \<Rightarrow> (string option \<times> file_provisioner \<times> event list list) go" where
  "handleInitialFileEvents pl dec ordh stat readf p files =
     (case initial_files stat files of
        Inl err \<Rightarrow> Ret (Some err, p, [])
      | Inr fs \<Rightarrow>
          go_bind (file_Run pl dec ordh p (map (\<lambda>f. (FsWrite, f, readf f)) fs)) (\<lambda>(p1, batches).
            Ret (None, p1, batches)))"

section \<open>Lemmas\<close>

subsection \<open>The manifest a file stands for\<close>

definition opt_routes :: "manifest option \<Rightarrow> route list" where
  "opt_routes m = (case m of None \<Rightarrow> [] | Some x \<Rightarrow> elems (mRoutes x))"

definition opt_upstreams :: "manifest option \<Rightarrow> upstream list" where
  "opt_upstreams m = (case m of None \<Rightarrow> [] | Some x \<Rightarrow> elems (mUpstreams x))"

text \<open>No manifest is compared like an empty one.\<close>

lemma generateEvents_opt:
  "generateEvents pl new old =
     generateEvents pl (Some (case new of None \<Rightarrow> zero_manifest | Some m \<Rightarrow> m))
       (Some (case old of None \<Rightarrow> zero_manifest | Some m \<Rightarrow> m))"
proof -
  have u: "compare_updated eq ident xs [] = []" "compare_updated eq ident [] ys = []" for eq ident and xs ys :: "'a list"
    by (simp_all add: compare_updated_def concat_eq_Nil_conv)
  have nil: "generateEvents pl (Some m) (Some zero_manifest) = manifest_Events m EventAdd"
    "generateEvents pl (Some zero_manifest) (Some m) = manifest_Events m EventDelete" for m
    by (auto simp: generateEvents_eq DiffFrom_def CompareRoutes_def CompareUpstreams_def
        compare_by_def zero_manifest_def manifest_Events_def Let_def split_beta split: option.splits)
  show ?thesis
    by (cases new; cases old)
      (simp_all add: nil generateEvents_new generateEvents_gone, simp add: manifest_Events_def zero_manifest_def)
qed

lemma opt_elems:
  "elems (mRoutes (case m of None \<Rightarrow> zero_manifest | Some x \<Rightarrow> x)) = opt_routes m"
  "elems (mUpstreams (case m of None \<Rightarrow> zero_manifest | Some x \<Rightarrow> x)) = opt_upstreams m"
  by (simp_all add: opt_routes_def opt_upstreams_def zero_manifest_def split: option.splits)

lemma generateEvents_opt_agrees:
  assumes "proto_ok pl"
  shows "routes_agree pl c (opt_routes old) \<Longrightarrow>
      routes_agree pl (cache_after pl c (generateEvents pl new old)) (opt_routes new)"
    and "upstreams_agree pl c (opt_upstreams old) \<Longrightarrow>
      upstreams_agree pl (cache_after pl c (generateEvents pl new old)) (opt_upstreams new)"
  using generateEvents_routes [OF assms] generateEvents_upstreams [OF assms]
  unfolding generateEvents_opt [of pl new old] by (metis opt_elems)+

subsection \<open>Merging load assignments\<close>

text \<open>A load assignment makes one upstream; it is compared with the first one of the manifest only.\<close>

lemma merge_inner_first:
  "0 < n \<Longrightarrow> merge_inner (m # ms) 0 u n =
     (if uName m = uName u then Ret (True, u # ms) else Ret (False, m # ms))"
proof (induction n)
  case (Suc n)
  then show ?case by (cases "n = 0") simp_all
qed simp

lemma merge_outer_single:
  "merge_outer ms 0 [u] [] = Ret (case ms of
     [] \<Rightarrow> ([], [u])
   | m # rest \<Rightarrow> if uName m = uName u then (u # rest, []) else (ms, [u]))"
  by (cases ms) (simp_all add: merge_inner_first del: merge_inner.simps, simp)

lemma merge_outer_Nil: "merge_outer ms 0 [] [] = Ret (ms, [])"
  by simp

lemma file_CLA_length:
  "file_processClusterLoadAssignmentV3 pl dec p res = Ret (p', us) \<Longrightarrow> us = [] \<or> (\<exists>u. us = [u])"
  by (auto simp: file_processClusterLoadAssignmentV3_def go_bind_Ret_iff Let_def
      split: sum.splits option.splits if_splits)

subsection \<open>The state of the file\<close>

lemma file_state_after:
  assumes "generateEventsFromDiscoveryResponseV3 pl dec ordh p file dr = Ret (p', evs)"
  obtains p1 rm upd where
    "resource_loop pl dec ordh p (drResources dr) zero_manifest [] = Ret (p1, rm, upd)"
    "state_at p' file = Some rm" "\<And>f. f \<noteq> file \<Longrightarrow> state_at p' f = state_at p1 f"
    "evs = generateEvents pl (Some rm) (state_at p1 file)
       @ map (\<lambda>ups. mk_event EventUpdate (OUpstream ups) ONil) upd"
proof -
  from assms obtain p1 rm upd where
    r: "resource_loop pl dec ordh p (drResources dr) zero_manifest [] = Ret (p1, rm, upd)"
    by (auto simp: generateEventsFromDiscoveryResponseV3_def go_bind_Ret_iff)
  show thesis
    by (rule that [OF r]) (use assms r in \<open>auto simp: generateEventsFromDiscoveryResponseV3_def
        file_generateEvents_def Let_def state_at_def map_of_update split: if_splits\<close>)
qed

lemma resource_loop_state:
  "resource_loop pl dec ordh p resources rm upd = Ret (p', rm', upd') \<Longrightarrow> fpState p' = fpState p"
proof (induction resources arbitrary: p rm upd)
  case (Cons res rest)
  have c: "file_processClusterV3 dec p res = Ret (p1, us) \<Longrightarrow> fpState p1 = fpState p" for p1 us
    by (auto simp: file_processClusterV3_def go_bind_Ret_iff split: sum.splits option.splits if_splits)
  have e: "file_processClusterLoadAssignmentV3 pl dec p res = Ret (p1, us) \<Longrightarrow> fpState p1 = fpState p" for p1 us
    by (auto simp: file_processClusterLoadAssignmentV3_def go_bind_Ret_iff Let_def
        split: sum.splits option.splits if_splits)
  from Cons.prems show ?case
    by (auto simp: go_bind_Ret_iff split: if_splits dest!: Cons.IH c e)
qed simp

lemma update_list_routes:
  "cRoute (cache_after pl c (map (\<lambda>u. mk_event EventUpdate (OUpstream (f u)) ONil) us)) = cRoute c"
proof -
  have "(\<lambda>u. mk_event EventUpdate (OUpstream (f u)) ONil) = (\<lambda>u. upstream_event EventUpdate (f u))"
    by (simp add: upstream_event_def)
  then show ?thesis
    using cache_after_upstreams_other [of pl c EventUpdate "map f us"] by (simp add: comp_def)
qed

lemma file_event_sync:
  assumes "proto_ok pl" "handleFileEvent pl dec ordh p op file content = Ret (p', evs)"
    and "routes_agree pl c (opt_routes (state_at p file))"
  shows "routes_agree pl (cache_after pl c evs) (opt_routes (state_at p' file))
    \<and> (op = FsRemove \<longrightarrow> state_at p' file = None)"
proof (cases "op = FsRemove")
  case True
  show ?thesis
  proof (cases "map_of (fpState p) file")
    case None
    with assms True show ?thesis by (simp add: handleFileEvent_def state_at_def)
  next
    case (Some rmo)
    have "state_at p file = rmo" using Some by (simp add: state_at_def)
    with assms generateEvents_opt_agrees(1) [OF assms(1), of c rmo None] True Some show ?thesis
      by (auto simp: handleFileEvent_def file_generateEvents_def Let_def state_at_def map_of_update
          opt_routes_def routes_agree_def update_list_routes)
  qed
next
  case False
  show ?thesis
  proof (cases content)
    case (Response dr)
    with assms(2) False have g: "generateEventsFromDiscoveryResponseV3 pl dec ordh p file dr = Ret (p', evs)"
      by (simp add: handleFileEvent_def)
    then obtain p1 rm upd where s:
      "resource_loop pl dec ordh p (drResources dr) zero_manifest [] = Ret (p1, rm, upd)"
      "state_at p' file = Some rm"
      "evs = generateEvents pl (Some rm) (state_at p1 file)
         @ map (\<lambda>ups. mk_event EventUpdate (OUpstream ups) ONil) upd"
      by (rule file_state_after)
    have "state_at p1 file = state_at p file"
      using resource_loop_state [OF s(1)] by (simp add: state_at_def)
    with generateEvents_opt_agrees(1) [OF assms(1,3), of "Some rm"] s False show ?thesis
      using update_list_routes [of pl _ "\<lambda>u. u" upd] by (simp add: routes_agree_def opt_routes_def)
  qed (use assms False in \<open>simp_all add: handleFileEvent_def\<close>)
qed

section \<open>Properties\<close>

text \<open>C19: a file event keeps the routes in step: if the cache agrees with the routes the provisioner has
  for the file, then after the events of a write, of a removal or of a write that cannot be read it
  agrees with the routes the provisioner has for the file then (none after a removal).\<close>

theorem file_routes_sync:
  assumes "proto_ok pl" "handleFileEvent pl dec ordh p op file content = Ret (p', evs)"
    and "routes_agree pl c (opt_routes (state_at p file))"
  shows "routes_agree pl (cache_after pl c evs) (opt_routes (state_at p' file))
    \<and> (op = FsRemove \<longrightarrow> state_at p' file = None)"
  by (rule file_event_sync [OF assms])

lemma file_routes_sync_witness:
  "\<exists>p' evs. handleFileEvent std_lib example_decoders rev
       (NewFileProvisioner\<lparr>fpState := [(''f'', Some (zero_manifest\<lparr>mRoutes := Some []\<rparr>))]\<rparr>) FsRemove ''f'' ReadError
         = Ret (p', evs) \<and> state_at p' ''f'' = None"
proof -
  let ?p = "NewFileProvisioner\<lparr>fpState := [(''f'', Some (zero_manifest\<lparr>mRoutes := Some []\<rparr>))]\<rparr>"
  obtain p' evs where h: "handleFileEvent std_lib example_decoders rev ?p FsRemove ''f'' ReadError = Ret (p', evs)"
    by (simp add: handleFileEvent_def file_generateEvents_def)
  have "routes_agree std_lib NewInMemoryCache (opt_routes (state_at ?p ''f''))"
    by (simp add: routes_agree_def NewInMemoryCache_def newRoute_def state_at_def opt_routes_def)
  from file_routes_sync [OF proto_ok_std h this] h show ?thesis by blast
qed

text \<open>Merging a load assignment into the clusters of the same file considers the first cluster only
  (the inner loop reads the manifest at the index of the new upstream): an upstream of any other
  cluster of the file is left without nodes in the manifest and goes out as an update of its own.\<close>

theorem load_assignment_merge:
  assumes "file_processClusterLoadAssignmentV3 pl dec p res = Ret (p', us)" "us \<noteq> []"
  shows "\<exists>u. us = [u] \<and> merge_outer ms 0 us [] = Ret (case ms of
      [] \<Rightarrow> ([], [u])
    | m # rest \<Rightarrow> if uName m = uName u then (u # rest, []) else (ms, [u]))"
  using file_CLA_length [OF assms(1)] assms(2) merge_outer_single by blast

definition assignment_decoders :: decoders where
  "assignment_decoders = example_decoders\<lparr>dec_assignment := (\<lambda>_. Inr \<lparr>laClusterName = ''b'',
     laEndpoints = [\<lparr>lwWeight = None, lwEndpoints = [\<lparr>epWeight = None, epHost = Endpoint (Some (SocketAddress
       \<lparr>saProtocol = TCP, saAddress = ''10.0.0.1'', saPort = NoPort\<rparr>))\<rparr>]\<rparr>]\<rparr>)\<rparr>"

definition named_upstream :: "string \<Rightarrow> upstream" where
  "named_upstream n = zero_upstream\<lparr>uName := n, uId := GenID n, uNodes := Some []\<rparr>"

definition cached_b :: file_provisioner where
  "cached_b = NewFileProvisioner\<lparr>upstreamCache := [(''b'', named_upstream ''b'')]\<rparr>"

lemma assignment_b:
  "\<exists>u p'. file_processClusterLoadAssignmentV3 std_lib assignment_decoders cached_b res = Ret (p', [u])
     \<and> uName u = ''b'' \<and> elems (uNodes u) \<noteq> [] \<and> map_of (upstreamCache p') ''b'' = Some u"
  by (simp add: file_processClusterLoadAssignmentV3_def assignment_decoders_def cached_b_def named_upstream_def
      TranslateClusterLoadAssignment_def translateLocality_def translateEndpoint_def Let_def
      std_lib_def std_clone_upstream_def zero_upstream_def)

lemma load_assignment_merge_witness:
  "\<exists>u p'. file_processClusterLoadAssignmentV3 std_lib assignment_decoders cached_b res = Ret (p', [u])
     \<and> merge_outer [named_upstream ''a'', named_upstream ''b''] 0 [u] [] =
         Ret ([named_upstream ''a'', named_upstream ''b''], [u])"
proof -
  obtain u p' where u: "file_processClusterLoadAssignmentV3 std_lib assignment_decoders cached_b res = Ret (p', [u])"
    "uName u = ''b''" using assignment_b by blast
  have n: "uName (named_upstream ''a'') = ''a''" by (simp add: named_upstream_def)
  obtain v where "[u] = [v]" "merge_outer [named_upstream ''a'', named_upstream ''b''] 0 [u] [] =
      Ret (case [named_upstream ''a'', named_upstream ''b''] of
        [] \<Rightarrow> ([], [v])
      | m # rest \<Rightarrow> if uName m = uName v then (v # rest, []) else ([named_upstream ''a'', named_upstream ''b''], [v]))"
    using load_assignment_merge [OF u(1), of "[named_upstream ''a'', named_upstream ''b'']"] by blast
  with u n show ?thesis by (intro exI [of _ u] exI [of _ p']) simp
qed

text \<open>The first load assignment with nodes is final: any later one for the same cluster is turned away
  as redundant, with the nodes of the first one still in use, so nodes are never updated by EDS.\<close>

theorem load_assignment_is_final:
  assumes "file_processClusterLoadAssignmentV3 pl dec p res = Ret (p', [u])" "0 < length (elems (uNodes u))"
    and "dec_assignment dec res = Inr cla" "dec_assignment dec res2 = Inr cla2"
    and "laClusterName cla2 = laClusterName cla"
  shows "file_processClusterLoadAssignmentV3 pl dec p' res2 = Ret (p', [])
    \<and> map_of (upstreamCache p') (laClusterName cla2) = Some u"
proof -
  from assms(1,3) obtain ups nodes where "u = (clone_upstream pl ups)\<lparr>uNodes := nodes\<rparr>"
    "p' = p\<lparr>upstreamCache := AList.update (laClusterName cla) u (upstreamCache p)\<rparr>"
    by (auto simp: file_processClusterLoadAssignmentV3_def go_bind_Ret_iff Let_def split: option.splits if_splits)
  with assms(2,4,5) show ?thesis
    by (simp add: file_processClusterLoadAssignmentV3_def map_of_update)
qed

lemma load_assignment_is_final_witness:
  "\<exists>u p'. file_processClusterLoadAssignmentV3 std_lib assignment_decoders cached_b
        \<lparr>aTypeUrl = ClusterLoadAssignmentUrl, aValue = ''1''\<rparr> = Ret (p', [u])
     \<and> file_processClusterLoadAssignmentV3 std_lib assignment_decoders p'
        \<lparr>aTypeUrl = ClusterLoadAssignmentUrl, aValue = ''2''\<rparr> = Ret (p', [])"
proof -
  let ?res = "\<lparr>aTypeUrl = ClusterLoadAssignmentUrl, aValue = ''1''\<rparr>"
    and ?res2 = "\<lparr>aTypeUrl = ClusterLoadAssignmentUrl, aValue = ''2''\<rparr>"
  obtain u p' where u: "file_processClusterLoadAssignmentV3 std_lib assignment_decoders cached_b ?res = Ret (p', [u])"
    "elems (uNodes u) \<noteq> []" using assignment_b by blast
  have d: "dec_assignment assignment_decoders r = dec_assignment assignment_decoders ?res" for r
    by (simp add: assignment_decoders_def)
  obtain cla where "dec_assignment assignment_decoders ?res = Inr cla"
    by (simp add: assignment_decoders_def)
  with load_assignment_is_final [OF u(1) _ this] d [of ?res2] u show ?thesis by auto
qed

end
