(* ===== verification/Etcd_State.thy ===== *)
theory Etcd_State
  imports Object_Cache
begin

text \<open>
  The state of the mimicked etcd server (\<open>pkg/etcdv3/etcd.go\<close>), the messages of the etcd API it
  handles, and the checks of \<open>pkg/etcdv3/conformance.go\<close> that turn away what it does not
  support. The etcd messages are third-party types; the records have the fields the code reads
  or writes. \<open>json.Marshal\<close> of a resource is the argument \<open>marshaller\<close>: the bytes are passed on
  unread, and \<open>None\<close> is an encoding error.
\<close>

section \<open>Definitions\<close>

subsection \<open>Messages\<close>

datatype rpc_error =
    ErrEmptyKey | ErrKeyNotFound | ErrNotCapable | InternalError
  | DuplicatedWatchId | UnknownWatchId i64 | MarshalError | SendError

datatype sort_order = SortNone | SortAscend | SortDescend

record range_request =
  rqKey :: string
  rqRangeEnd :: "string option"
  rqLimit :: i64
  rqSortOrder :: sort_order
  rqKeysOnly :: bool
  rqRevision :: i64
  rqMinCreateRevision :: i64
  rqMaxCreateRevision :: i64
  rqMinModRevision :: i64
  rqMaxModRevision :: i64

record key_value =
  kvKey :: string
  kvCreateRevision :: i64
  kvModRevision :: i64
  kvValue :: "string option"

record range_response =
  rsRevision :: i64
  rsKvs :: "key_value list"
  rsCount :: i64

record create_request =
  crKey :: string
  crRangeEnd :: string
  crStartRevision :: i64
  crWatchId :: i64
  crPrevKv :: bool
  crProgressNotify :: bool
  crFragment :: bool

text \<open>The oneof of a watch request; the inner message may be nil.\<close>

datatype watch_request =
    WatchCreate "create_request option" | WatchCancel "i64 option" | WatchProgress | WatchNil

record kv_event =
  evDelete :: bool
  evKv :: key_value

record watch_response =
  wrRevision :: i64
  wrWatchId :: i64
  wrCreated :: bool
  wrCanceled :: bool
  wrEvents :: "kv_event list"

record marshaller =
  marshal_route :: "route \<Rightarrow> string option"
  marshal_upstream :: "upstream \<Rightarrow> string option"

definition marshals :: "marshaller \<Rightarrow> bool" where
  "marshals js \<longleftrightarrow> (\<forall>r. marshal_route js r \<noteq> None) \<and> (\<forall>u. marshal_upstream js u \<noteq> None)"

subsection \<open>State\<close>

record meta =
  createRevision :: i64
  modRevision :: i64

record watch_stream =
  wsId :: i64
  wsRoute :: "(i64, unit) gomap"
  wsUpstream :: "(i64, unit) gomap"

record etcd =
  metaCache :: "(string, meta) gomap"
  keyPrefix :: string
  nextWatchId :: i64
  watchers :: "(i64, watch_stream) gomap"

definition NewEtcdV3Server :: "string \<Rightarrow> etcd" where
  "NewEtcdV3Server prefix =
     \<lparr>metaCache = [], keyPrefix = prefix, nextWatchId = 0, watchers = []\<rparr>"

definition route_key :: "string \<Rightarrow> string \<Rightarrow> string" where
  "route_key prefix i = prefix @ ''/routes/'' @ i"

definition upstream_key :: "string \<Rightarrow> string \<Rightarrow> string" where
  "upstream_key prefix i = prefix @ ''/upstreams/'' @ i"

subsection \<open>Conformance checks\<close>

definition checkRangeRequestConformance :: "string \<Rightarrow> range_request \<Rightarrow> rpc_error option" where
  "checkRangeRequestConformance prefix r =
     (if length (rqKey r) = 0 then Some ErrEmptyKey
      else
        let key = rqKey r; rangeEnd = (case rqRangeEnd r of None \<Rightarrow> '''' | Some x \<Rightarrow> x)
        in if \<not> (rqRangeEnd r = None
                 \<or> (key = prefix @ ''/routes'' \<and> rangeEnd = prefix @ ''/routet'')
                 \<or> (key = prefix @ ''/upstreams'' \<and> rangeEnd = prefix @ ''/upstreamt''))
           then Some ErrKeyNotFound
           else if rqLimit r \<noteq> 0 then Some ErrNotCapable
           else if rqSortOrder r \<noteq> SortNone then Some ErrNotCapable
           else if 0 < sint (rqRevision r) \<or> 0 < sint (rqMinCreateRevision r)
                   \<or> 0 < sint (rqMaxCreateRevision r) \<or> 0 < sint (rqMinModRevision r)
                   \<or> 0 < sint (rqMaxModRevision r)
           then Some ErrNotCapable
           else None)"

definition checkWatchRequestConformance :: "string \<Rightarrow> watch_request \<Rightarrow> rpc_error option" where
  "checkWatchRequestConformance prefix r =
     (case r of
        WatchCancel _ \<Rightarrow> None
      | WatchCreate None \<Rightarrow> None
      | WatchCreate (Some cr) \<Rightarrow>
          (let key = crKey cr; rangeEnd = crRangeEnd cr
           in if length key = 0 then Some ErrEmptyKey
              else if \<not> ((key = prefix @ ''/routes'' \<and> rangeEnd = prefix @ ''/routet'')
                        \<or> (key = prefix @ ''/upstreams'' \<and> rangeEnd = prefix @ ''/upstreamt''))
              then Some ErrKeyNotFound
              else if crPrevKv cr then Some ErrNotCapable
              else if crProgressNotify cr then Some ErrNotCapable
              else if crFragment cr then Some ErrNotCapable
              else None)
      | WatchProgress \<Rightarrow> Some ErrNotCapable
      | WatchNil \<Rightarrow> None)"

subsection \<open>Specification of the checks\<close>

text \<open>The two directories a client can read, each with its end of range.\<close>

definition readdir :: "string \<Rightarrow> string \<Rightarrow> string \<Rightarrow> bool" where
  "readdir prefix key rangeEnd \<longleftrightarrow>
     (key, rangeEnd) \<in> {(prefix @ ''/routes'', prefix @ ''/routet''),
                        (prefix @ ''/upstreams'', prefix @ ''/upstreamt'')}"

definition plain_request :: "range_request \<Rightarrow> bool" where
  "plain_request r \<longleftrightarrow> rqLimit r = 0 \<and> rqSortOrder r = SortNone
     \<and> (\<forall>v \<in> {rqRevision r, rqMinCreateRevision r, rqMaxCreateRevision r,
               rqMinModRevision r, rqMaxModRevision r}. sint v \<le> 0)"

section \<open>Lemmas\<close>

lemma readdir_nonempty: "readdir prefix key rangeEnd \<Longrightarrow> key \<noteq> []"
  by (auto simp: readdir_def)

lemma check_range_accepts:
  "checkRangeRequestConformance prefix r = None \<longleftrightarrow>
     rqKey r \<noteq> [] \<and> (\<forall>x. rqRangeEnd r = Some x \<longrightarrow> readdir prefix (rqKey r) x) \<and> plain_request r"
  by (cases "rqRangeEnd r")
    (auto simp: checkRangeRequestConformance_def plain_request_def readdir_def Let_def)

lemma check_range_errors:
  "checkRangeRequestConformance prefix r = Some e \<Longrightarrow> e \<in> {ErrEmptyKey, ErrKeyNotFound, ErrNotCapable}"
  by (auto simp: checkRangeRequestConformance_def Let_def split: if_splits)

lemma check_watch_accepts:
  "checkWatchRequestConformance prefix (WatchCreate (Some cr)) = None \<longleftrightarrow>
     readdir prefix (crKey cr) (crRangeEnd cr)
     \<and> \<not> crPrevKv cr \<and> \<not> crProgressNotify cr \<and> \<not> crFragment cr"
  by (auto simp: checkWatchRequestConformance_def readdir_def Let_def)

subsection \<open>Keys\<close>

lemma key_inj [simp]:
  "route_key p i = route_key p j \<longleftrightarrow> i = j"
  "upstream_key p i = upstream_key p j \<longleftrightarrow> i = j"
  "route_key p i \<noteq> upstream_key p j" "upstream_key p j \<noteq> route_key p i"
  by (auto simp: route_key_def upstream_key_def)

lemma TrimPrefix_keys [simp]:
  "TrimPrefix (route_key p i) p = ''/routes/'' @ i"
  "TrimPrefix (upstream_key p i) p = ''/upstreams/'' @ i"
  "HasPrefix (route_key p i) p" "HasPrefix (upstream_key p i) p"
  by (simp_all add: route_key_def upstream_key_def)

lemma marshals_neq:
  assumes "marshals js"
  shows "marshal_route js r = None \<longleftrightarrow> False" "marshal_upstream js u = None \<longleftrightarrow> False"
  using assms by (simp_all add: marshals_def)

section \<open>An instance of the encoder\<close>

definition std_marshaller :: marshaller where
  "std_marshaller = \<lparr>marshal_route = (\<lambda>r. Some (rId r)), marshal_upstream = (\<lambda>u. Some (uId u))\<rparr>"

lemma marshals_std [simp, intro]: "marshals std_marshaller"
  by (simp add: marshals_def std_marshaller_def)

definition plain_range :: "string \<Rightarrow> string option \<Rightarrow> range_request" where
  "plain_range key rangeEnd = \<lparr>rqKey = key, rqRangeEnd = rangeEnd, rqLimit = 0, rqSortOrder = SortNone,
     rqKeysOnly = False, rqRevision = 0, rqMinCreateRevision = 0, rqMaxCreateRevision = 0,
     rqMinModRevision = 0, rqMaxModRevision = 0\<rparr>"

lemma plain_range_plain [simp]: "plain_request (plain_range key rangeEnd)"
  by (simp add: plain_request_def plain_range_def)

lemma plain_range_simps [simp]:
  "rqKey (plain_range key rangeEnd) = key" "rqRangeEnd (plain_range key rangeEnd) = rangeEnd"
  "rqKeysOnly (plain_range key rangeEnd) = False"
  by (simp_all add: plain_range_def)

section \<open>Properties\<close>

text \<open>Which range requests are served: a non-empty key, alone or with the end of range of one of
  the two directories, and none of the options (limit, sorting, positive revision bounds) the server
  does not implement. Every other request gets one of three errors.\<close>

theorem range_conformance:
  "(checkRangeRequestConformance prefix r = None \<longleftrightarrow>
      rqKey r \<noteq> [] \<and> (case rqRangeEnd r of None \<Rightarrow> True | Some x \<Rightarrow> readdir prefix (rqKey r) x) \<and> plain_request r)
    \<and> checkRangeRequestConformance prefix r \<in> {None, Some ErrEmptyKey, Some ErrKeyNotFound, Some ErrNotCapable}"
  using check_range_accepts [of prefix r] check_range_errors [of prefix r]
  by (cases "checkRangeRequestConformance prefix r") (auto split: option.splits)

text \<open>Which watch requests are served: a cancellation always; a creation when it watches one of
  the two directories and asks for none of previous values, progress notifications and
  fragmentation; a progress request never.\<close>

theorem watch_conformance:
  "(checkWatchRequestConformance prefix (WatchCreate (Some cr)) = None \<longleftrightarrow>
      readdir prefix (crKey cr) (crRangeEnd cr) \<and> \<not> crPrevKv cr \<and> \<not> crProgressNotify cr \<and> \<not> crFragment cr)
    \<and> checkWatchRequestConformance prefix (WatchCancel i) = None
    \<and> checkWatchRequestConformance prefix WatchProgress = Some ErrNotCapable"
  using check_watch_accepts [of prefix cr] by (simp add: checkWatchRequestConformance_def)

end
