(* ===== verification/Etcd_KV.thy ===== *)
theory Etcd_KV
  imports Etcd_State
begin

text \<open>
  \<open>pkg/etcdv3/kv.go\<close>: the KV service. A range request reads the cache and attaches to each
  object the revisions in the metadata cache, filling in the current revision where there is
  none yet: reading is the only other place (beside the events) that writes metadata. The
  revision (\<open>rv\<close>) is read from the sidecar while the request is served.
\<close>

section \<open>Definitions\<close>

definition emptyRangeResponse :: "i64 \<Rightarrow> range_response" where
  "emptyRangeResponse rv = \<lparr>rsRevision = rv, rsKvs = [], rsCount = 0\<rparr>"

definition composeKeyValue :: "i64 \<Rightarrow> etcd \<Rightarrow> string \<Rightarrow> string \<Rightarrow> etcd \<times> key_value" where
  "composeKeyValue rv e key value =
     (case map_of (metaCache e) key of
        Some m \<Rightarrow> (e, \<lparr>kvKey = key, kvCreateRevision = createRevision m,
                        kvModRevision = modRevision m, kvValue = Some value\<rparr>)
      | None \<Rightarrow>
          (e\<lparr>metaCache := AList.update key \<lparr>createRevision = rv, modRevision = rv\<rparr> (metaCache e)\<rparr>,
           \<lparr>kvKey = key, kvCreateRevision = rv, kvModRevision = rv, kvValue = Some value\<rparr>))"

definition findExactKey ::
    "proto_lib \<Rightarrow> marshaller \<Rightarrow> cache \<Rightarrow> i64 \<Rightarrow> etcd \<Rightarrow> string \<Rightarrow> etcd \<times> (rpc_error + range_response)" where
  "findExactKey pl js c rv e key =
     (if \<not> HasPrefix key (keyPrefix e) then (e, Inl ErrKeyNotFound)
      else
        let tempKey = TrimPrefix key (keyPrefix e);
            answer = (\<lambda>value. case composeKeyValue rv e key value of (e', kv) \<Rightarrow>
                        (e', Inr \<lparr>rsRevision = 0, rsKvs = [kv], rsCount = 1\<rparr>))
        in case Split tempKey (CHR ''/'') of
             [p0, kind, i] \<Rightarrow>
               (if p0 \<noteq> '''' then (e, Inl ErrKeyNotFound)
                else if kind = ''routes'' then
                  (case route_Get pl (cRoute c) i of
                     Inl ErrObjectNotFound \<Rightarrow> (e, Inl ErrKeyNotFound)
                   | Inr r \<Rightarrow> (case marshal_route js r of
                                  None \<Rightarrow> (e, Inl InternalError) | Some v \<Rightarrow> answer v))
                else if kind = ''upstreams'' then
                  (case upstream_Get pl (cUpstream c) i of
                     Inl ErrObjectNotFound \<Rightarrow> (e, Inl ErrKeyNotFound)
                   | Inr u \<Rightarrow> (case marshal_upstream js u of
                                  None \<Rightarrow> (e, Inl InternalError) | Some v \<Rightarrow> answer v))
                else (e, Inl ErrKeyNotFound))
           | _ \<Rightarrow> (e, Inl ErrKeyNotFound))"

text \<open>
  The two loops of \<open>findAllKeys\<close>: every item is encoded and given its metadata; an encoding
  error ends the loop, after the metadata of the items before it has been written.
\<close>

fun list_items ::
    "('o \<Rightarrow> string option) \<Rightarrow> ('o \<Rightarrow> string) \<Rightarrow> i64 \<Rightarrow> etcd \<Rightarrow> 'o list \<Rightarrow> key_value list
       \<Rightarrow> etcd \<times> (rpc_error + key_value list)" where
  "list_items enc key rv e [] kvs = (e, Inr kvs)"
| "list_items enc key rv e (x # xs) kvs =
     (case enc x of
        None \<Rightarrow> (e, Inl InternalError)
      | Some value \<Rightarrow>
          let (e', kv) = composeKeyValue rv e (key x) value
          in list_items enc key rv e' xs (kvs @ [kv]))"

definition findAllKeys ::
    "proto_lib \<Rightarrow> marshaller \<Rightarrow> (string, route) iter \<Rightarrow> (string, upstream) iter \<Rightarrow> cache \<Rightarrow> i64 \<Rightarrow> etcd
       \<Rightarrow> string \<Rightarrow> etcd \<times> (rpc_error + range_response)" where
  "findAllKeys pl js ordr ordu c rv e key =
     (if \<not> HasPrefix key (keyPrefix e) then (e, Inl ErrKeyNotFound)
      else
        let tempKey = TrimPrefix key (keyPrefix e);
            answer = (\<lambda>(e', res). case res of
                        Inl err \<Rightarrow> (e', Inl err)
                      | Inr kvs \<Rightarrow> (e', Inr \<lparr>rsRevision = 0, rsKvs = kvs, rsCount = of_nat (length kvs)\<rparr>))
        in case Split tempKey (CHR ''/'') of
             [p0, kind] \<Rightarrow>
               (if p0 \<noteq> '''' then (e, Inl ErrKeyNotFound)
                else if kind = ''routes'' then
                  answer (list_items (marshal_route js) (\<lambda>r. keyPrefix e @ ''/routes/'' @ rId r) rv e
                            (route_List pl ordr (cRoute c)) [])
                else if kind = ''upstreams'' then
                  answer (list_items (marshal_upstream js) (\<lambda>u. keyPrefix e @ ''/upstreams/'' @ uId u) rv e
                            (upstream_List pl ordu (cUpstream c)) [])
                else (e, Inl ErrKeyNotFound))
           | _ \<Rightarrow> (e, Inl ErrKeyNotFound))"

definition Range ::
    "proto_lib \<Rightarrow> marshaller \<Rightarrow> (string, route) iter \<Rightarrow> (string, upstream) iter \<Rightarrow> cache \<Rightarrow> i64 \<Rightarrow> etcd
       \<Rightarrow> range_request \<Rightarrow> etcd \<times> (rpc_error + range_response)" where
  "Range pl js ordr ordu c rv e r =
     (case checkRangeRequestConformance (keyPrefix e) r of
        Some err \<Rightarrow>
          (if err = ErrKeyNotFound then (e, Inr (emptyRangeResponse rv)) else (e, Inl err))
      | None \<Rightarrow>
          (case (if rqRangeEnd r = None then findExactKey pl js c rv e (rqKey r)
                 else findAllKeys pl js ordr ordu c rv e (rqKey r)) of
             (e', Inl err) \<Rightarrow>
               (if err \<noteq> ErrKeyNotFound then (e', Inl err) else (e', Inr (emptyRangeResponse rv)))
           | (e', Inr resp) \<Rightarrow>
               (e', Inr (if rqKeysOnly r
                         then resp\<lparr>rsKvs := map (\<lambda>kv. kv\<lparr>kvValue := None\<rparr>) (rsKvs resp)\<rparr>
                         else resp))))"

text \<open>The other methods of the service: a put is accepted and discarded, the rest refused.\<close>

definition Put_rpc :: "i64 \<Rightarrow> rpc_error + i64" where
  "Put_rpc rv = Inr rv"

definition DeleteRange :: "rpc_error + unit" where
  "DeleteRange = Inl ErrNotCapable"

definition Txn :: "rpc_error + unit" where
  "Txn = Inl ErrNotCapable"

definition Compact :: "rpc_error + unit" where
  "Compact = Inl ErrNotCapable"

subsection \<open>Specification\<close>

text \<open>The metadata a key has, or gets when it is first read.\<close>

definition meta_at :: "i64 \<Rightarrow> etcd \<Rightarrow> string \<Rightarrow> meta" where
  "meta_at rv e key = (case map_of (metaCache e) key of
     Some m \<Rightarrow> m | None \<Rightarrow> \<lparr>createRevision = rv, modRevision = rv\<rparr>)"

definition kv_at :: "i64 \<Rightarrow> etcd \<Rightarrow> string \<Rightarrow> string \<Rightarrow> key_value" where
  "kv_at rv e key value = \<lparr>kvKey = key, kvCreateRevision = createRevision (meta_at rv e key),
     kvModRevision = modRevision (meta_at rv e key), kvValue = Some value\<rparr>"

text \<open>Reading adds metadata for the keys it answers with and changes nothing else.\<close>

definition touched :: "i64 \<Rightarrow> etcd \<Rightarrow> string set \<Rightarrow> etcd \<Rightarrow> bool" where
  "touched rv e keys e' \<longleftrightarrow>
     keyPrefix e' = keyPrefix e \<and> nextWatchId e' = nextWatchId e \<and> watchers e' = watchers e \<and> (gm_ok (metaCache e) \<longrightarrow> gm_ok (metaCache e')) \<and>
     (\<forall>k. map_of (metaCache e') k =
        (if k \<in> keys then Some (meta_at rv e k) else map_of (metaCache e) k))"

section \<open>Lemmas\<close>

lemma touched_refl: "touched rv e {} e"
  by (simp add: touched_def)

lemma composeKeyValue_eq:
  assumes "composeKeyValue rv e key value = (e', kv)"
  shows "kv = kv_at rv e key value" and "touched rv e {key} e'"
  using assms
  by (auto simp: composeKeyValue_def kv_at_def meta_at_def touched_def map_of_update
      split: option.splits)

lemma touched_trans:
  "touched rv e K e1 \<Longrightarrow> touched rv e1 L e2 \<Longrightarrow> touched rv e (K \<union> L) e2"
  by (auto simp: touched_def meta_at_def)

lemma kv_at_touched: "touched rv e K e1 \<Longrightarrow> kv_at rv e1 key v = kv_at rv e key v"
  by (auto simp: touched_def kv_at_def meta_at_def split: option.splits)

lemma list_items_ok:
  assumes "\<And>x. x \<in> set xs \<Longrightarrow> enc x = Some (val x)"
  shows "\<exists>e'. list_items enc key rv e xs kvs =
      (e', Inr (kvs @ map (\<lambda>x. kv_at rv e (key x) (val x)) xs)) \<and> touched rv e (key ` set xs) e'"
  using assms
proof (induction xs arbitrary: e kvs)
  case Nil
  then show ?case by (simp add: touched_refl)
next
  case (Cons x xs)
  obtain e1 kv where ck: "composeKeyValue rv e (key x) (val x) = (e1, kv)"
    by (cases "composeKeyValue rv e (key x) (val x)")
  note kv = composeKeyValue_eq [OF ck]
  obtain e2 where e2: "list_items enc key rv e1 xs (kvs @ [kv]) =
      (e2, Inr ((kvs @ [kv]) @ map (\<lambda>x. kv_at rv e1 (key x) (val x)) xs))"
      "touched rv e1 (key ` set xs) e2"
    using Cons.IH Cons.prems by fastforce
  have "touched rv e (insert (key x) (key ` set xs)) e2"
    using touched_trans [OF kv(2) e2(2)] by simp
  with Cons.prems ck e2 kv show ?case
    by (simp add: kv_at_touched [OF kv(2)])
qed

text \<open>The keys the server addresses, parsed as the code parses them.\<close>

lemma Split_route_key:
  "CHR ''/'' \<notin> set i \<Longrightarrow> Split (''/routes/'' @ i) (CHR ''/'') = ['''', ''routes'', i]"
  "CHR ''/'' \<notin> set i \<Longrightarrow> Split (''/upstreams/'' @ i) (CHR ''/'') = ['''', ''upstreams'', i]"
  unfolding Split_3 by simp_all

lemma Split_dir_key:
  "Split ''/routes'' (CHR ''/'') = ['''', ''routes'']"
  "Split ''/upstreams'' (CHR ''/'') = ['''', ''upstreams'']"
  by simp_all

lemma findExactKey_route:
  assumes "CHR ''/'' \<notin> set i"
  shows "findExactKey pl js c rv e (route_key (keyPrefix e) i) =
    (case route_Get pl (cRoute c) i of
       Inl _ \<Rightarrow> (e, Inl ErrKeyNotFound)
     | Inr r \<Rightarrow>
         (case marshal_route js r of
            None \<Rightarrow> (e, Inl InternalError)
          | Some v \<Rightarrow> (case composeKeyValue rv e (route_key (keyPrefix e) i) v of (e', kv) \<Rightarrow>
              (e', Inr \<lparr>rsRevision = 0, rsKvs = [kv], rsCount = 1\<rparr>))))"
  using assms
  by (simp add: findExactKey_def Let_def Split_noSep split: sum.splits cache_error.splits)

lemma findExactKey_upstream:
  assumes "CHR ''/'' \<notin> set i"
  shows "findExactKey pl js c rv e (upstream_key (keyPrefix e) i) =
    (case upstream_Get pl (cUpstream c) i of
       Inl _ \<Rightarrow> (e, Inl ErrKeyNotFound)
     | Inr u \<Rightarrow>
         (case marshal_upstream js u of
            None \<Rightarrow> (e, Inl InternalError)
          | Some v \<Rightarrow> (case composeKeyValue rv e (upstream_key (keyPrefix e) i) v of (e', kv) \<Rightarrow>
              (e', Inr \<lparr>rsRevision = 0, rsKvs = [kv], rsCount = 1\<rparr>))))"
  using assms
  by (simp add: findExactKey_def Let_def Split_noSep split: sum.splits cache_error.splits)

text \<open>A hit of the exact-key lookup is a key of one of the two forms, with its object cached.\<close>

lemma findExactKey_found:
  assumes "findExactKey pl js c rv e key = (e', Inr resp)"
  shows "(\<exists>i. key = route_key (keyPrefix e) i \<and> CHR ''/'' \<notin> set i \<and> has_key (cRoute c) i) \<or>
    (\<exists>i. key = upstream_key (keyPrefix e) i \<and> CHR ''/'' \<notin> set i \<and> has_key (cUpstream c) i)"
proof -
  from assms obtain t where t: "key = keyPrefix e @ t"
    by (auto simp: findExactKey_def HasPrefix_iff split: if_splits)
  from assms obtain kind i where sp: "Split t (CHR ''/'') = ['''', kind, i]"
    by (auto simp: findExactKey_def t Let_def split: list.splits if_splits)
  then have "t = ''/'' @ kind @ ''/'' @ i" "CHR ''/'' \<notin> set i" by (simp_all add: Split_3)
  with assms sp show ?thesis
    by (auto simp: findExactKey_def t Let_def route_key_def upstream_key_def has_key_def
        route_Get_def upstream_Get_def
        split: if_splits sum.splits option.splits cache_error.splits)
qed

lemma findExactKey_error:
  "marshals js \<Longrightarrow> findExactKey pl js c rv e key = (e', Inl err) \<Longrightarrow> err = ErrKeyNotFound \<and> e' = e"
  by (auto simp: findExactKey_def Let_def marshals_neq
      split: if_splits list.splits sum.splits option.splits cache_error.splits prod.splits)

lemma findAllKeys_routes:
  assumes "marshals js"
  shows "\<exists>e'. findAllKeys pl js ordr ordu c rv e (keyPrefix e @ ''/routes'') =
      (e', Inr \<lparr>rsRevision = 0,
         rsKvs = map (\<lambda>r. kv_at rv e (route_key (keyPrefix e) (rId r)) (the (marshal_route js r)))
           (route_List pl ordr (cRoute c)),
         rsCount = of_nat (length (route_List pl ordr (cRoute c)))\<rparr>)
    \<and> touched rv e ((\<lambda>r. route_key (keyPrefix e) (rId r)) ` set (route_List pl ordr (cRoute c))) e'"
  using assms list_items_ok [of "route_List pl ordr (cRoute c)" "marshal_route js"
      "\<lambda>r. the (marshal_route js r)" "\<lambda>r. route_key (keyPrefix e) (rId r)" rv e "[]"]
  by (auto simp: findAllKeys_def marshals_def route_key_def)

lemma findAllKeys_upstreams:
  assumes "marshals js"
  shows "\<exists>e'. findAllKeys pl js ordr ordu c rv e (keyPrefix e @ ''/upstreams'') =
      (e', Inr \<lparr>rsRevision = 0,
         rsKvs = map (\<lambda>u. kv_at rv e (upstream_key (keyPrefix e) (uId u)) (the (marshal_upstream js u)))
           (upstream_List pl ordu (cUpstream c)),
         rsCount = of_nat (length (upstream_List pl ordu (cUpstream c)))\<rparr>)
    \<and> touched rv e ((\<lambda>u. upstream_key (keyPrefix e) (uId u)) ` set (upstream_List pl ordu (cUpstream c))) e'"
  using assms list_items_ok [of "upstream_List pl ordu (cUpstream c)" "marshal_upstream js"
      "\<lambda>u. the (marshal_upstream js u)" "\<lambda>u. upstream_key (keyPrefix e) (uId u)" rv e "[]"]
  by (auto simp: findAllKeys_def marshals_def upstream_key_def)

text \<open>A request for the directory of routes.\<close>

lemma Range_routes:
  assumes "marshals js" "plain_request r" "rqKey r = keyPrefix e @ ''/routes''"
    "rqRangeEnd r = Some (keyPrefix e @ ''/routet'')" "\<not> rqKeysOnly r"
  shows "\<exists>e'. Range pl js ordr ordu c rv e r = (e', Inr \<lparr>rsRevision = 0,
      rsKvs = map (\<lambda>x. kv_at rv e (route_key (keyPrefix e) (rId x)) (the (marshal_route js x)))
        (route_List pl ordr (cRoute c)),
      rsCount = of_nat (length (route_List pl ordr (cRoute c)))\<rparr>)
    \<and> touched rv e ((\<lambda>x. route_key (keyPrefix e) (rId x)) ` set (route_List pl ordr (cRoute c))) e'"
proof -
  have "checkRangeRequestConformance (keyPrefix e) r = None"
    using assms by (simp add: check_range_accepts readdir_def)
  moreover obtain e' where "findAllKeys pl js ordr ordu c rv e (keyPrefix e @ ''/routes'') = (e', Inr \<lparr>rsRevision = 0,
      rsKvs = map (\<lambda>x. kv_at rv e (route_key (keyPrefix e) (rId x)) (the (marshal_route js x)))
        (route_List pl ordr (cRoute c)),
      rsCount = of_nat (length (route_List pl ordr (cRoute c)))\<rparr>)"
    "touched rv e ((\<lambda>x. route_key (keyPrefix e) (rId x)) ` set (route_List pl ordr (cRoute c))) e'"
    using findAllKeys_routes [OF assms(1)] by blast
  ultimately show ?thesis
    using assms(3-5) unfolding Range_def by (intro exI [of _ e']) simp
qed

section \<open>Properties\<close>

text \<open>Reading the directory of routes lists exactly the cached routes, each once, under its key,
  encoded, with the revisions its metadata has (the current revision if it has none yet); the
  metadata of the listed keys is filled in and nothing else changes.\<close>

theorem range_lists_routes:
  assumes "marshals js" "plain_request r" "rqKey r = keyPrefix e @ ''/routes''"
    "rqRangeEnd r = Some (keyPrefix e @ ''/routet'')" "\<not> rqKeysOnly r"
  shows "\<exists>e'. Range pl js ordr ordu c rv e r = (e', Inr \<lparr>rsRevision = 0,
      rsKvs = map (\<lambda>x. kv_at rv e (route_key (keyPrefix e) (rId x)) (the (marshal_route js x)))
        (route_List pl ordr (cRoute c)),
      rsCount = of_nat (length (route_List pl ordr (cRoute c)))\<rparr>)
    \<and> touched rv e ((\<lambda>x. route_key (keyPrefix e) (rId x)) ` set (route_List pl ordr (cRoute c))) e'"
  by (rule Range_routes [OF assms])

lemma range_lists_routes_witness:
  "\<exists>e' resp. Range std_lib std_marshaller rev rev
      (NewInMemoryCache\<lparr>cRoute := route_Insert std_lib [] (zero_route\<lparr>rId := ''7''\<rparr>)\<rparr>) 3
      (NewEtcdV3Server ''/a'') (plain_range ''/a/routes'' (Some ''/a/routet'')) = (e', Inr resp)
     \<and> rsKvs resp = [\<lparr>kvKey = ''/a/routes/7'', kvCreateRevision = 3, kvModRevision = 3, kvValue = Some ''7''\<rparr>]"
proof -
  let ?c = "NewInMemoryCache\<lparr>cRoute := route_Insert std_lib [] (zero_route\<lparr>rId := ''7''\<rparr>)\<rparr>"
  let ?r = "plain_range ''/a/routes'' (Some ''/a/routet'')"
  have l: "route_List std_lib rev (route_Insert std_lib [] (zero_route\<lparr>rId := ''7''\<rparr>)) = [zero_route\<lparr>rId := ''7''\<rparr>]"
    by (simp add: route_List_def route_Insert_def Let_def std_lib_def std_clone_route_def zero_route_def)
  have p: "keyPrefix (NewEtcdV3Server ''/a'') = ''/a''" by (simp add: NewEtcdV3Server_def)
  show ?thesis
    using range_lists_routes [OF marshals_std plain_range_plain, of "''/a/routes''" "Some ''/a/routet''"
        "NewEtcdV3Server ''/a''" std_lib rev rev ?c 3]
    by (auto simp: l p) (auto simp: kv_at_def meta_at_def NewEtcdV3Server_def route_key_def std_marshaller_def)
qed

text \<open>C15: the round trip of a key: reading the key of an inserted route (whose identifier has no
  slash, as all generated ones) answers with that key and the encoding of the stored route, and
  with its revisions; reading it after a delete answers with an empty response that carries the
  current revision.\<close>

theorem range_exact_round_trip:
  assumes "marshals js" "proto_ok pl" "plain_request r" "rqRangeEnd r = None" "\<not> rqKeysOnly r"
    and "CHR ''/'' \<notin> set (rId x)" "rqKey r = route_key (keyPrefix e) (rId x)"
  shows "snd (Range pl js ordr ordu (c\<lparr>cRoute := route_Insert pl s x\<rparr>) rv e r) =
      Inr \<lparr>rsRevision = 0, rsKvs = [kv_at rv e (rqKey r)
        (the (marshal_route js (clone_route pl (clone_route pl x))))], rsCount = 1\<rparr>
    \<and> (\<forall>s'. route_Delete s (rId x) = Inr s' \<longrightarrow>
          Range pl js ordr ordu (c\<lparr>cRoute := s'\<rparr>) rv e r = (e, Inr (emptyRangeResponse rv)))"
proof -
  have ok: "checkRangeRequestConformance (keyPrefix e) r = None"
    using assms by (simp add: check_range_accepts route_key_def)
  obtain v where v: "marshal_route js (clone_route pl (clone_route pl x)) = Some v"
    using assms(1) by (auto simp: marshals_def)
  obtain e1 kv where ck: "composeKeyValue rv e (rqKey r) v = (e1, kv)"
    by (cases "composeKeyValue rv e (rqKey r) v")
  have get: "route_Get pl (route_Insert pl s x) (rId x) = Inr (clone_route pl (clone_route pl x))"
    using routes.get_after_ins [of pl s x "rId x"] proto_message.ident_clone [OF proto_okD(1) [OF assms(2)]] by simp
  have "findExactKey pl js (c\<lparr>cRoute := route_Insert pl s x\<rparr>) rv e (rqKey r) =
      (e1, Inr \<lparr>rsRevision = 0, rsKvs = [kv], rsCount = 1\<rparr>)"
    using findExactKey_route [OF assms(6), of pl js "c\<lparr>cRoute := route_Insert pl s x\<rparr>" rv e] ck
    by (simp add: assms(7) get v)
  moreover have "findExactKey pl js (c\<lparr>cRoute := s'\<rparr>) rv e (rqKey r) = (e, Inl ErrKeyNotFound)"
    if "route_Delete s (rId x) = Inr s'" for s'
    using findExactKey_route [OF assms(6), of pl js "c\<lparr>cRoute := s'\<rparr>" rv e]
      routes.get_after_del [OF that, of pl "rId x"]
    by (simp add: assms(7))
  ultimately show ?thesis
    using ok assms(4,5) v composeKeyValue_eq(1) [OF ck] by (simp add: Range_def)
qed

lemma range_exact_round_trip_witness:
  "snd (Range std_lib std_marshaller rev rev
      (NewInMemoryCache\<lparr>cRoute := route_Insert std_lib [] (zero_route\<lparr>rId := ''7''\<rparr>)\<rparr>) 3
      (NewEtcdV3Server ''/a'') (plain_range ''/a/routes/7'' None)) =
    Inr \<lparr>rsRevision = 0, rsKvs = [\<lparr>kvKey = ''/a/routes/7'', kvCreateRevision = 3, kvModRevision = 3,
      kvValue = Some ''7''\<rparr>], rsCount = 1\<rparr>"
proof -
  have k: "''/a/routes/7'' = route_key (keyPrefix (NewEtcdV3Server ''/a'')) (rId (zero_route\<lparr>rId := ''7''\<rparr>))"
    by (simp add: route_key_def NewEtcdV3Server_def)
  have m: "marshal_route std_marshaller (clone_route std_lib (clone_route std_lib (zero_route\<lparr>rId := ''7''\<rparr>))) = Some ''7''"
    by (simp add: std_marshaller_def std_lib_def std_clone_route_def)
  have "CHR ''/'' \<notin> set (rId (zero_route\<lparr>rId := ''7''\<rparr>))" by simp
  note slash = this
  have kv: "kv_at 3 (NewEtcdV3Server ''/a'') ''/a/routes/7'' ''7'' =
      \<lparr>kvKey = ''/a/routes/7'', kvCreateRevision = 3, kvModRevision = 3, kvValue = Some ''7''\<rparr>"
    by (simp add: kv_at_def meta_at_def NewEtcdV3Server_def)
  note hit = conjunct1 [OF range_exact_round_trip [OF marshals_std proto_ok_std
      plain_range_plain [of "''/a/routes/7''" None] _ _ slash, where e = "NewEtcdV3Server ''/a''"
      and ordr = rev and ordu = rev and c = NewInMemoryCache and s = "[]" and rv = 3]]
  show ?thesis
    using hit [unfolded plain_range_simps, OF refl _ k] by (simp only: m option.sel kv simp_thms)
qed

end
