(* ===== verification/Etcd_Push.thy ===== *)
theory Etcd_Push
  imports Etcd_State
begin

text \<open>
  \<open>PushEvents\<close> of \<open>pkg/etcdv3/etcd.go\<close>: an event of the provisioner updates the metadata of its
  key and becomes a watch response for every watch on its kind of resource. For each watcher
  the code starts a goroutine that hands the responses to the watcher's channel; the result
  lists these goroutines, and \<open>deliver\<close> below is how they run: any of them may make the next
  step.
\<close>

section \<open>Definitions\<close>

definition event_object :: "event \<Rightarrow> object" where
  "event_object ev = (if eType ev = EventDelete then eTombstone ev else eObject ev)"

definition object_key :: "string \<Rightarrow> object \<Rightarrow> string option" where
  "object_key prefix obj =
     (case obj of
        ORoute r \<Rightarrow> Some (prefix @ ''/routes/'' @ rId r)
      | OUpstream u \<Rightarrow> Some (prefix @ ''/upstreams/'' @ uId u)
      | _ \<Rightarrow> None)"

definition marshal_object :: "marshaller \<Rightarrow> object \<Rightarrow> string option" where
  "marshal_object js obj =
     (case obj of
        ORoute r \<Rightarrow> marshal_route js r
      | OUpstream u \<Rightarrow> marshal_upstream js u
      | _ \<Rightarrow> None)"

text \<open>The metadata of the key after the event: created now if it had none.\<close>

definition next_meta :: "etcd \<Rightarrow> string \<Rightarrow> i64 \<Rightarrow> meta" where
  "next_meta e name rv =
     (case map_of (metaCache e) name of
        None \<Rightarrow> \<lparr>createRevision = rv, modRevision = rv\<rparr>
      | Some m \<Rightarrow> m\<lparr>modRevision := rv\<rparr>)"

text \<open>The watch ids of a stream an object is of interest to.\<close>

definition interested :: "(i64, unit) iter \<Rightarrow> object \<Rightarrow> watch_stream \<Rightarrow> i64 list" where
  "interested ordi obj ws =
     (case obj of
        ORoute _ \<Rightarrow> map fst (ordi (wsRoute ws))
      | OUpstream _ \<Rightarrow> map fst (ordi (wsUpstream ws))
      | _ \<Rightarrow> [])"

type_synonym push = "i64 \<times> watch_response list"

definition pushEvent ::
    "marshaller \<Rightarrow> (i64, watch_stream) iter \<Rightarrow> (i64, unit) iter \<Rightarrow> etcd \<Rightarrow> event \<Rightarrow> etcd \<times> push list" where
  "pushEvent js ordw ordi e ev =
     (let obj = event_object ev
      in case object_key (keyPrefix e) obj of
           None \<Rightarrow> (e, [])
         | Some name \<Rightarrow>
             let m = next_meta e name (eRevision ev)
             in case marshal_object js obj of
                  None \<Rightarrow> (e, [])
                | Some value \<Rightarrow>
                    let event = \<lparr>evDelete = (eType ev = EventDelete),
                          evKv = \<lparr>kvKey = name, kvCreateRevision = createRevision m,
                                  kvModRevision = modRevision m, kvValue = Some value\<rparr>\<rparr>;
                        metas = (if eType ev = EventDelete then AList.delete name (metaCache e)
                                 else AList.update name m (metaCache e));
                        pushes = map (\<lambda>(_, ws). (wsId ws, map (\<lambda>i.
                            \<lparr>wrRevision = eRevision ev, wrWatchId = i, wrCreated = False,
                             wrCanceled = False, wrEvents = [event]\<rparr>) (interested ordi obj ws)))
                          (ordw (watchers e))
                    in (e\<lparr>metaCache := metas\<rparr>, pushes))"

fun PushEvents ::
    "marshaller \<Rightarrow> (i64, watch_stream) iter \<Rightarrow> (i64, unit) iter \<Rightarrow> etcd \<Rightarrow> event list
       \<Rightarrow> etcd \<times> push list" where
  "PushEvents js ordw ordi e [] = (e, [])"
| "PushEvents js ordw ordi e (ev # evs) =
     (let (e1, p1) = pushEvent js ordw ordi e ev;
          (e2, p2) = PushEvents js ordw ordi e1 evs
      in (e2, p1 @ p2))"

subsection \<open>Delivery\<close>

text \<open>
  The goroutines started by \<open>pushEvent\<close> and the streams they feed. \<open>pending\<close> are the goroutines
  that have not finished, each with the responses it still has to hand over; \<open>sent\<close> is what
  the loop of \<open>Watch\<close> took from the channel of a stream and sent, oldest first. A stream's
  context is done when the client is gone or its \<open>Watch\<close> has called \<open>cancel\<close>; \<open>Watch\<close> returns
  at any time (client gone, error on the wire, failed send) and its deferred function first
  closes the channel and cancels the context after that. A send on a closed channel panics,
  which ends the process.
\<close>

record delivery =
  pending :: "push list"
  ctxDone :: "i64 set"
  chanClosed :: "i64 set"
  sent :: "i64 \<Rightarrow> watch_response list"
  crashed :: bool

inductive deliver :: "delivery \<Rightarrow> delivery \<Rightarrow> bool" where
  send: "\<not> crashed d \<Longrightarrow> pending d = xs @ (w, r # rs) # ys \<Longrightarrow> w \<notin> chanClosed d \<Longrightarrow>
     deliver d (d\<lparr>pending := xs @ (w, rs) # ys, sent := (sent d)(w := sent d w @ [r])\<rparr>)"
| finish: "\<not> crashed d \<Longrightarrow> pending d = xs @ (w, []) # ys \<Longrightarrow>
     deliver d (d\<lparr>pending := xs @ ys\<rparr>)"
| abort: "\<not> crashed d \<Longrightarrow> pending d = xs @ (w, r # rs) # ys \<Longrightarrow> w \<in> ctxDone d \<Longrightarrow>
     deliver d (d\<lparr>pending := xs @ ys\<rparr>)"
| crash: "\<not> crashed d \<Longrightarrow> pending d = xs @ (w, r # rs) # ys \<Longrightarrow> w \<in> chanClosed d \<Longrightarrow>
     deliver d (d\<lparr>crashed := True\<rparr>)"
| client_gone: "\<not> crashed d \<Longrightarrow> deliver d (d\<lparr>ctxDone := insert w (ctxDone d)\<rparr>)"
| watch_returns: "\<not> crashed d \<Longrightarrow> deliver d (d\<lparr>chanClosed := insert w (chanClosed d)\<rparr>)"
| watch_cancels: "\<not> crashed d \<Longrightarrow> w \<in> chanClosed d \<Longrightarrow>
     deliver d (d\<lparr>ctxDone := insert w (ctxDone d)\<rparr>)"

text \<open>More goroutines start when more events are pushed, before or after deliveries.\<close>

definition start :: "push list \<Rightarrow> delivery \<Rightarrow> delivery" where
  "start ps d = d\<lparr>pending := pending d @ ps\<rparr>"

definition idle :: delivery where
  "idle = \<lparr>pending = [], ctxDone = {}, chanClosed = {}, sent = (\<lambda>_. []), crashed = False\<rparr>"

inductive runs :: "delivery \<Rightarrow> push list \<Rightarrow> delivery \<Rightarrow> bool" where
  base: "runs d [] d"
| step: "runs d ps d1 \<Longrightarrow> deliver d1 d2 \<Longrightarrow> runs d ps d2"
| more: "runs d ps d1 \<Longrightarrow> runs d (ps @ qs) (start qs d1)"

subsection \<open>Specification\<close>

definition meta_keys :: "etcd \<Rightarrow> string set" where
  "meta_keys e = dom (map_of (metaCache e))"

text \<open>An event the provisioners generate: a known type and a resource in the right field.\<close>

definition wf_event :: "event \<Rightarrow> bool" where
  "wf_event ev \<longleftrightarrow> eType ev \<in> {EventAdd, EventUpdate, EventDelete}
     \<and> object_key '''' (event_object ev) \<noteq> None"

text \<open>The responses the goroutines of some pushes owe to one stream.\<close>

definition owed :: "push list \<Rightarrow> i64 \<Rightarrow> watch_response multiset" where
  "owed ps w = (\<Sum>(v, rs) \<in># mset ps. if v = w then mset rs else {#})"

section \<open>Lemmas\<close>

subsection \<open>The effect of one event on the metadata\<close>

lemma object_key_simps [simp]:
  "object_key p (ORoute r) = Some (route_key p (rId r))"
  "object_key p (OUpstream u) = Some (upstream_key p (uId u))"
  "object_key p ONil = None" "object_key p OOther = None"
  by (simp_all add: object_key_def route_key_def upstream_key_def)

lemma marshal_object_key:
  "marshals js \<Longrightarrow> marshal_object js obj = None \<longleftrightarrow> object_key p obj = None"
  by (cases obj) (simp_all add: marshal_object_def marshals_neq)

lemma pushEvent_frame:
  assumes "pushEvent js ordw ordi e ev = (e', ps)"
  shows "keyPrefix e' = keyPrefix e" "nextWatchId e' = nextWatchId e" "watchers e' = watchers e"
    "gm_ok (metaCache e) \<Longrightarrow> gm_ok (metaCache e')"
  using assms by (auto simp: pushEvent_def Let_def split: option.splits if_splits)

lemma pushEvent_meta:
  assumes "marshals js" "pushEvent js ordw ordi e ev = (e', ps)"
    and "object_key (keyPrefix e) (event_object ev) = Some name"
  shows "map_of (metaCache e') = (map_of (metaCache e))
    (name := (if eType ev = EventDelete then None else Some (next_meta e name (eRevision ev))))"
  using assms marshal_object_key [OF assms(1), of "event_object ev" "keyPrefix e"]
  by (auto simp: pushEvent_def Let_def map_of_delete map_of_update split: option.splits if_splits)

lemma PushEvents_frame:
  "PushEvents js ordw ordi e evs = (e', ps) \<Longrightarrow>
     keyPrefix e' = keyPrefix e \<and> nextWatchId e' = nextWatchId e \<and> watchers e' = watchers e
     \<and> (gm_ok (metaCache e) \<longrightarrow> gm_ok (metaCache e'))"
proof (induction evs arbitrary: e e' ps)
  case (Cons ev evs)
  obtain e1 p1 where p: "pushEvent js ordw ordi e ev = (e1, p1)"
    by (cases "pushEvent js ordw ordi e ev")
  obtain e2 p2 where q: "PushEvents js ordw ordi e1 evs = (e2, p2)"
    by (cases "PushEvents js ordw ordi e1 evs")
  from Cons.IH [OF q] Cons.prems pushEvent_frame [OF p] p q show ?case by auto
qed simp

subsection \<open>Who an event is pushed to\<close>

lemma pushEvent_pushes:
  assumes "marshals js" "range_order ordw" "pushEvent js ordw ordi e ev = (e', ps)"
    and "object_key (keyPrefix e) (event_object ev) = Some name"
  shows "set ps = (\<lambda>(_, ws). (wsId ws, map (\<lambda>i.
      \<lparr>wrRevision = eRevision ev, wrWatchId = i, wrCreated = False, wrCanceled = False,
       wrEvents = [\<lparr>evDelete = (eType ev = EventDelete),
         evKv = \<lparr>kvKey = name, kvCreateRevision = createRevision (next_meta e name (eRevision ev)),
           kvModRevision = modRevision (next_meta e name (eRevision ev)),
           kvValue = marshal_object js (event_object ev)\<rparr>\<rparr>]\<rparr>)
      (interested ordi (event_object ev) ws))) ` set (watchers e)"
  using assms marshal_object_key [OF assms(1), of "event_object ev" "keyPrefix e"]
  by (auto simp: pushEvent_def Let_def range_order_set split: option.splits)

lemma next_meta_mod [simp]: "modRevision (next_meta e name rv) = rv"
  by (simp add: next_meta_def split: option.splits)

lemma set_interested:
  "range_order ordi \<Longrightarrow> set (interested ordi (ORoute r) ws) = fst ` set (wsRoute ws)"
  "range_order ordi \<Longrightarrow> set (interested ordi (OUpstream u) ws) = fst ` set (wsUpstream ws)"
  by (simp_all add: interested_def range_order_set)

subsection \<open>Delivery\<close>

inductive_cases deliverE: "deliver d d'"

lemmas delivery_intros = deliver.intros runs.intros

lemma owed_simps [simp]:
  "owed [] w = {#}"
  "owed ((v, rs) # ps) w = (if v = w then mset rs else {#}) + owed ps w"
  "owed (xs @ ys) w = owed xs w + owed ys w"
  by (simp_all add: owed_def)

text \<open>
  While a stream's context is not done, what it received and what is pending make up what
  was pushed to it: nothing is lost, doubled or made up.
\<close>

lemma deliver_mono: "deliver d d' \<Longrightarrow> ctxDone d \<subseteq> ctxDone d' \<and> chanClosed d \<subseteq> chanClosed d'"
  by (auto elim!: deliverE)

lemma deliver_owed:
  assumes "deliver d d'" "w \<notin> ctxDone d'"
  shows "mset (sent d' w) + owed (pending d') w = mset (sent d w) + owed (pending d) w"
  using assms by (auto elim!: deliverE)

lemma runs_owed:
  assumes "runs d ps d'" "w \<notin> ctxDone d'"
  shows "mset (sent d' w) + owed (pending d') w = mset (sent d w) + owed (pending d) w + owed ps w"
  using assms
proof (induction rule: runs.induct)
  case (step d ps d1 d2)
  then have "w \<notin> ctxDone d1" using deliver_mono by blast
  with step show ?case using deliver_owed [of d1 d2 w] by simp
next
  case (more d ps d1 qs)
  then show ?case by (simp add: start_def)
qed simp

text \<open>No goroutine waits forever: while one is pending, some goroutine can make a step.\<close>

lemma deliver_progress:
  assumes "pending d \<noteq> []" "\<not> crashed d"
  shows "\<exists>d'. deliver d d'"
proof -
  from assms obtain w rs ys where p: "pending d = [] @ (w, rs) # ys"
    by (cases "pending d") auto
  show ?thesis
  proof (cases rs)
    case Nil
    with p assms show ?thesis using deliver.finish [of d "[]" w ys] by blast
  next
    case (Cons r rs')
    with p assms show ?thesis
      using deliver.send [of d "[]" w r rs' ys] deliver.crash [of d "[]" w r rs' ys] by blast
  qed
qed

text \<open>A crash needs a goroutine that still has something for a closed channel.\<close>

lemma runs_crashed:
  assumes "runs d ps d'" "crashed d'" "\<not> crashed d"
  shows "\<exists>w \<in> chanClosed d'. \<exists>r rs. (w, r # rs) \<in> set (pending d')"
  using assms
proof (induction rule: runs.induct)
  case (step d ps d1 d2)
  from step.hyps(2) step.prems show ?case
    using step.IH by (cases rule: deliver.cases) fastforce+
next
  case (more d ps d1 qs)
  then show ?case by (auto simp: start_def)
qed simp

section \<open>Properties\<close>


definition one_watcher :: etcd where
  "one_watcher = (NewEtcdV3Server ''/a'')\<lparr>watchers :=
     [(0, \<lparr>wsId = 0, wsRoute = [(5, ())], wsUpstream = [(6, ())]\<rparr>)]\<rparr>"



definition note_response :: "i64 \<Rightarrow> watch_response" where
  "note_response rv = \<lparr>wrRevision = rv, wrWatchId = 1, wrCreated = False, wrCanceled = False, wrEvents = []\<rparr>"

lemma idle_simps [simp]:
  "pending idle = []" "ctxDone idle = {}" "chanClosed idle = {}" "sent idle = (\<lambda>_. [])" "\<not> crashed idle"
  by (simp_all add: idle_def)

lemma start_simps [simp]:
  "pending (start ps d) = pending d @ ps" "ctxDone (start ps d) = ctxDone d"
  "chanClosed (start ps d) = chanClosed d" "sent (start ps d) = sent d" "crashed (start ps d) = crashed d"
  by (simp_all add: start_def)

lemma runs_start: "runs idle ps (start ps idle)"
  using runs.more [OF runs.base, of idle ps] by simp


text \<open>Order is not conserved. Two events pushed one after the other, to a stream that stays open,
  can reach the client in the opposite order: each event has a goroutine of its own.\<close>

theorem delivery_can_reorder:
  "\<exists>d. runs idle [(0, [note_response 1]), (0, [note_response 2])] d
     \<and> pending d = [] \<and> ctxDone d = {} \<and> \<not> crashed d \<and> sent d 0 = [note_response 2, note_response 1]"
proof -
  let ?p1 = "(0::i64, [note_response 1])" and ?p2 = "(0::i64, [note_response 2])"
  let ?d0 = "start [?p1, ?p2] idle"
  let ?d1 = "?d0\<lparr>pending := [?p1] @ (0, []) # [], sent := (sent ?d0)(0 := sent ?d0 0 @ [note_response 2])\<rparr>"
  let ?d2 = "?d1\<lparr>pending := [] @ (0, []) # [(0, [])], sent := (sent ?d1)(0 := sent ?d1 0 @ [note_response 1])\<rparr>"
  let ?d3 = "?d2\<lparr>pending := [] @ [(0, [])]\<rparr>"
  let ?d4 = "?d3\<lparr>pending := [] @ []\<rparr>"
  have "deliver ?d0 ?d1" by (rule deliver.send) simp_all
  moreover have "deliver ?d1 ?d2" by (rule deliver.send) simp_all
  moreover have "deliver ?d2 ?d3" by (rule deliver.finish) simp_all
  moreover have "deliver ?d3 ?d4" by (rule deliver.finish) simp_all
  ultimately have "runs idle [?p1, ?p2] ?d4"
    using runs_start [of "[?p1, ?p2]"] runs.step by meson
  then show ?thesis by (intro exI [of _ ?d4]) simp
qed

text \<open>The process can crash: a stream whose \<open>Watch\<close> returns while a goroutine still has a response
  for it has its channel closed, and the goroutine panics sending on it. A crash needs exactly this:
  a pending response for a stream whose channel is closed.\<close>

theorem closed_channel_crash:
  "(\<exists>d. runs idle [(0, [note_response 1])] d \<and> crashed d)
     \<and> \<not> (\<exists>ps d. runs idle ps d \<and> crashed d \<and> \<not> (\<exists>w r rs. w \<in> chanClosed d \<and> (w, r # rs) \<in> set (pending d)))"
proof
  let ?d0 = "start [(0, [note_response 1])] idle"
  let ?d1 = "?d0\<lparr>chanClosed := insert 0 (chanClosed ?d0)\<rparr>"
  have "deliver ?d0 ?d1" by (rule deliver.watch_returns) simp
  moreover have "deliver ?d1 (?d1\<lparr>crashed := True\<rparr>)"
    by (rule deliver.crash [of _ "[]" 0 "note_response 1" "[]" "[]"]) simp_all
  ultimately have "runs idle [(0, [note_response 1])] (?d1\<lparr>crashed := True\<rparr>)"
    using runs_start runs.step by meson
  then show "\<exists>d. runs idle [(0, [note_response 1])] d \<and> crashed d"
    by (intro exI [of _ "?d1\<lparr>crashed := True\<rparr>"]) simp
  show "\<not> (\<exists>ps d. runs idle ps d \<and> crashed d \<and> \<not> (\<exists>w r rs. w \<in> chanClosed d \<and> (w, r # rs) \<in> set (pending d)))"
    using runs_crashed [of idle] by (metis idle_simps(5))
qed

end
