(* ===== verification/Etcd_Watch.thy ===== *)
theory Etcd_Watch
  imports Etcd_State
begin

text \<open>
  \<open>pkg/etcdv3/watch.go\<close>: the streams of the watch service. A stream registers watches on the
  routes or on the upstreams; the request handler (\<open>onWire\<close>) is one goroutine per stream. What
  comes from outside at each request is an argument: the random number drawn for a watch
  without an id (\<open>rnd\<close>) and whether sending the response succeeds (\<open>send_ok\<close>).
\<close>

section \<open>Definitions\<close>

subsection \<open>Registering streams and watches\<close>

definition addWatchStream :: "etcd \<Rightarrow> etcd \<times> i64" where
  "addWatchStream e =
     (let i = nextWatchId e;
          ws = \<lparr>wsId = i, wsRoute = [], wsUpstream = []\<rparr>
      in (e\<lparr>nextWatchId := nextWatchId e + 1, watchers := AList.update i ws (watchers e)\<rparr>, i))"

definition removeWatchStream :: "etcd \<Rightarrow> i64 \<Rightarrow> etcd" where
  "removeWatchStream e i = e\<lparr>watchers := AList.delete i (watchers e)\<rparr>"

definition cancelWatch :: "watch_stream \<Rightarrow> i64 \<Rightarrow> watch_stream \<times> bool" where
  "cancelWatch ws i =
     (if has_key (wsRoute ws) i then (ws\<lparr>wsRoute := AList.delete i (wsRoute ws)\<rparr>, True)
      else if has_key (wsUpstream ws) i then (ws\<lparr>wsUpstream := AList.delete i (wsUpstream ws)\<rparr>, True)
      else (ws, False))"

definition createWatch :: "watch_stream \<Rightarrow> i64 \<Rightarrow> string \<Rightarrow> watch_stream \<times> rpc_error option" where
  "createWatch ws i resource =
     (if resource = ''route'' then
        (if has_key (wsRoute ws) i then (ws, Some DuplicatedWatchId)
         else (ws\<lparr>wsRoute := AList.update i () (wsRoute ws)\<rparr>, None))
      else if resource = ''upstream'' then
        (if has_key (wsUpstream ws) i then (ws, Some DuplicatedWatchId)
         else (ws\<lparr>wsUpstream := AList.update i () (wsUpstream ws)\<rparr>, None))
      else (ws, None))"

subsection \<open>The first response of a watch\<close>

text \<open>
  The loops of \<open>findAllRoutes\<close> and \<open>findAllUpstreams\<close>: objects without metadata are skipped, so
  are those last modified before the revision the client asks for (a signed comparison).
\<close>

fun watch_items ::
    "('o \<Rightarrow> string option) \<Rightarrow> ('o \<Rightarrow> string) \<Rightarrow> etcd \<Rightarrow> i64 \<Rightarrow> 'o list \<Rightarrow> key_value list
       \<Rightarrow> rpc_error + key_value list" where
  "watch_items enc key e minRev [] kvs = Inr kvs"
| "watch_items enc key e minRev (x # xs) kvs =
     (case map_of (metaCache e) (key x) of
        None \<Rightarrow> watch_items enc key e minRev xs kvs
      | Some m \<Rightarrow>
          if sint minRev \<le> sint (modRevision m) then
            (case enc x of
               None \<Rightarrow> Inl MarshalError
             | Some value \<Rightarrow> watch_items enc key e minRev xs
                 (kvs @ [\<lparr>kvKey = key x, kvCreateRevision = createRevision m,
                          kvModRevision = modRevision m, kvValue = Some value\<rparr>]))
          else watch_items enc key e minRev xs kvs)"

definition findAllRoutes ::
    "proto_lib \<Rightarrow> marshaller \<Rightarrow> (string, route) iter \<Rightarrow> cache \<Rightarrow> etcd \<Rightarrow> i64
       \<Rightarrow> rpc_error + key_value list" where
  "findAllRoutes pl js ordr c e minRev =
     watch_items (marshal_route js) (\<lambda>r. keyPrefix e @ ''/routes/'' @ rId r) e minRev
       (route_List pl ordr (cRoute c)) []"

definition findAllUpstreams ::
    "proto_lib \<Rightarrow> marshaller \<Rightarrow> (string, upstream) iter \<Rightarrow> cache \<Rightarrow> etcd \<Rightarrow> i64
       \<Rightarrow> rpc_error + key_value list" where
  "findAllUpstreams pl js ordu c e minRev =
     watch_items (marshal_upstream js) (\<lambda>u. keyPrefix e @ ''/upstreams/'' @ uId u) e minRev
       (upstream_List pl ordu (cUpstream c)) []"

definition firstWatch ::
    "proto_lib \<Rightarrow> marshaller \<Rightarrow> (string, route) iter \<Rightarrow> (string, upstream) iter \<Rightarrow> cache \<Rightarrow> i64 \<Rightarrow> etcd
       \<Rightarrow> bool \<Rightarrow> i64 \<Rightarrow> string \<Rightarrow> i64 \<Rightarrow> watch_response list \<times> rpc_error option" where
  "firstWatch pl js ordr ordu c rv e send_ok i resource minRev =
     (case (if resource = ''route'' then findAllRoutes pl js ordr c e minRev
            else if resource = ''upstream'' then findAllUpstreams pl js ordu c e minRev
            else Inr []) of
        Inl err \<Rightarrow> ([], Some err)
      | Inr kvs \<Rightarrow>
          let evs = map (\<lambda>kv. \<lparr>evDelete = False, evKv = kv\<rparr>) kvs;
              resp = \<lparr>wrRevision = rv, wrWatchId = i, wrCreated = True, wrCanceled = False,
                      wrEvents = evs\<rparr>
          in if \<not> send_ok then ([], Some SendError) else ([resp], None))"

subsection \<open>The request handler\<close>

definition watch_resource :: "string \<Rightarrow> string \<Rightarrow> string" where
  "watch_resource prefix key =
     (if key = prefix @ ''/routes'' then ''route''
      else if key = prefix @ ''/upstreams'' then ''upstream'' else '''')"

text \<open>
  One iteration of \<open>onWire\<close>: the stream afterwards, what was sent, and the error the handler
  returns with (\<open>None\<close>: it goes on to the next request).
\<close>

definition onWire_request ::
    "proto_lib \<Rightarrow> marshaller \<Rightarrow> (string, route) iter \<Rightarrow> (string, upstream) iter \<Rightarrow> cache \<Rightarrow> i64 \<Rightarrow> etcd
       \<Rightarrow> watch_stream \<Rightarrow> i64 \<Rightarrow> bool \<Rightarrow> watch_request
       \<Rightarrow> watch_stream \<times> watch_response list \<times> rpc_error option" where
  "onWire_request pl js ordr ordu c rv e ws rnd send_ok req =
     (case checkWatchRequestConformance (keyPrefix e) req of
        Some err \<Rightarrow> (if err = ErrKeyNotFound then (ws, [], None) else (ws, [], Some err))
      | None \<Rightarrow>
          (case req of
             WatchCreate (Some cr) \<Rightarrow>
               (let resource = watch_resource (keyPrefix e) (crKey cr);
                    i = (if crWatchId cr = 0 then rnd else crWatchId cr)
                in case createWatch ws i resource of
                     (ws1, Some err) \<Rightarrow> (ws1, [], Some err)
                   | (ws1, None) \<Rightarrow>
                       if crStartRevision cr \<noteq> 0 then
                         (case firstWatch pl js ordr ordu c rv e send_ok i resource (crStartRevision cr) of
                            (out, err) \<Rightarrow> (ws1, out, err))
                       else if \<not> send_ok then (ws1, [], Some SendError)
                       else (ws1, [\<lparr>wrRevision = rv, wrWatchId = i, wrCreated = True,
                                    wrCanceled = False, wrEvents = []\<rparr>], None))
           | WatchCancel (Some i) \<Rightarrow>
               (case cancelWatch ws i of
                  (ws1, False) \<Rightarrow> (ws1, [], Some (UnknownWatchId i))
                | (ws1, True) \<Rightarrow>
                    if \<not> send_ok then (ws1, [], Some SendError)
                    else (ws1, [\<lparr>wrRevision = rv, wrWatchId = i, wrCreated = False,
                                 wrCanceled = True, wrEvents = []\<rparr>], None))
           | _ \<Rightarrow> (ws, [], None)))"

text \<open>The requests of a stream, up to its end or the first error the handler returns with.\<close>

fun onWire ::
    "proto_lib \<Rightarrow> marshaller \<Rightarrow> (string, route) iter \<Rightarrow> (string, upstream) iter \<Rightarrow> cache \<Rightarrow> i64 \<Rightarrow> etcd
       \<Rightarrow> watch_stream \<Rightarrow> (i64 \<times> bool \<times> watch_request) list
       \<Rightarrow> watch_stream \<times> watch_response list \<times> rpc_error option" where
  "onWire pl js ordr ordu c rv e ws [] = (ws, [], None)"
| "onWire pl js ordr ordu c rv e ws ((rnd, send_ok, req) # reqs) =
     (case onWire_request pl js ordr ordu c rv e ws rnd send_ok req of
        (ws1, out, Some err) \<Rightarrow> (ws1, out, Some err)
      | (ws1, out, None) \<Rightarrow>
          (case onWire pl js ordr ordu c rv e ws1 reqs of
             (ws2, out2, err) \<Rightarrow> (ws2, out @ out2, err)))"

subsection \<open>Specification\<close>

definition watch_ids :: "watch_stream \<Rightarrow> i64 set" where
  "watch_ids ws = {i. has_key (wsRoute ws) i \<or> has_key (wsUpstream ws) i}"

definition stream_ok :: "watch_stream \<Rightarrow> bool" where
  "stream_ok ws \<longleftrightarrow> gm_ok (wsRoute ws) \<and> gm_ok (wsUpstream ws)"

text \<open>
  Streams are registered under their own id, and every id in use has been handed out: it is
  below the counter, as long as the counter has not wrapped.
\<close>

definition watchers_ok :: "etcd \<Rightarrow> bool" where
  "watchers_ok e \<longleftrightarrow> gm_ok (watchers e) \<and>
     (\<forall>i ws. map_of (watchers e) i = Some ws \<longrightarrow>
        wsId ws = i \<and> stream_ok ws \<and> unat i < unat (nextWatchId e))"

text \<open>The objects a first response must contain: those with metadata, modified since.\<close>

definition watch_due :: "etcd \<Rightarrow> i64 \<Rightarrow> string \<Rightarrow> bool" where
  "watch_due e minRev key \<longleftrightarrow>
     (\<exists>m. map_of (metaCache e) key = Some m \<and> sint minRev \<le> sint (modRevision m))"

definition watch_kv :: "etcd \<Rightarrow> string \<Rightarrow> string option \<Rightarrow> key_value" where
  "watch_kv e key value = (let m = the (map_of (metaCache e) key) in
     \<lparr>kvKey = key, kvCreateRevision = createRevision m, kvModRevision = modRevision m, kvValue = value\<rparr>)"

section \<open>Lemmas\<close>

subsection \<open>Streams\<close>

lemma addWatchStream_ok:
  assumes "watchers_ok e" "addWatchStream e = (e', i)" "unat (nextWatchId e) < 2 ^ 64 - 1"
  shows "watchers_ok e'" and "\<not> has_key (watchers e) i" and "has_key (watchers e') i"
proof -
  have suc: "unat (nextWatchId e + 1) = Suc (unat (nextWatchId e))"
    using assms(3) unsigned_less [of "nextWatchId e"]
    by (subst unat_word_ariths) simp
  show "watchers_ok e'"
    using assms suc
    by (auto simp: watchers_ok_def addWatchStream_def Let_def map_of_update stream_ok_def less_Suc_eq
        split: if_splits)
  show "\<not> has_key (watchers e) i"
    using assms by (fastforce simp: watchers_ok_def addWatchStream_def Let_def has_key_def)
  show "has_key (watchers e') i"
    using assms by (auto simp: watchers_ok_def addWatchStream_def Let_def has_key_def map_of_update)
qed

lemma removeWatchStream_ok:
  "watchers_ok e \<Longrightarrow> watchers_ok (removeWatchStream e i) \<and> \<not> has_key (watchers (removeWatchStream e i)) i"
  by (auto simp: watchers_ok_def removeWatchStream_def map_of_delete has_key_def split: if_splits)

subsection \<open>Watches\<close>

lemma createWatch_frame:
  assumes "createWatch ws i resource = (ws', err)"
  shows "stream_ok ws \<Longrightarrow> stream_ok ws'" "wsId ws' = wsId ws"
    "err = None \<Longrightarrow> resource \<in> {''route'', ''upstream''} \<Longrightarrow> watch_ids ws' = insert i (watch_ids ws)"
    "err \<noteq> None \<Longrightarrow> ws' = ws \<and> i \<in> watch_ids ws"
  using assms
  by (auto simp: createWatch_def stream_ok_def watch_ids_def gomap_simps split: if_splits)

lemma cancelWatch_frame:
  assumes "cancelWatch ws i = (ws', ok)"
  shows "stream_ok ws \<Longrightarrow> stream_ok ws'" "wsId ws' = wsId ws" "ok \<longleftrightarrow> i \<in> watch_ids ws"
    "watch_ids ws - {i} \<subseteq> watch_ids ws'" "watch_ids ws' \<subseteq> watch_ids ws" "\<not> ok \<Longrightarrow> ws' = ws"
  using assms
  by (auto simp: cancelWatch_def stream_ok_def watch_ids_def gomap_simps split: if_splits)

lemma cancelWatch_ids:
  assumes "cancelWatch ws i = (ws', ok)" "\<And>j. \<not> (has_key (wsRoute ws) j \<and> has_key (wsUpstream ws) j)"
  shows "watch_ids ws' = watch_ids ws - {i}"
  using assms(1) assms(2) [of i]
  by (auto simp: cancelWatch_def watch_ids_def gomap_simps split: if_splits)

subsection \<open>The first response\<close>

lemma watch_items_eq:
  assumes "\<And>x. enc x \<noteq> None"
  shows "watch_items enc key e minRev xs kvs =
    Inr (kvs @ map (\<lambda>x. watch_kv e (key x) (enc x)) (filter (\<lambda>x. watch_due e minRev (key x)) xs))"
proof (induction xs arbitrary: kvs)
  case (Cons x xs)
  obtain v where "enc x = Some v" using assms [of x] by auto
  with Cons.IH show ?case
    by (auto simp: watch_due_def watch_kv_def Let_def split: option.splits)
qed simp

lemma findAllRoutes_eq:
  "marshals js \<Longrightarrow> findAllRoutes pl js ordr c e minRev =
     Inr (map (\<lambda>r. watch_kv e (route_key (keyPrefix e) (rId r)) (marshal_route js r))
       (filter (\<lambda>r. watch_due e minRev (route_key (keyPrefix e) (rId r))) (route_List pl ordr (cRoute c))))"
  by (simp add: findAllRoutes_def watch_items_eq marshals_neq route_key_def)

lemma findAllUpstreams_eq:
  "marshals js \<Longrightarrow> findAllUpstreams pl js ordu c e minRev =
     Inr (map (\<lambda>u. watch_kv e (upstream_key (keyPrefix e) (uId u)) (marshal_upstream js u))
       (filter (\<lambda>u. watch_due e minRev (upstream_key (keyPrefix e) (uId u))) (upstream_List pl ordu (cUpstream c))))"
  by (simp add: findAllUpstreams_def watch_items_eq marshals_neq upstream_key_def)

subsection \<open>The handler\<close>

lemma watch_resource_readdir:
  "readdir prefix key rangeEnd \<Longrightarrow> watch_resource prefix key \<in> {''route'', ''upstream''}"
  by (auto simp: readdir_def watch_resource_def)

text \<open>What a request leaves of the stream: it created a watch, cancelled one, or did nothing.\<close>

lemma onWire_request_stream:
  assumes "onWire_request pl js ordr ordu c rv e ws rnd send_ok req = (ws', out, err)"
  obtains "ws' = ws"
  | i resource err' where "createWatch ws i resource = (ws', err')"
  | i ok where "cancelWatch ws i = (ws', ok)"
proof (cases req)
  case (WatchCreate co)
  with assms that show thesis
    by (auto simp: onWire_request_def Let_def split: option.splits if_splits prod.splits)
next
  case (WatchCancel io)
  with assms that show thesis
    by (auto simp: onWire_request_def Let_def split: option.splits if_splits prod.splits bool.splits)
qed (use assms that in \<open>auto simp: onWire_request_def split: option.splits if_splits\<close>)

lemma onWire_request_ok:
  assumes "onWire_request pl js ordr ordu c rv e ws rnd send_ok req = (ws', out, err)" "stream_ok ws"
  shows "stream_ok ws' \<and> wsId ws' = wsId ws"
  using assms(1)
  by (cases rule: onWire_request_stream)
    (use assms(2) createWatch_frame(1,2) cancelWatch_frame(1,2) in \<open>metis\<close>)+

lemma onWire_request_watchers:
  assumes "onWire_request pl js ordr ordu c rv e ws rnd send_ok req = (ws', out, err)"
    and "watchers_ok e" "map_of (watchers e) i = Some ws"
  shows "watchers_ok (e\<lparr>watchers := AList.update i ws' (watchers e)\<rparr>)"
proof -
  have "stream_ok ws" "wsId ws = i" "unat i < unat (nextWatchId e)"
    using assms(2,3) by (simp_all add: watchers_ok_def)
  with onWire_request_ok [OF assms(1)] have "stream_ok ws' \<and> wsId ws' = i" by simp
  with assms(2) \<open>unat i < _\<close> show ?thesis by (auto simp: watchers_ok_def map_of_update)
qed

lemma onWire_ok:
  "onWire pl js ordr ordu c rv e ws reqs = (ws', out, err) \<Longrightarrow> stream_ok ws \<Longrightarrow>
     stream_ok ws' \<and> wsId ws' = wsId ws"
proof (induction reqs arbitrary: ws out)
  case (Cons x reqs)
  obtain rnd so req where x: "x = (rnd, so, req)" by (cases x)
  obtain ws1 o1 e1 where r: "onWire_request pl js ordr ordu c rv e ws rnd so req = (ws1, o1, e1)"
    by (cases "onWire_request pl js ordr ordu c rv e ws rnd so req")
  note ok = onWire_request_ok [OF r Cons.prems(2)]
  show ?case
  proof (cases e1)
    case None
    obtain ws2 o2 e2 where "onWire pl js ordr ordu c rv e ws1 reqs = (ws2, o2, e2)"
      by (cases "onWire pl js ordr ordu c rv e ws1 reqs")
    with None Cons x r ok show ?thesis by fastforce
  next
    case (Some a)
    with Cons.prems x r ok show ?thesis by simp
  qed
qed simp

section \<open>Properties\<close>

text \<open>C14: the first response of a watch with a start revision carries, in the order of the listing,
  every cached object of the directory whose last modification is not before that revision, each with
  its key, its revisions and its encoding, and no other object.\<close>

theorem first_watch_response:
  assumes "marshals js"
  shows "firstWatch pl js ordr ordu c rv e True i ''route'' minRev =
      ([\<lparr>wrRevision = rv, wrWatchId = i, wrCreated = True, wrCanceled = False,
         wrEvents = map (\<lambda>r. \<lparr>evDelete = False,
             evKv = watch_kv e (route_key (keyPrefix e) (rId r)) (marshal_route js r)\<rparr>)
           (filter (\<lambda>r. watch_due e minRev (route_key (keyPrefix e) (rId r))) (route_List pl ordr (cRoute c)))\<rparr>],
       None)
    \<and> firstWatch pl js ordr ordu c rv e True i ''upstream'' minRev =
      ([\<lparr>wrRevision = rv, wrWatchId = i, wrCreated = True, wrCanceled = False,
         wrEvents = map (\<lambda>u. \<lparr>evDelete = False,
             evKv = watch_kv e (upstream_key (keyPrefix e) (uId u)) (marshal_upstream js u)\<rparr>)
           (filter (\<lambda>u. watch_due e minRev (upstream_key (keyPrefix e) (uId u))) (upstream_List pl ordu (cUpstream c)))\<rparr>],
       None)"
  by (simp add: firstWatch_def findAllRoutes_eq [OF assms] findAllUpstreams_eq [OF assms] Let_def)

lemma first_watch_response_witness:
  "fst (firstWatch std_lib std_marshaller rev rev NewInMemoryCache 4 (NewEtcdV3Server ''/a'') True 1 ''route'' 0) =
     [\<lparr>wrRevision = 4, wrWatchId = 1, wrCreated = True, wrCanceled = False, wrEvents = []\<rparr>]"
  using first_watch_response [OF marshals_std, of std_lib rev rev NewInMemoryCache 4 "NewEtcdV3Server ''/a''" 1 0]
  by (simp add: route_List_def NewInMemoryCache_def newRoute_def)


definition empty_stream :: watch_stream where
  "empty_stream = \<lparr>wsId = 0, wsRoute = [], wsUpstream = []\<rparr>"


text \<open>The check for duplicated watch ids is per directory. The same id can be in use for routes and
  for upstreams at once; a cancel then removes the route watch only and the other goes on.\<close>

theorem watch_id_shared:
  "\<exists>ws1 ws2 ws3. createWatch empty_stream i ''route'' = (ws1, None) \<and> createWatch ws1 i ''upstream'' = (ws2, None)
     \<and> cancelWatch ws2 i = (ws3, True) \<and> watch_ids ws3 = {i}"
  by (simp add: createWatch_def cancelWatch_def empty_stream_def watch_ids_def has_key_def)

text \<open>A request that does not conform changes nothing; it is ignored when its key is not one of the
  directories, and otherwise ends the stream. A create without a start revision is answered by an
  empty response with the sidecar's revision, under the id asked for or a random one.\<close>

theorem watch_request_outcome:
  "onWire_request pl js ordr ordu c rv e ws rnd True req =
     (case checkWatchRequestConformance (keyPrefix e) req of
        Some err \<Rightarrow> (ws, [], if err = ErrKeyNotFound then None else Some err)
      | None \<Rightarrow>
          (case req of
             WatchCreate (Some cr) \<Rightarrow>
               (let i = (if crWatchId cr = 0 then rnd else crWatchId cr);
                    resource = (if crKey cr = keyPrefix e @ ''/routes'' then ''route'' else ''upstream'')
                in case createWatch ws i resource of
                     (ws1, Some err) \<Rightarrow> (ws1, [], Some err)
                   | (ws1, None) \<Rightarrow>
                       if crStartRevision cr = 0
                       then (ws1, [\<lparr>wrRevision = rv, wrWatchId = i, wrCreated = True, wrCanceled = False,
                                    wrEvents = []\<rparr>], None)
                       else (ws1, firstWatch pl js ordr ordu c rv e True i resource (crStartRevision cr)))
           | WatchCancel (Some i) \<Rightarrow>
               (case cancelWatch ws i of
                  (ws1, ok) \<Rightarrow>
                    if ok then (ws1, [\<lparr>wrRevision = rv, wrWatchId = i, wrCreated = False, wrCanceled = True,
                                       wrEvents = []\<rparr>], None)
                    else (ws1, [], Some (UnknownWatchId i)))
           | _ \<Rightarrow> (ws, [], None)))"
proof (cases "checkWatchRequestConformance (keyPrefix e) req")
  case None
  show ?thesis
  proof (cases req)
    case (WatchCreate co)
    show ?thesis
    proof (cases co)
      case (Some cr)
      have rd: "readdir (keyPrefix e) (crKey cr) (crRangeEnd cr)"
        using None WatchCreate Some check_watch_accepts by blast
      then have "watch_resource (keyPrefix e) (crKey cr) =
          (if crKey cr = keyPrefix e @ ''/routes'' then ''route'' else ''upstream'')"
        by (auto simp: readdir_def watch_resource_def)
      with None WatchCreate Some show ?thesis
        unfolding onWire_request_def by (auto simp: Let_def split: prod.splits option.splits)
    qed (use None WatchCreate in \<open>simp add: onWire_request_def\<close>)
  next
    case (WatchCancel io)
    with None show ?thesis
      by (cases io) (auto simp: onWire_request_def split: prod.splits bool.splits)
  qed (use None in \<open>simp_all add: onWire_request_def\<close>)
qed (auto simp: onWire_request_def)

end
