(* ===== verification/Sidecar.thy ===== *)
theory Sidecar
  imports Cache_Reflection Etcd_KV Etcd_Push Etcd_Watch
begin

text \<open>
  \<open>pkg/sidecar/types.go\<close>: the joint of provisioner, cache and etcd server. The sidecar's loop
  reflects a batch of events to the cache, then pushes it to the etcd server event by event;
  range requests, watch requests and the opening and closing of streams are served by other
  goroutines in between. The state is what they share, with the events of the current batch
  that are still to be pushed; a request and the push of an event are one step each (\<open>Etcd_Races\<close> has
  the finer ones).
\<close>

section \<open>Definitions\<close>

record sidecar =
  scCache :: cache
  scRevision :: i64
  scEtcd :: etcd
  scPending :: "event list"

definition NewSidecar :: "string \<Rightarrow> sidecar" where
  "NewSidecar prefix = \<lparr>scCache = NewInMemoryCache, scRevision = 0,
     scEtcd = NewEtcdV3Server prefix, scPending = []\<rparr>"

text \<open>
  The loop of \<open>Run\<close> is \<open>batch\<close> followed by as many \<open>push\<close> as the batch has events. The events are
  well-formed (what the provisioners generate is, \<open>generated_wf\<close>), and the counters stay below
  their signed bounds: a revision or a stream a nanosecond reaches them after centuries.
\<close>

inductive sidecar_step :: "proto_lib \<Rightarrow> marshaller \<Rightarrow> sidecar \<Rightarrow> sidecar \<Rightarrow> bool" for pl js where
  batch: "scPending s = [] \<Longrightarrow> \<forall>ev \<in> set evs. wf_event ev \<Longrightarrow>
     unat (scRevision s) + length evs < 2 ^ 63 \<Longrightarrow>
     reflectToCache pl (scCache s) (scRevision s) evs = (c, rv, evs') \<Longrightarrow>
     sidecar_step pl js s (s\<lparr>scCache := c, scRevision := rv, scPending := evs'\<rparr>)"
| push: "scPending s = ev # evs \<Longrightarrow> range_order ordw \<Longrightarrow> range_order ordi \<Longrightarrow>
     pushEvent js ordw ordi (scEtcd s) ev = (e, ps) \<Longrightarrow>
     sidecar_step pl js s (s\<lparr>scEtcd := e, scPending := evs\<rparr>)"
| range: "range_order ordr \<Longrightarrow> range_order ordu \<Longrightarrow>
     Range pl js ordr ordu (scCache s) (scRevision s) (scEtcd s) r = (e, res) \<Longrightarrow>
     sidecar_step pl js s (s\<lparr>scEtcd := e\<rparr>)"
| open_stream: "unat (nextWatchId (scEtcd s)) < 2 ^ 63 \<Longrightarrow> addWatchStream (scEtcd s) = (e, i) \<Longrightarrow>
     sidecar_step pl js s (s\<lparr>scEtcd := e\<rparr>)"
| close_stream: "sidecar_step pl js s (s\<lparr>scEtcd := removeWatchStream (scEtcd s) i\<rparr>)"
| watch: "map_of (watchers (scEtcd s)) i = Some ws \<Longrightarrow> range_order ordr \<Longrightarrow> range_order ordu \<Longrightarrow>
     onWire_request pl js ordr ordu (scCache s) (scRevision s) (scEtcd s) ws rnd so req = (ws', out, err) \<Longrightarrow>
     sidecar_step pl js s
       (s\<lparr>scEtcd := (scEtcd s)\<lparr>watchers := AList.update i ws' (watchers (scEtcd s))\<rparr>\<rparr>)"

inductive reachable :: "proto_lib \<Rightarrow> marshaller \<Rightarrow> string \<Rightarrow> sidecar \<Rightarrow> bool" for pl js prefix where
  init: "reachable pl js prefix (NewSidecar prefix)"
| step: "reachable pl js prefix s \<Longrightarrow> sidecar_step pl js s s' \<Longrightarrow> reachable pl js prefix s'"

inductive_cases sidecar_stepE: "sidecar_step pl js s s'"

subsection \<open>Specification\<close>

definition cache_keys :: "string \<Rightarrow> cache \<Rightarrow> string set" where
  "cache_keys prefix c =
     route_key prefix ` dom (map_of (cRoute c)) \<union> upstream_key prefix ` dom (map_of (cUpstream c))"

definition key_effect :: "string \<Rightarrow> string set \<Rightarrow> event \<Rightarrow> string set" where
  "key_effect prefix K ev =
     (case object_key prefix (event_object ev) of
        None \<Rightarrow> K
      | Some k \<Rightarrow> if eType ev = EventDelete then K - {k} else insert k K)"

text \<open>
  The invariant: once the pending events are pushed, exactly the cached objects have metadata;
  and no revision is ahead of the sidecar's.
\<close>

definition revisions_ok :: "i64 \<Rightarrow> etcd \<Rightarrow> bool" where
  "revisions_ok rv e \<longleftrightarrow> (\<forall>k m. map_of (metaCache e) k = Some m \<longrightarrow>
     unat (modRevision m) \<le> unat rv \<and> unat (createRevision m) \<le> unat rv)"

definition sidecar_ok :: "string \<Rightarrow> sidecar \<Rightarrow> bool" where
  "sidecar_ok prefix s \<longleftrightarrow>
     cache_ok (scCache s) \<and> gm_ok (metaCache (scEtcd s)) \<and> watchers_ok (scEtcd s)
     \<and> keyPrefix (scEtcd s) = prefix
     \<and> foldl (key_effect prefix) (meta_keys (scEtcd s)) (scPending s) = cache_keys prefix (scCache s)
     \<and> revisions_ok (scRevision s) (scEtcd s)
     \<and> (\<forall>ev \<in> set (scPending s). wf_event ev \<and> unat (eRevision ev) < unat (scRevision s))
     \<and> unat (scRevision s) < 2 ^ 63"

section \<open>Lemmas\<close>

subsection \<open>Keys\<close>

lemma wf_event_key: "wf_event ev \<Longrightarrow> \<exists>k. object_key prefix (event_object ev) = Some k"
  by (cases "event_object ev") (auto simp: wf_event_def)

lemma reflect_event_keys:
  assumes "proto_ok pl" "wf_event ev"
  shows "cache_keys prefix (fst (reflect_event pl c ev)) = key_effect prefix (cache_keys prefix c) ev"
proof -
  note ids = proto_message.ident_clone [OF proto_okD(1) [OF assms(1)]]
    proto_message.ident_clone [OF proto_okD(2) [OF assms(1)]]
  have t: "eType ev = EventAdd \<or> eType ev = EventUpdate \<or> eType ev = EventDelete"
    using assms(2) by (auto simp: wf_event_def)
  have del: "map_of (cRoute (fst (reflect_event pl c ev))) = (map_of (cRoute c))(rId r := None)
      \<and> cUpstream (fst (reflect_event pl c ev)) = cUpstream c"
    if "eType ev = EventDelete" "eTombstone ev = ORoute r" for r
    using routes.view_del_total [of "cRoute c" "rId r"] that
    by (cases "route_Delete (cRoute c) (rId r)") (simp_all add: reflect_event_def)
  have delu: "map_of (cUpstream (fst (reflect_event pl c ev))) = (map_of (cUpstream c))(uId u := None)
      \<and> cRoute (fst (reflect_event pl c ev)) = cRoute c"
    if "eType ev = EventDelete" "eTombstone ev = OUpstream u" for u
    using upstreams.view_del_total [of "cUpstream c" "uId u"] that
    by (cases "upstream_Delete (cUpstream c) (uId u)") (simp_all add: reflect_event_def)
  show ?thesis
  proof (cases "eType ev = EventDelete")
    case True
    then show ?thesis
      using assms(2) del delu
      by (cases "eTombstone ev") (auto simp: key_effect_def event_object_def cache_keys_def wf_event_def)
  next
    case False
    with t have add: "eType ev = EventAdd \<or> eType ev = EventUpdate" by blast
    show ?thesis
      using assms(2) False add
      by (cases "eObject ev")
        (auto simp: reflect_event_def key_effect_def event_object_def wf_event_def cache_keys_def
          routes.view_ins upstreams.view_ins ids)
  qed
qed

lemma key_effect_revision [simp]: "key_effect prefix K (ev\<lparr>eRevision := rv\<rparr>) = key_effect prefix K ev"
proof -
  have "event_object (ev\<lparr>eRevision := rv\<rparr>) = event_object ev" by (simp add: event_object_def)
  then show ?thesis by (simp add: key_effect_def cong: option.case_cong)
qed

lemma key_effect_stamp [simp]: "foldl (key_effect prefix) K (stamp rv evs) = foldl (key_effect prefix) K evs"
  by (induction evs arbitrary: rv K) simp_all

lemma cache_after_keys:
  "proto_ok pl \<Longrightarrow> \<forall>ev \<in> set evs. wf_event ev \<Longrightarrow>
     cache_keys prefix (cache_after pl c evs) = foldl (key_effect prefix) (cache_keys prefix c) evs"
  by (induction evs arbitrary: c) (simp_all add: reflect_event_keys)

lemma cache_keys_mem:
  "has_key (cRoute c) i \<Longrightarrow> route_key p i \<in> cache_keys p c"
  "has_key (cUpstream c) i \<Longrightarrow> upstream_key p i \<in> cache_keys p c"
  by (auto simp: cache_keys_def has_key_def)

text \<open>Adding keys that end up present anyway makes no difference at the end.\<close>

lemma key_effect_absorb:
  "L \<subseteq> foldl (key_effect prefix) K evs \<Longrightarrow>
     foldl (key_effect prefix) (K \<union> L) evs = foldl (key_effect prefix) K evs"
proof (induction evs arbitrary: K L)
  case (Cons ev evs)
  have split: "key_effect prefix (K \<union> L) ev = key_effect prefix K ev \<union> (L \<inter> key_effect prefix (K \<union> L) ev)"
    by (auto simp: key_effect_def split: option.splits)
  have "L \<inter> key_effect prefix (K \<union> L) ev \<subseteq> foldl (key_effect prefix) (key_effect prefix K ev) evs"
    using Cons.prems by auto
  from Cons.IH [OF this] show ?case by (simp flip: split)
qed auto

subsection \<open>Reading writes metadata of cached objects only\<close>

lemma list_items_touched:
  "list_items enc key rv e xs kvs = (e', res) \<Longrightarrow> \<exists>K \<subseteq> key ` set xs. touched rv e K e'"
proof (induction xs arbitrary: e kvs)
  case Nil
  then show ?case using touched_refl by auto
next
  case (Cons x xs)
  show ?case
  proof (cases "enc x")
    case None
    with Cons.prems show ?thesis using touched_refl by auto
  next
    case (Some v)
    obtain e1 kv where ck: "composeKeyValue rv e (key x) v = (e1, kv)"
      by (cases "composeKeyValue rv e (key x) v")
    with Some Cons.prems Cons.IH [of e1 "kvs @ [kv]"] obtain K where
      K: "K \<subseteq> key ` set xs" "touched rv e1 K e'" by auto
    from touched_trans [OF composeKeyValue_eq(2) [OF ck] K(2)] K(1) show ?thesis
      by (intro exI [of _ "{key x} \<union> K"]) auto
  qed
qed

lemma cached_ids:
  assumes "proto_ok pl" "cache_ok c" "range_order ordr" "range_order ordu"
  shows "r \<in> set (route_List pl ordr (cRoute c)) \<Longrightarrow> has_key (cRoute c) (rId r)"
    and "u \<in> set (upstream_List pl ordu (cUpstream c)) \<Longrightarrow> has_key (cUpstream c) (uId u)"
proof -
  note ids = proto_message.ident_clone [OF proto_okD(1) [OF assms(1)]]
    proto_message.ident_clone [OF proto_okD(2) [OF assms(1)]]
  show "has_key (cRoute c) (rId r)" if "r \<in> set (route_List pl ordr (cRoute c))"
    using that assms(2) by (auto simp: route_List_def range_order_set [OF assms(3)] ids cache_ok_def
        has_key_iff rev_image_eqI)
  show "has_key (cUpstream c) (uId u)" if "u \<in> set (upstream_List pl ordu (cUpstream c))"
    using that assms(2) by (auto simp: upstream_List_def range_order_set [OF assms(4)] ids cache_ok_def
        has_key_iff rev_image_eqI)
qed

lemma findExactKey_write:
  assumes "findExactKey pl js c rv e key = (e', res)"
  shows "e' = e \<or> (\<exists>v kv. composeKeyValue rv e key v = (e', kv)
    \<and> res = Inr \<lparr>rsRevision = 0, rsKvs = [kv], rsCount = 1\<rparr>)"
  using assms unfolding findExactKey_def Let_def
  by (simp split: if_split_asm list.split_asm sum.split_asm option.split_asm cache_error.split_asm prod.split_asm) blast+

lemma findAllKeys_write:
  assumes "findAllKeys pl js ordr ordu c rv e key = (e', res)"
  shows "e' = e \<or> (\<exists>r. list_items (marshal_route js) (\<lambda>r. keyPrefix e @ ''/routes/'' @ rId r) rv e
        (route_List pl ordr (cRoute c)) [] = (e', r))
    \<or> (\<exists>r. list_items (marshal_upstream js) (\<lambda>u. keyPrefix e @ ''/upstreams/'' @ uId u) rv e
        (upstream_List pl ordu (cUpstream c)) [] = (e', r))"
proof (cases "\<exists>kind. HasPrefix key (keyPrefix e) \<and> Split (TrimPrefix key (keyPrefix e)) (CHR ''/'') = ['''', kind]")
  case True
  then obtain kind where k: "HasPrefix key (keyPrefix e)" "Split (TrimPrefix key (keyPrefix e)) (CHR ''/'') = ['''', kind]" by blast
  obtain e1 r1 e2 r2 where l: "list_items (marshal_route js) (\<lambda>r. keyPrefix e @ ''/routes/'' @ rId r) rv e
        (route_List pl ordr (cRoute c)) [] = (e1, r1)" "list_items (marshal_upstream js) (\<lambda>u. keyPrefix e @ ''/upstreams/'' @ uId u) rv e
        (upstream_List pl ordu (cUpstream c)) [] = (e2, r2)" by fastforce
  from assms [unfolded findAllKeys_def Let_def l k(2)] have "e' = e \<or> e' = e1 \<or> e' = e2"
    by (cases r1; cases r2) (auto split: if_split_asm)
  with l show ?thesis by blast
next
  case False
  with assms have "e' = e"
    unfolding findAllKeys_def Let_def
    by (simp split: if_split_asm list.split_asm)
  then show ?thesis by blast
qed
lemma findExactKey_touched:
  assumes "findExactKey pl js c rv e key = (e', res)"
  shows "\<exists>K \<subseteq> cache_keys (keyPrefix e) c. touched rv e K e'"
proof (cases "e' = e")
  case True
  then show ?thesis using touched_refl by blast
next
  case False
  then obtain v kv where "composeKeyValue rv e key v = (e', kv)" "res = Inr \<lparr>rsRevision = 0, rsKvs = [kv], rsCount = 1\<rparr>"
    using findExactKey_write [OF assms] by blast
  moreover from this assms have "key \<in> cache_keys (keyPrefix e) c"
    using findExactKey_found [of pl js c rv e key e'] cache_keys_mem by blast
  ultimately show ?thesis using composeKeyValue_eq(2) by (metis empty_subsetI insert_subset)
qed

lemma findAllKeys_touched:
  assumes "findAllKeys pl js ordr ordu c rv e key = (e', res)"
    and ok: "proto_ok pl" "cache_ok c" "range_order ordr" "range_order ordu"
  shows "\<exists>K \<subseteq> cache_keys (keyPrefix e) c. touched rv e K e'"
proof (cases "e' = e")
  case True
  then show ?thesis using touched_refl by blast
next
  case False
  then have "(\<exists>r. list_items (marshal_route js) (\<lambda>r. keyPrefix e @ ''/routes/'' @ rId r) rv e
        (route_List pl ordr (cRoute c)) [] = (e', r))
    \<or> (\<exists>r. list_items (marshal_upstream js) (\<lambda>u. keyPrefix e @ ''/upstreams/'' @ uId u) rv e
        (upstream_List pl ordu (cUpstream c)) [] = (e', r))"
    using findAllKeys_write [OF assms(1)] by blast
  then show ?thesis
  proof
    assume "\<exists>r. list_items (marshal_route js) (\<lambda>r. keyPrefix e @ ''/routes/'' @ rId r) rv e
        (route_List pl ordr (cRoute c)) [] = (e', r)" (is "\<exists>r. ?l r")
    then obtain x where l: "?l x" by blast
    obtain K where K: "K \<subseteq> (\<lambda>r. keyPrefix e @ ''/routes/'' @ rId r) ` set (route_List pl ordr (cRoute c))"
      "touched rv e K e'" using list_items_touched [OF l] by blast
    moreover have "K \<subseteq> cache_keys (keyPrefix e) c"
      using K(1) cached_ids(1) [OF ok] cache_keys_mem(1) unfolding route_key_def [symmetric] by blast
    ultimately show ?thesis by blast
  next
    assume "\<exists>r. list_items (marshal_upstream js) (\<lambda>u. keyPrefix e @ ''/upstreams/'' @ uId u) rv e
        (upstream_List pl ordu (cUpstream c)) [] = (e', r)" (is "\<exists>r. ?l r")
    then obtain x where l: "?l x" by blast
    obtain K where K: "K \<subseteq> (\<lambda>u. keyPrefix e @ ''/upstreams/'' @ uId u) ` set (upstream_List pl ordu (cUpstream c))"
      "touched rv e K e'" using list_items_touched [OF l] by blast
    moreover have "K \<subseteq> cache_keys (keyPrefix e) c"
      using K(1) cached_ids(2) [OF ok] cache_keys_mem(2) unfolding upstream_key_def [symmetric] by blast
    ultimately show ?thesis by blast
  qed
qed

lemma Range_touched:
  assumes "Range pl js ordr ordu c rv e r = (e', res)"
    and ok: "proto_ok pl" "cache_ok c" "range_order ordr" "range_order ordu"
  shows "\<exists>K \<subseteq> cache_keys (keyPrefix e) c. touched rv e K e'"
proof (cases "checkRangeRequestConformance (keyPrefix e) r")
  case None
  obtain e1 res1 where f: "(if rqRangeEnd r = None then findExactKey pl js c rv e (rqKey r)
      else findAllKeys pl js ordr ordu c rv e (rqKey r)) = (e1, res1)"
    by fastforce
  with assms(1) None have "e' = e1"
    by (auto simp: Range_def split: sum.splits if_splits)
  with f show ?thesis
    using findExactKey_touched findAllKeys_touched [OF _ ok] by (metis (full_types))
next
  case (Some err)
  with assms(1) have "e' = e" by (auto simp: Range_def split: if_splits)
  then show ?thesis using touched_refl by blast
qed

subsection \<open>The invariant\<close>

lemma meta_keys_touched: "touched rv e K e' \<Longrightarrow> meta_keys e' = meta_keys e \<union> K"
  by (auto simp: touched_def meta_keys_def split: if_splits)

lemma revisions_touched: "revisions_ok rv e \<Longrightarrow> touched rv e K e' \<Longrightarrow> revisions_ok rv e'"
  by (auto simp: revisions_ok_def touched_def meta_at_def split: if_splits option.splits)

lemma sidecar_ok_new: "sidecar_ok prefix (NewSidecar prefix)"
  using cache_ok_new
  by (simp add: sidecar_ok_def NewSidecar_def NewEtcdV3Server_def watchers_ok_def
      meta_keys_def cache_keys_def NewInMemoryCache_def newRoute_def newUpstream_def revisions_ok_def)

lemma stamp_mem:
  "ev \<in> set (stamp rv evs) \<Longrightarrow> \<exists>i < length evs. ev = (evs ! i)\<lparr>eRevision := rv + of_nat i\<rparr>"
  by (metis in_set_conv_nth length_stamp nth_stamp)

lemma unat_add_small:
  fixes rv :: i64
  assumes "unat rv + n < 2 ^ 63"
  shows "unat (rv + of_nat n) = unat rv + n"
  using assms by (simp add: unat_word_ariths unat_of_nat)

lemma wf_event_revision [simp]: "wf_event (ev\<lparr>eRevision := rv\<rparr>) = wf_event ev"
proof -
  have "event_object (ev\<lparr>eRevision := rv\<rparr>) = event_object ev" by (simp add: event_object_def)
  then show ?thesis by (simp add: wf_event_def)
qed

lemma reflected_batch:
  assumes "\<forall>ev \<in> set evs. wf_event ev" "unat rv + length evs < 2 ^ 63" "reflectToCache pl c rv evs = (c', rv', evs')"
  shows "c' = cache_after pl c evs" "evs' = stamp rv evs" "unat rv' = unat rv + length evs"
    and "ev \<in> set evs' \<Longrightarrow> wf_event ev \<and> unat (eRevision ev) < unat rv'"
proof -
  show eq: "c' = cache_after pl c evs" "evs' = stamp rv evs" and rv: "unat rv' = unat rv + length evs"
    using assms(2,3) by (auto simp: reflectToCache_eq unat_add_small)
  show "wf_event ev \<and> unat (eRevision ev) < unat rv'" if "ev \<in> set evs'"
  proof -
    from that obtain i where "i < length evs" "ev = (evs ! i)\<lparr>eRevision := rv + of_nat i\<rparr>"
      using stamp_mem eq(2) by blast
    with assms(1,2) show ?thesis by (simp add: rv unat_add_small)
  qed
qed

lemma batch_ok:
  assumes pl: "proto_ok pl" and ok: "sidecar_ok prefix s"
    and b: "scPending s = []" "\<forall>ev \<in> set evs. wf_event ev" "unat (scRevision s) + length evs < 2 ^ 63"
      "reflectToCache pl (scCache s) (scRevision s) evs = (c, rv, evs')"
  shows "sidecar_ok prefix (s\<lparr>scCache := c, scRevision := rv, scPending := evs'\<rparr>)"
proof -
  note r = reflected_batch [OF b(2-4)]
  have "revisions_ok rv (scEtcd s)"
    using ok r(3) unfolding sidecar_ok_def revisions_ok_def by fastforce
  moreover have "foldl (key_effect prefix) (meta_keys (scEtcd s)) evs' = cache_keys prefix c"
    using ok b(1,2) by (simp add: r(1,2) sidecar_ok_def cache_after_keys [OF pl])
  ultimately show ?thesis
    using ok b(3) r(3,4) by (simp add: sidecar_ok_def r(1) cache_after_ok)
qed

lemma push_ok:
  assumes js: "marshals js" and ok: "sidecar_ok prefix s"
    and p: "scPending s = ev # evs" "pushEvent js ordw ordi (scEtcd s) ev = (e, ps)"
  shows "sidecar_ok prefix (s\<lparr>scEtcd := e, scPending := evs\<rparr>)"
proof -
  have wf: "wf_event ev" "unat (eRevision ev) < unat (scRevision s)" and pre: "keyPrefix (scEtcd s) = prefix"
    using ok p(1) by (simp_all add: sidecar_ok_def)
  obtain k where k: "object_key prefix (event_object ev) = Some k"
    using wf_event_key [OF wf(1)] by blast
  note frame = pushEvent_frame [OF p(2)]
  note m = pushEvent_meta [OF js p(2), unfolded pre, OF k]
  have "meta_keys e = key_effect prefix (meta_keys (scEtcd s)) ev"
    by (auto simp: meta_keys_def m key_effect_def k)
  moreover have "revisions_ok (scRevision s) e"
    using ok wf(2) unfolding sidecar_ok_def revisions_ok_def m
    by (auto simp: next_meta_def split: if_splits option.splits)
  ultimately show ?thesis
    using ok p(1) frame by (simp add: sidecar_ok_def watchers_ok_def)
qed

lemma range_ok:
  assumes pl: "proto_ok pl" and ok: "sidecar_ok prefix s"
    and r: "range_order ordr" "range_order ordu"
      "Range pl js ordr ordu (scCache s) (scRevision s) (scEtcd s) r = (e, res)"
  shows "sidecar_ok prefix (s\<lparr>scEtcd := e\<rparr>)"
proof -
  from ok have c: "cache_ok (scCache s)" "keyPrefix (scEtcd s) = prefix"
    and f: "foldl (key_effect prefix) (meta_keys (scEtcd s)) (scPending s) = cache_keys prefix (scCache s)"
    by (simp_all add: sidecar_ok_def)
  obtain K where K: "K \<subseteq> cache_keys prefix (scCache s)" "touched (scRevision s) (scEtcd s) K e"
    using Range_touched [OF r(3) pl c(1) r(1,2)] c(2) by blast
  have "foldl (key_effect prefix) (meta_keys e) (scPending s) = cache_keys prefix (scCache s)"
    using key_effect_absorb [of K prefix "meta_keys (scEtcd s)" "scPending s"] K(1) f
    by (simp add: meta_keys_touched [OF K(2)])
  then show ?thesis
    using ok K(2) revisions_touched [OF _ K(2)]
    by (auto simp: sidecar_ok_def touched_def watchers_ok_def)
qed

lemma streams_ok:
  assumes "sidecar_ok prefix s" "watchers_ok e"
    "metaCache e = metaCache (scEtcd s)" "keyPrefix e = keyPrefix (scEtcd s)"
  shows "sidecar_ok prefix (s\<lparr>scEtcd := e\<rparr>)"
  using assms by (simp add: sidecar_ok_def meta_keys_def revisions_ok_def)

lemma sidecar_step_ok:
  assumes pl: "proto_ok pl" and js: "marshals js"
    and step: "sidecar_step pl js s s'" and ok: "sidecar_ok prefix s"
  shows "sidecar_ok prefix s'"
  using step
proof cases
  case (batch evs c rv evs')
  with batch_ok [OF pl ok] show ?thesis by blast
next
  case (push ev evs ordw ordi e ps)
  with push_ok [OF js ok] show ?thesis by blast
next
  case (range ordr ordu r e res)
  with range_ok [OF pl ok] show ?thesis by blast
next
  case (open_stream e i)
  have "watchers_ok e"
    using addWatchStream_ok(1) [OF _ open_stream(3)] ok open_stream(2) by (simp add: sidecar_ok_def)
  with open_stream streams_ok [OF ok] show ?thesis
    by (auto simp: addWatchStream_def Let_def)
next
  case (close_stream i)
  have "watchers_ok (removeWatchStream (scEtcd s) i)"
    using removeWatchStream_ok [of "scEtcd s" i] ok by (simp add: sidecar_ok_def)
  with close_stream streams_ok [OF ok] show ?thesis by (simp add: removeWatchStream_def)
next
  case (watch i ws ordr ordu rnd so req ws' out err)
  have "watchers_ok (scEtcd s)" using ok by (simp add: sidecar_ok_def)
  from onWire_request_watchers [OF watch(5) this watch(2)] watch(1) streams_ok [OF ok] show ?thesis by simp
qed

lemma reachable_ok:
  assumes "proto_ok pl" "marshals js" "reachable pl js prefix s"
  shows "sidecar_ok prefix s"
  using assms(3)
proof induction
  case init
  show ?case by (rule sidecar_ok_new)
next
  case (step s s')
  then show ?case using sidecar_step_ok [OF assms(1,2)] by blast
qed

subsection \<open>What the provisioners generate\<close>

lemma wf_resource_events [simp]:
  "t \<in> {EventAdd, EventUpdate, EventDelete} \<Longrightarrow> wf_event (route_event t r)"
  "t \<in> {EventAdd, EventUpdate, EventDelete} \<Longrightarrow> wf_event (upstream_event t u)"
  by (auto simp: wf_event_def route_event_def upstream_event_def event_object_def)

lemma generated_wf: "ev \<in> set (generateEvents pl new old) \<Longrightarrow> wf_event ev"
  by (auto simp: generateEvents_def Let_def opt_events_def manifest_Events_def
      split: option.splits if_splits prod.splits)

section \<open>Properties\<close>


definition route_7 :: route where
  "route_7 = zero_route\<lparr>rId := ''7''\<rparr>"

lemma reachable_example:
  "\<exists>s. reachable std_lib std_marshaller ''/a'' s \<and> scPending s = [] \<and> has_key (cRoute (scCache s)) ''7''
     \<and> scRevision s = 1"
proof -
  let ?evs = "[mk_event EventAdd (ORoute route_7) ONil]"
  obtain c rv evs where b: "reflectToCache std_lib (scCache (NewSidecar ''/a'')) (scRevision (NewSidecar ''/a'')) ?evs = (c, rv, evs)"
    using prod_cases3 by blast
  have wf: "\<forall>ev \<in> set ?evs. wf_event ev"
    by (simp add: wf_event_def event_object_def)
  obtain ev where evs: "evs = [ev]" and c: "has_key (cRoute c) ''7'' \<and> rv = 1"
    using b by (auto simp: reflect_event_def route_Insert_def Let_def std_lib_def std_clone_route_def
        route_7_def has_key_def map_of_update NewSidecar_def)
  have s1: "sidecar_step std_lib std_marshaller (NewSidecar ''/a'')
      ((NewSidecar ''/a'')\<lparr>scCache := c, scRevision := rv, scPending := evs\<rparr>)" (is "sidecar_step _ _ _ ?s1")
    by (rule sidecar_step.batch [OF _ wf _ b]) (simp_all add: NewSidecar_def)
  obtain e ps where "pushEvent std_marshaller rev rev (scEtcd ?s1) ev = (e, ps)" by fastforce
  then have "sidecar_step std_lib std_marshaller ?s1 (?s1\<lparr>scEtcd := e, scPending := []\<rparr>)"
    by (intro sidecar_step.push [where ev = ev and ordw = rev and ordi = rev]) (simp_all add: evs)
  with s1 have "reachable std_lib std_marshaller ''/a'' (?s1\<lparr>scEtcd := e, scPending := []\<rparr>)"
    by (blast intro: reachable.intros)
  with c show ?thesis by (intro exI [of _ "?s1\<lparr>scEtcd := e, scPending := []\<rparr>"]) simp
qed


lemma sint_small:
  fixes x :: i64
  assumes "unat x < 2 ^ 63"
  shows "sint x = int (unat x)"
proof -
  have "int (unat x) < 2 ^ 63"
    using assms by (metis of_nat_less_iff of_nat_numeral of_nat_power)
  then have "uint x < 2 ^ 63" by simp
  then have "signed_take_bit 63 (uint x) = uint x"
    by (intro signed_take_bit_int_eq_self) (auto intro: order_trans [of _ 0])
  then show ?thesis by (simp add: sint_uint)
qed

text \<open>An event gets the revision the sidecar reported before the event. The first event of a batch is
  therefore not due in a watch that starts at the next revision, as a client that has read the
  directory does: that client never sees it in its first response.\<close>

theorem event_revision_lags:
  assumes "marshals js" "wf_event ev" "eType ev \<noteq> EventDelete" "unat rv + 1 < 2 ^ 63"
    and "reflectToCache pl c rv [ev] = (c', rv', [ev'])" "pushEvent js ordw ordi e ev' = (e', ps)"
  shows "\<exists>k m. object_key (keyPrefix e) (event_object ev) = Some k \<and> map_of (metaCache e') k = Some m
    \<and> modRevision m = rv \<and> rv' = rv + 1 \<and> \<not> watch_due e' (rv + 1) k"
proof -
  have ev': "ev' = ev\<lparr>eRevision := rv\<rparr>" "rv' = rv + 1"
    using assms(5) by (auto simp: reflectToCache_eq)
  have o': "event_object ev' = event_object ev" "eType ev' \<noteq> EventDelete"
    using assms(3) by (simp_all add: ev'(1) event_object_def)
  obtain k where k: "object_key (keyPrefix e) (event_object ev) = Some k"
    using wf_event_key [OF assms(2)] by blast
  have m: "map_of (metaCache e') k = Some (next_meta e k rv)"
    using pushEvent_meta [OF assms(1,6), of k] k o' by (simp add: ev'(1))
  have "sint rv < sint (rv + 1)"
    using assms(4) unat_add_small [of rv 1] sint_small [of rv] sint_small [of "rv + 1"] by simp
  with k m ev'(2) show ?thesis by (auto simp: watch_due_def)
qed

lemma event_revision_lags_witness:
  "\<exists>c' rv' ev' e' ps. reflectToCache std_lib NewInMemoryCache 4 [mk_event EventAdd (ORoute route_7) ONil] = (c', rv', [ev'])
     \<and> pushEvent std_marshaller rev rev (NewEtcdV3Server ''/a'') ev' = (e', ps)
     \<and> \<not> watch_due e' 5 (route_key ''/a'' ''7'')"
proof -
  let ?ev = "mk_event EventAdd (ORoute route_7) ONil"
  obtain c' rv' ev' where r: "reflectToCache std_lib NewInMemoryCache 4 [?ev] = (c', rv', [ev'])"
    by (auto simp: reflectToCache_eq)
  obtain e' ps where p: "pushEvent std_marshaller rev rev (NewEtcdV3Server ''/a'') ev' = (e', ps)" by fastforce
  have "wf_event ?ev" "eType ?ev \<noteq> EventDelete"
    by (simp_all add: wf_event_def event_object_def)
  from event_revision_lags [OF marshals_std this _ r p] have "\<not> watch_due e' 5 (route_key ''/a'' ''7'')"
    by (auto simp: event_object_def NewEtcdV3Server_def route_7_def)
  with r p show ?thesis by blast
qed

end
