(* ===== verification/Event_Channel.thy ===== *)
theory Event_Channel
  imports Sidecar File_Provisioner
begin

text \<open>
  The channel of events between a provisioner and the sidecar (\<open>evChan\<close> of both provisioners, the
  loop of \<open>Run\<close> in \<open>pkg/sidecar/types.go\<close>). It has no buffer, and a provisioner hands every batch to
  a goroutine of its own, which waits until the sidecar receives; the channel is closed when the
  provisioner's \<open>Run\<close> returns. A goroutine that waits to send, or starts to, when the channel is
  closed panics, which ends the process.
\<close>

section \<open>Definitions\<close>

record ev_chan =
  ecWaiting :: "event list list"
  ecHanded :: "event list list"
  ecReceived :: "event list list"
  ecClosed :: bool
  ecCrashed :: bool

definition new_chan :: ev_chan where
  "new_chan = \<lparr>ecWaiting = [], ecHanded = [], ecReceived = [], ecClosed = False, ecCrashed = False\<rparr>"

inductive chan_step :: "ev_chan \<Rightarrow> ev_chan \<Rightarrow> bool" where
  hand: "\<not> ecCrashed s \<Longrightarrow>
     chan_step s (s\<lparr>ecWaiting := ecWaiting s @ [b], ecHanded := ecHanded s @ [b]\<rparr>)"
| receive: "\<not> ecCrashed s \<Longrightarrow> \<not> ecClosed s \<Longrightarrow> ecWaiting s = xs @ b # ys \<Longrightarrow>
     chan_step s (s\<lparr>ecWaiting := xs @ ys, ecReceived := ecReceived s @ [b]\<rparr>)"
| close: "\<not> ecCrashed s \<Longrightarrow> \<not> ecClosed s \<Longrightarrow> chan_step s (s\<lparr>ecClosed := True\<rparr>)"
| crash: "\<not> ecCrashed s \<Longrightarrow> ecClosed s \<Longrightarrow> ecWaiting s \<noteq> [] \<Longrightarrow> chan_step s (s\<lparr>ecCrashed := True\<rparr>)"

inductive_cases chan_stepE: "chan_step s s'"

text \<open>What the sidecar does with the batches in the order it receives them.\<close>

definition received_cache :: "proto_lib \<Rightarrow> cache \<Rightarrow> ev_chan \<Rightarrow> cache" where
  "received_cache pl c s = foldl (\<lambda>c b. fst (reflectToCache pl c 0 b)) c (ecReceived s)"

section \<open>Lemmas\<close>

text \<open>The channel forgets nothing, and from the moment it is closed receives nothing.\<close>

lemma chan_conserves:
  assumes "chan_step\<^sup>*\<^sup>* new_chan s"
  shows "mset (ecHanded s) = mset (ecReceived s) + mset (ecWaiting s)
    \<and> (ecCrashed s \<longrightarrow> ecClosed s \<and> ecWaiting s \<noteq> [])"
  using assms
proof (induction rule: rtranclp_induct)
  case base
  then show ?case by (simp add: new_chan_def)
next
  case (step y z)
  from step.hyps(2) step.IH show ?case by (elim chan_stepE) auto
qed

lemma closed_steps:
  assumes "chan_step\<^sup>*\<^sup>* s s'" "ecClosed s"
  shows "ecClosed s' \<and> ecReceived s' = ecReceived s \<and> (\<exists>bs. ecWaiting s' = ecWaiting s @ bs)"
  using assms(1)
proof (induction rule: rtranclp_induct)
  case (step y z)
  from step.hyps(2) step.IH assms(2) show ?case by (elim chan_stepE) auto
qed (use assms(2) in simp)

lemma hand_two:
  "chan_step\<^sup>*\<^sup>* new_chan (new_chan\<lparr>ecWaiting := [a, b], ecHanded := [a, b]\<rparr>)"
proof -
  have "chan_step new_chan (new_chan\<lparr>ecWaiting := [a], ecHanded := [a]\<rparr>)"
    using chan_step.hand [of new_chan a] by (simp add: new_chan_def)
  moreover have "chan_step (new_chan\<lparr>ecWaiting := [a], ecHanded := [a]\<rparr>) (new_chan\<lparr>ecWaiting := [a, b], ecHanded := [a, b]\<rparr>)"
    using chan_step.hand [of "new_chan\<lparr>ecWaiting := [a], ecHanded := [a]\<rparr>" b] by (simp add: new_chan_def)
  ultimately show ?thesis by (meson converse_rtranclp_into_rtranclp r_into_rtranclp)
qed

text \<open>Two waiting batches can be received the later one first.\<close>

lemma receive_swapped:
  "\<exists>s. chan_step\<^sup>*\<^sup>* new_chan s \<and> ecHanded s = [a, b] \<and> ecReceived s = [b, a] \<and> ecWaiting s = []"
proof -
  let ?s = "new_chan\<lparr>ecWaiting := [a, b], ecHanded := [a, b]\<rparr>"
  let ?t = "?s\<lparr>ecWaiting := [a], ecReceived := [b]\<rparr>"
  have "chan_step ?s ?t"
    using chan_step.receive [of ?s "[a]" b "[]"] by (simp add: new_chan_def)
  moreover have "chan_step ?t (?t\<lparr>ecWaiting := [], ecReceived := [b, a]\<rparr>)"
    using chan_step.receive [of ?t "[]" a "[]"] by (simp add: new_chan_def)
  ultimately have "chan_step\<^sup>*\<^sup>* new_chan (?t\<lparr>ecWaiting := [], ecReceived := [b, a]\<rparr>)"
    using hand_two [of a b] by (meson rtranclp.rtrancl_into_rtrancl)
  then show ?thesis by (intro exI [of _ "?t\<lparr>ecWaiting := [], ecReceived := [b, a]\<rparr>"]) simp
qed

section \<open>Properties\<close>





text \<open>Batches that overtake each other leave the cache wrong. When a route is added and then removed,
  the two batches the provisioner hands over can be received the other way round, and the route stays
  in the cache for good, where receiving them in their order leaves none.\<close>

theorem batches_can_reorder:
  assumes "proto_ok pl"
  shows "\<exists>s. chan_step\<^sup>*\<^sup>* new_chan s \<and> ecWaiting s = []
    \<and> ecHanded s = [[route_event EventAdd r], [route_event EventDelete r]]
    \<and> map_of (cRoute (received_cache pl c s)) (rId r) \<noteq> None
    \<and> map_of (cRoute (received_cache pl c (s\<lparr>ecReceived := ecHanded s\<rparr>))) (rId r) = None"
proof -
  obtain s where s: "chan_step\<^sup>*\<^sup>* new_chan s" "ecHanded s = [[route_event EventAdd r], [route_event EventDelete r]]"
    "ecReceived s = [[route_event EventDelete r], [route_event EventAdd r]]" "ecWaiting s = []"
    using receive_swapped by blast
  have "rId (clone_route pl r) = rId r"
    using proto_message.ident_clone [OF proto_okD(1) [OF assms]] .
  then have add: "map_of (cRoute (cache_after pl c [route_event EventAdd r])) (rId r) \<noteq> None" for c
    using reflect_route_view [of pl c EventAdd r] by (simp add: cache_after_def)
  have del: "map_of (cRoute (cache_after pl c [route_event EventDelete r])) (rId r) = None" for c
    using reflect_route_view [of pl c EventDelete r] by (simp add: cache_after_def)
  show ?thesis
    using s add del by (intro exI [of _ s]) (simp add: received_cache_def reflectToCache_eq)
qed

lemma batches_can_reorder_witness:
  "\<exists>s. chan_step\<^sup>*\<^sup>* new_chan s \<and> map_of (cRoute (received_cache std_lib NewInMemoryCache s)) ''1'' \<noteq> None"
proof -
  have "proto_ok std_lib" by simp
  from batches_can_reorder [OF this, of "zero_route\<lparr>rId := ''1''\<rparr>" NewInMemoryCache] show ?thesis by auto
qed

end
