(* ===== verification/Etcd_Delivery.thy ===== *)
theory Etcd_Delivery
  imports Etcd_Push
begin

text \<open>
  Progress of the goroutines that deliver pushed responses (\<open>pushEvent\<close> in \<open>pkg/etcdv3/etcd.go\<close>, the
  loop of \<open>Watch\<close> in \<open>watch.go\<close>): when the environment leaves the streams alone they come to an end
  after a bounded number of steps, and they end only when every response has reached its stream.
\<close>

section \<open>Definitions\<close>

text \<open>A step of a goroutine: one in which no client goes away and no \<open>Watch\<close> returns.\<close>

definition goroutine_step :: "delivery \<Rightarrow> delivery \<Rightarrow> bool" where
  "goroutine_step d d' \<longleftrightarrow> deliver d d' \<and> d' \<noteq> d \<and> ctxDone d' = ctxDone d \<and> chanClosed d' = chanClosed d"

text \<open>What the goroutines have left to do: a step per response, one to finish, one to crash.\<close>

definition work :: "delivery \<Rightarrow> nat" where
  "work d = sum_list (map (\<lambda>(_, rs). Suc (length rs)) (pending d)) + (if crashed d then 0 else 1)"

section \<open>Lemmas\<close>

inductive_cases deliverE: "deliver d d'"

lemma delivery_neq:
  "pending d' \<noteq> pending d \<Longrightarrow> d' \<noteq> d" "crashed d' \<noteq> crashed d \<Longrightarrow> d' \<noteq> d"
  by auto

lemma goroutine_stepI:
  "deliver d d' \<Longrightarrow> pending d' \<noteq> pending d \<or> crashed d' \<noteq> crashed d \<Longrightarrow> ctxDone d' = ctxDone d \<Longrightarrow>
     chanClosed d' = chanClosed d \<Longrightarrow> goroutine_step d d'"
  using delivery_neq by (auto simp: goroutine_step_def)

lemma work_decreases: "goroutine_step d d' \<Longrightarrow> work d' < work d"
  unfolding goroutine_step_def by (elim conjE deliverE) (auto simp: work_def)

lemma goroutine_step_progress:
  assumes "\<not> crashed d" "pending d \<noteq> []"
  shows "\<exists>d'. goroutine_step d d'"
proof -
  obtain w rs ps where p: "pending d = [] @ (w, rs) # ps"
    using assms(2) by (cases "pending d") auto
  show ?thesis
  proof (cases rs)
    case Nil
    then show ?thesis
      using assms(1) p by (intro exI [of _ "d\<lparr>pending := [] @ ps\<rparr>"] goroutine_stepI deliver.finish) auto
  next
    case (Cons r rs')
    show ?thesis
    proof (cases "w \<in> chanClosed d")
      case True
      then show ?thesis
        using assms(1) p Cons by (intro exI [of _ "d\<lparr>crashed := True\<rparr>"] goroutine_stepI deliver.crash) auto
    next
      case False
      then show ?thesis
        using assms(1) p Cons
        by (intro exI [of _ "d\<lparr>pending := [] @ (w, rs') # ps, sent := (sent d)(w := sent d w @ [r])\<rparr>"]
            goroutine_stepI deliver.send) auto
    qed
  qed
qed

lemma goroutine_step_frame:
  assumes "goroutine_step\<^sup>*\<^sup>* d d'"
  shows "ctxDone d' = ctxDone d" "chanClosed d' = chanClosed d"
  using assms by (induction rule: rtranclp_induct) (auto simp: goroutine_step_def)

lemma goroutine_step_runs: "goroutine_step\<^sup>*\<^sup>* d d' \<Longrightarrow> runs d0 ps d \<Longrightarrow> runs d0 ps d'"
  by (induction rule: rtranclp_induct) (auto simp: goroutine_step_def intro: runs.step)

lemma no_crash_open:
  assumes "goroutine_step\<^sup>*\<^sup>* d d'" "\<not> crashed d" "chanClosed d = {}"
  shows "\<not> crashed d'"
  using assms(1)
proof (induction rule: rtranclp_induct)
  case (step y z)
  then have "deliver y z" "chanClosed y = {}" "\<not> crashed y"
    using goroutine_step_frame(2) [OF step.hyps(1)] assms(3) by (auto simp: goroutine_step_def)
  then show ?case by (auto elim: deliverE)
qed (rule assms(2))

lemma owed_Nil [simp]: "owed [] w = {#}"
  by (simp add: owed_def)

section \<open>Properties\<close>

text \<open>The goroutines come to an end: from any state they make at most as many steps as there are
  responses and goroutines left, and one more if the process crashes.\<close>

theorem delivery_terminates:
  assumes "(goroutine_step ^^ n) d d'"
  shows "n + work d' \<le> work d \<and> n \<le> sum_list (map (\<lambda>(_, rs). Suc (length rs)) (pending d)) + 1"
proof -
  have "n + work d' \<le> work d"
    using assms
  proof (induction n arbitrary: d')
    case (Suc n)
    then obtain d1 where "(goroutine_step ^^ n) d d1" "goroutine_step d1 d'" by auto
    with Suc.IH [of d1] work_decreases [of d1 d'] show ?case by simp
  qed simp
  then show ?thesis by (simp add: work_def split: if_splits)
qed

definition one_push :: push where
  "one_push = (0, [note_response 1])"

definition handed_over :: delivery where
  "handed_over = idle\<lparr>pending := [(0, [])], sent := (sent idle)(0 := [note_response 1])\<rparr>"

lemma one_push_step: "goroutine_step (start [one_push] idle) handed_over"
proof -
  have "deliver (start [one_push] idle) ((start [one_push] idle)\<lparr>pending := [] @ (0, []) # [],
      sent := (sent (start [one_push] idle))(0 := sent (start [one_push] idle) 0 @ [note_response 1])\<rparr>)"
    by (rule deliver.send) (simp_all add: start_def one_push_def)
  then have "deliver (start [one_push] idle) handed_over"
    by (simp add: start_def handed_over_def)
  then show ?thesis
    by (rule goroutine_stepI) (simp_all add: start_def handed_over_def one_push_def)
qed

lemma handed_over_step: "goroutine_step handed_over (handed_over\<lparr>pending := []\<rparr>)"
proof -
  have "deliver handed_over (handed_over\<lparr>pending := [] @ []\<rparr>)"
    by (rule deliver.finish) (simp_all add: handed_over_def)
  then show ?thesis by (intro goroutine_stepI) (simp_all add: handed_over_def)
qed

lemma delivery_terminates_witness:
  "(goroutine_step ^^ 1) (start [one_push] idle) handed_over
     \<and> 1 + work handed_over \<le> work (start [one_push] idle)"
proof -
  have "(goroutine_step ^^ 1) (start [one_push] idle) handed_over"
    using one_push_step by (simp add: eq_OO)
  with delivery_terminates [OF this] show ?thesis by blast
qed

text \<open>C16: every response arrives. Whatever was pushed and delivered before, while no client goes away and
  no \<open>Watch\<close> returns the goroutines can always go on until none is left, and when they cannot go on
  every stream has been sent exactly the responses pushed to it.\<close>

theorem delivery_live:
  assumes "runs idle ps d" "ctxDone d = {}" "chanClosed d = {}" "\<not> crashed d"
    and "goroutine_step\<^sup>*\<^sup>* d d'"
  shows "(pending d' \<noteq> [] \<longrightarrow> (\<exists>d''. goroutine_step d' d'')) \<and> (pending d' = [] \<longrightarrow> mset (sent d' w) = owed ps w)"
proof (cases "pending d' = []")
  case True
  have "runs idle ps d'" using goroutine_step_runs [OF assms(5,1)] .
  moreover have "w \<notin> ctxDone d'" using goroutine_step_frame(1) [OF assms(5)] assms(2) by simp
  ultimately have "mset (sent d' w) + owed (pending d') w = owed ps w"
    using runs_owed by (simp add: idle_def)
  with True show ?thesis by simp
next
  case False
  with goroutine_step_progress no_crash_open [OF assms(5,4,3)] show ?thesis by blast
qed

lemma delivery_live_witness:
  "\<exists>d'. goroutine_step\<^sup>*\<^sup>* (start [one_push] idle) d' \<and> pending d' = []
     \<and> mset (sent d' 0) = owed [one_push] 0 \<and> sent d' 0 = [note_response 1]"
proof -
  let ?d = "handed_over\<lparr>pending := []\<rparr>"
  have r: "runs idle [one_push] (start [one_push] idle)"
    using runs.more [OF runs.base, of idle "[one_push]"] by simp
  have s: "goroutine_step\<^sup>*\<^sup>* (start [one_push] idle) ?d"
    using one_push_step handed_over_step by (meson converse_rtranclp_into_rtranclp rtranclp.rtrancl_refl)
  have "ctxDone (start [one_push] idle) = {}" "chanClosed (start [one_push] idle) = {}"
    "\<not> crashed (start [one_push] idle)" by (simp_all add: start_def)
  from delivery_live [OF r this s, of 0] s show ?thesis
    by (intro exI [of _ ?d]) (simp add: handed_over_def)
qed

end
