(* ===== verification/Etcd_Races.thy ===== *)
theory Etcd_Races
  imports Sidecar
begin

text \<open>
  The accesses to the metadata cache at the granularity of its lock. \<open>pushEvent\<close> (\<open>pkg/etcdv3/etcd.go\<close>)
  reads the metadata of a key under the read lock and writes it back under the write lock;
  \<open>composeKeyValue\<close> (\<open>kv.go\<close>) looks a key up, reads the revision when it is not there, and stores the
  new entry, each on its own. Any number of range requests run in goroutines of their own, beside the
  loop of the sidecar. \<open>Sidecar\<close> takes each of the two functions as one step; here they interleave.
\<close>

section \<open>Definitions\<close>

subsection \<open>The critical sections\<close>

text \<open>The two halves of \<open>pushEvent\<close>.\<close>

definition push_read :: "etcd \<Rightarrow> event \<Rightarrow> (string \<times> meta) option" where
  "push_read e ev =
     (case object_key (keyPrefix e) (event_object ev) of
        None \<Rightarrow> None
      | Some name \<Rightarrow> Some (name, next_meta e name (eRevision ev)))"

definition push_write :: "marshaller \<Rightarrow> etcd \<Rightarrow> event \<Rightarrow> string \<times> meta \<Rightarrow> etcd" where
  "push_write js e ev = (\<lambda>(name, m).
     case marshal_object js (event_object ev) of
       None \<Rightarrow> e
     | Some _ \<Rightarrow> e\<lparr>metaCache := (if eType ev = EventDelete then AList.delete name (metaCache e)
                                else AList.update name m (metaCache e))\<rparr>)"

text \<open>The store of \<open>composeKeyValue\<close>, and the whole of what it does to the metadata.\<close>

definition compose_store :: "i64 \<Rightarrow> etcd \<Rightarrow> string \<Rightarrow> etcd" where
  "compose_store rv e key =
     e\<lparr>metaCache := AList.update key \<lparr>createRevision = rv, modRevision = rv\<rparr> (metaCache e)\<rparr>"

definition compose_meta :: "i64 \<Rightarrow> etcd \<Rightarrow> string \<Rightarrow> etcd" where
  "compose_meta rv e key =
     (case map_of (metaCache e) key of Some _ \<Rightarrow> e | None \<Rightarrow> compose_store rv e key)"

text \<open>
  A reader is a range request that has taken its objects from the cache: the keys it still has to
  compose, and how far it is with the first of them.
\<close>

datatype read_phase = Lookup | Missed | Stamped i64

type_synonym reader = "read_phase \<times> string list"

definition request_keys ::
    "proto_lib \<Rightarrow> marshaller \<Rightarrow> (string, route) iter \<Rightarrow> (string, upstream) iter \<Rightarrow> sidecar
       \<Rightarrow> range_request \<Rightarrow> string list" where
  "request_keys pl js ordr ordu s r =
     (case snd (Range pl js ordr ordu (scCache s) (scRevision s) (scEtcd s) r) of
        Inl _ \<Rightarrow> []
      | Inr resp \<Rightarrow> map kvKey (rsKvs resp))"

subsection \<open>The interleaving\<close>

text \<open>
  \<open>ilPush\<close> is what \<open>pushEvent\<close> has read for the first pending event and not yet written.
\<close>

record interleaved =
  ilSide :: sidecar
  ilPush :: "(string \<times> meta) option"
  ilReaders :: "reader list"

abbreviation ilEtcd :: "interleaved \<Rightarrow> etcd" where
  "ilEtcd s \<equiv> scEtcd (ilSide s)"

definition set_etcd :: "etcd \<Rightarrow> sidecar \<Rightarrow> sidecar" where
  "set_etcd e t = t\<lparr>scEtcd := e\<rparr>"

text \<open>\<open>serve\<close> is every step of the sidecar that leaves the metadata and the batch alone: streams that
  open and close, watch requests.\<close>

inductive fine_step :: "proto_lib \<Rightarrow> marshaller \<Rightarrow> interleaved \<Rightarrow> interleaved \<Rightarrow> bool" for pl js where
  batch: "ilPush s = None \<Longrightarrow> scPending (ilSide s) = [] \<Longrightarrow> \<forall>ev \<in> set evs. wf_event ev \<Longrightarrow>
     unat (scRevision (ilSide s)) + length evs < 2 ^ 63 \<Longrightarrow>
     reflectToCache pl (scCache (ilSide s)) (scRevision (ilSide s)) evs = (c, rv, evs') \<Longrightarrow>
     fine_step pl js s (s\<lparr>ilSide := (ilSide s)\<lparr>scCache := c, scRevision := rv, scPending := evs'\<rparr>\<rparr>)"
| push_skip: "ilPush s = None \<Longrightarrow> scPending (ilSide s) = ev # evs \<Longrightarrow> push_read (ilEtcd s) ev = None \<Longrightarrow>
     fine_step pl js s (s\<lparr>ilSide := (ilSide s)\<lparr>scPending := evs\<rparr>\<rparr>)"
| push_begin: "ilPush s = None \<Longrightarrow> scPending (ilSide s) = ev # evs \<Longrightarrow> push_read (ilEtcd s) ev = Some p \<Longrightarrow>
     fine_step pl js s (s\<lparr>ilPush := Some p\<rparr>)"
| push_end: "ilPush s = Some p \<Longrightarrow> scPending (ilSide s) = ev # evs \<Longrightarrow>
     fine_step pl js s (s\<lparr>ilPush := None,
       ilSide := (set_etcd (push_write js (ilEtcd s) ev p) (ilSide s))\<lparr>scPending := evs\<rparr>\<rparr>)"
| read_begin: "range_order ordr \<Longrightarrow> range_order ordu \<Longrightarrow>
     fine_step pl js s (s\<lparr>ilReaders := ilReaders s @ [(Lookup, request_keys pl js ordr ordu (ilSide s) r)]\<rparr>)"
| read_hit: "ilReaders s = xs @ (Lookup, k # ks) # ys \<Longrightarrow> map_of (metaCache (ilEtcd s)) k = Some m \<Longrightarrow>
     fine_step pl js s (s\<lparr>ilReaders := xs @ (Lookup, ks) # ys\<rparr>)"
| read_miss: "ilReaders s = xs @ (Lookup, k # ks) # ys \<Longrightarrow> map_of (metaCache (ilEtcd s)) k = None \<Longrightarrow>
     fine_step pl js s (s\<lparr>ilReaders := xs @ (Missed, k # ks) # ys\<rparr>)"
| read_stamp: "ilReaders s = xs @ (Missed, k # ks) # ys \<Longrightarrow>
     fine_step pl js s (s\<lparr>ilReaders := xs @ (Stamped (scRevision (ilSide s)), k # ks) # ys\<rparr>)"
| read_store: "ilReaders s = xs @ (Stamped rv, k # ks) # ys \<Longrightarrow>
     fine_step pl js s (s\<lparr>ilReaders := xs @ (Lookup, ks) # ys,
       ilSide := set_etcd (compose_store rv (ilEtcd s) k) (ilSide s)\<rparr>)"
| read_end: "ilReaders s = xs @ (Lookup, []) # ys \<Longrightarrow> fine_step pl js s (s\<lparr>ilReaders := xs @ ys\<rparr>)"
| serve: "sidecar_step pl js (ilSide s) t \<Longrightarrow> metaCache (scEtcd t) = metaCache (ilEtcd s) \<Longrightarrow>
     scCache t = scCache (ilSide s) \<Longrightarrow> scRevision t = scRevision (ilSide s) \<Longrightarrow>
     scPending t = scPending (ilSide s) \<Longrightarrow> fine_step pl js s (s\<lparr>ilSide := t\<rparr>)"

text \<open>A state of the sidecar in which neither a push nor a read is under way.\<close>

definition at_rest :: "sidecar \<Rightarrow> interleaved" where
  "at_rest t = \<lparr>ilSide = t, ilPush = None, ilReaders = []\<rparr>"

definition fine_reachable :: "proto_lib \<Rightarrow> marshaller \<Rightarrow> string \<Rightarrow> interleaved \<Rightarrow> bool" where
  "fine_reachable pl js prefix s \<longleftrightarrow> (fine_step pl js)\<^sup>*\<^sup>* (at_rest (NewSidecar prefix)) s"

subsection \<open>Specification\<close>

text \<open>What is left of \<open>sidecar_ok\<close>: no cached object is without metadata, but not conversely.\<close>

definition pushing_ok :: "string \<Rightarrow> interleaved \<Rightarrow> bool" where
  "pushing_ok prefix s \<longleftrightarrow> (\<forall>k m. ilPush s = Some (k, m) \<longrightarrow>
     (\<exists>ev evs. scPending (ilSide s) = ev # evs \<and> object_key prefix (event_object ev) = Some k)
     \<and> unat (modRevision m) \<le> unat (scRevision (ilSide s))
     \<and> unat (createRevision m) \<le> unat (scRevision (ilSide s)))"

definition readers_ok :: "interleaved \<Rightarrow> bool" where
  "readers_ok s \<longleftrightarrow> (\<forall>rv ks. (Stamped rv, ks) \<in> set (ilReaders s) \<longrightarrow> unat rv \<le> unat (scRevision (ilSide s)))"

definition base_ok :: "string \<Rightarrow> sidecar \<Rightarrow> bool" where
  "base_ok prefix t \<longleftrightarrow>
     cache_ok (scCache t) \<and> gm_ok (metaCache (scEtcd t)) \<and> watchers_ok (scEtcd t) \<and> keyPrefix (scEtcd t) = prefix
     \<and> cache_keys prefix (scCache t) \<subseteq> foldl (key_effect prefix) (meta_keys (scEtcd t)) (scPending t)
     \<and> revisions_ok (scRevision t) (scEtcd t)
     \<and> (\<forall>ev \<in> set (scPending t). wf_event ev \<and> unat (eRevision ev) < unat (scRevision t))
     \<and> unat (scRevision t) < 2 ^ 63"

definition fine_ok :: "string \<Rightarrow> interleaved \<Rightarrow> bool" where
  "fine_ok prefix s \<longleftrightarrow> base_ok prefix (ilSide s) \<and> pushing_ok prefix s \<and> readers_ok s"

section \<open>Lemmas\<close>

inductive_cases fine_stepE: "fine_step pl js s s'"

subsection \<open>The critical sections in sequence are the functions\<close>

lemma pushEvent_phases:
  "fst (pushEvent js ordw ordi e ev) =
     (case push_read e ev of None \<Rightarrow> e | Some p \<Rightarrow> push_write js e ev p)"
  by (simp add: pushEvent_def push_read_def push_write_def Let_def split: option.splits)

lemma composeKeyValue_phases: "fst (composeKeyValue rv e key v) = compose_meta rv e key"
  by (simp add: composeKeyValue_def compose_meta_def compose_store_def split: option.splits)

lemma composeKeyValue_key: "composeKeyValue rv e key v = (e', kv) \<Longrightarrow> e' = compose_meta rv e key \<and> kvKey kv = key"
  using composeKeyValue_phases [of rv e key v] composeKeyValue_eq(1) [of rv e key v]
  by (auto simp: kv_at_def)

lemma list_items_phases:
  assumes "\<And>x. enc x \<noteq> None" "list_items enc key rv e xs kvs = (e', res)"
  shows "e' = foldl (compose_meta rv) e (map key xs)
    \<and> (\<exists>kvs'. res = Inr (kvs @ kvs') \<and> map kvKey kvs' = map key xs)"
  using assms(2)
proof (induction xs arbitrary: e kvs)
  case (Cons x xs)
  obtain v where v: "enc x = Some v" using assms(1) [of x] by blast
  obtain e1 kv where ck: "composeKeyValue rv e (key x) v = (e1, kv)"
    by (cases "composeKeyValue rv e (key x) v")
  have "list_items enc key rv e1 xs (kvs @ [kv]) = (e', res)"
    using Cons.prems v ck by simp
  from Cons.IH [OF this] composeKeyValue_key [OF ck] show ?case by auto
qed simp
lemma findExactKey_phases:
  assumes "marshals js" "findExactKey pl js c rv e key = (e', res)"
  shows "(\<exists>err. res = Inl err \<and> e' = e) \<or>
    (\<exists>resp. res = Inr resp \<and> map kvKey (rsKvs resp) = [key] \<and> e' = compose_meta rv e key)"
proof -
  have hit: "\<exists>resp. res = Inr resp \<and> map kvKey (rsKvs resp) = [key] \<and> e' = compose_meta rv e key"
    if "(case composeKeyValue rv e key v of (e', kv) \<Rightarrow>
          (e', Inr \<lparr>rsRevision = 0, rsKvs = [kv], rsCount = 1\<rparr>)) = (e', res)" for v
    using that composeKeyValue_key by (auto split: prod.splits)
  from assms show ?thesis
    unfolding findExactKey_def Let_def
    by (simp add: marshals_neq split: if_split_asm list.split_asm sum.split_asm option.split_asm cache_error.split_asm)
      (blast dest: hit)+
qed

lemma findAllKeys_phases:
  assumes "marshals js" "findAllKeys pl js ordr ordu c rv e key = (e', res)"
  shows "(\<exists>err. res = Inl err \<and> e' = e) \<or>
    (\<exists>resp. res = Inr resp \<and> e' = foldl (compose_meta rv) e (map kvKey (rsKvs resp)))"
proof -
  let ?answer = "\<lambda>(e', res). case res of Inl err \<Rightarrow> (e', Inl err)
    | Inr kvs \<Rightarrow> (e', Inr \<lparr>rsRevision = 0, rsKvs = kvs, rsCount = of_nat (length kvs)\<rparr>)"
  have hit: "\<exists>resp. res = Inr resp \<and> e' = foldl (compose_meta rv) e (map kvKey (rsKvs resp))"
    if a: "?answer (list_items enc f rv e xs []) = (e', res)" and enc: "\<And>x. enc x \<noteq> None"
    for enc and f :: "'x \<Rightarrow> string" and xs
  proof -
    obtain e1 r1 where l: "list_items enc f rv e xs [] = (e1, r1)" by fastforce
    from list_items_phases [OF enc l] a l show ?thesis by auto
  qed
  have no_error: "marshal_route js r \<noteq> None" "marshal_upstream js u \<noteq> None" for r u
    using marshals_neq [OF assms(1)] by auto
  from assms(2) show ?thesis
    unfolding findAllKeys_def Let_def
    by (simp split: if_split_asm list.split_asm)
      (use hit no_error in blast)+
qed

lemma Range_phases:
  assumes "marshals js" "Range pl js ordr ordu (scCache s) (scRevision s) (scEtcd s) r = (e', res)"
  shows "e' = foldl (compose_meta (scRevision s)) (scEtcd s) (request_keys pl js ordr ordu s r)"
proof (cases "checkRangeRequestConformance (keyPrefix (scEtcd s)) r")
  case None
  let ?find = "if rqRangeEnd r = None then findExactKey pl js (scCache s) (scRevision s) (scEtcd s) (rqKey r)
    else findAllKeys pl js ordr ordu (scCache s) (scRevision s) (scEtcd s) (rqKey r)"
  obtain e1 res1 where f: "?find = (e1, res1)" by fastforce
  have "(\<exists>err. res1 = Inl err \<and> e1 = scEtcd s) \<or> (\<exists>resp. res1 = Inr resp
      \<and> e1 = foldl (compose_meta (scRevision s)) (scEtcd s) (map kvKey (rsKvs resp)))"
  proof (cases "rqRangeEnd r = None")
    case True
    with f findExactKey_phases [OF assms(1)] show ?thesis by fastforce
  next
    case False
    with f findAllKeys_phases [OF assms(1)] show ?thesis by simp
  qed
  then show ?thesis
    using assms(2) None f
    by (auto simp: Range_def request_keys_def emptyRangeResponse_def comp_def split: if_splits)
next
  case (Some err)
  with assms(2) show ?thesis
    by (auto simp: Range_def request_keys_def emptyRangeResponse_def split: if_splits)
qed

subsection \<open>The steps of the sidecar are runs of the finer ones\<close>

lemma set_etcd_simps [simp]:
  "scEtcd (set_etcd e t) = e" "scCache (set_etcd e t) = scCache t" "scRevision (set_etcd e t) = scRevision t"
  "scPending (set_etcd e t) = scPending t" "set_etcd (scEtcd t) t = t" "set_etcd e' (set_etcd e t) = set_etcd e' t"
  by (simp_all add: set_etcd_def)

lemma at_rest_simps [simp]:
  "ilSide (at_rest t) = t" "ilPush (at_rest t) = None" "ilReaders (at_rest t) = []"
  "at_rest t\<lparr>ilSide := u\<rparr> = at_rest u" "at_rest t\<lparr>ilReaders := []\<rparr> = at_rest t" "at_rest t\<lparr>ilPush := None\<rparr> = at_rest t"
  by (simp_all add: at_rest_def)

lemma no_push: "ilPush s = None \<Longrightarrow> s\<lparr>ilPush := None\<rparr> = s"
  by (cases s) simp

text \<open>A reader that is not disturbed does what \<open>composeKeyValue\<close> does, key after key.\<close>

lemma read_one:
  assumes "ilReaders s = xs @ [(Lookup, k # ks)]"
  shows "(fine_step pl js)\<^sup>*\<^sup>* s (s\<lparr>ilReaders := xs @ [(Lookup, ks)],
    ilSide := set_etcd (compose_meta (scRevision (ilSide s)) (ilEtcd s) k) (ilSide s)\<rparr>)"
proof (cases "map_of (metaCache (ilEtcd s)) k")
  case None
  let ?s1 = "s\<lparr>ilReaders := xs @ (Missed, k # ks) # []\<rparr>"
  let ?s2 = "?s1\<lparr>ilReaders := xs @ (Stamped (scRevision (ilSide s)), k # ks) # []\<rparr>"
  have "fine_step pl js s ?s1" using assms None by (intro fine_step.read_miss)
  moreover have "fine_step pl js ?s1 ?s2"
    using fine_step.read_stamp [of ?s1 xs k ks "[]"] by simp
  moreover have "fine_step pl js ?s2 (?s2\<lparr>ilReaders := xs @ [(Lookup, ks)],
      ilSide := set_etcd (compose_store (scRevision (ilSide s)) (ilEtcd s) k) (ilSide s)\<rparr>)"
    using fine_step.read_store [of ?s2 xs "scRevision (ilSide s)" k ks "[]"] by simp
  ultimately show ?thesis
    using None by (simp add: compose_meta_def)
next
  case (Some m)
  have "fine_step pl js s (s\<lparr>ilReaders := xs @ (Lookup, ks) # []\<rparr>)"
    using assms Some by (intro fine_step.read_hit)
  with Some show ?thesis by (auto simp: compose_meta_def)
qed

lemma read_all:
  "ilReaders s = xs @ [(Lookup, ks)] \<Longrightarrow> (fine_step pl js)\<^sup>*\<^sup>* s (s\<lparr>ilReaders := xs,
     ilSide := set_etcd (foldl (compose_meta (scRevision (ilSide s))) (ilEtcd s) ks) (ilSide s)\<rparr>)"
proof (induction ks arbitrary: s)
  case Nil
  then have "fine_step pl js s (s\<lparr>ilReaders := xs @ []\<rparr>)" by (intro fine_step.read_end)
  then show ?case by auto
next
  case (Cons k ks)
  let ?s1 = "s\<lparr>ilReaders := xs @ [(Lookup, ks)],
    ilSide := set_etcd (compose_meta (scRevision (ilSide s)) (ilEtcd s) k) (ilSide s)\<rparr>"
  have "(fine_step pl js)\<^sup>*\<^sup>* s ?s1" by (rule read_one [OF Cons.prems])
  moreover have "(fine_step pl js)\<^sup>*\<^sup>* ?s1 (s\<lparr>ilReaders := xs,
     ilSide := set_etcd (foldl (compose_meta (scRevision (ilSide s))) (ilEtcd s) (k # ks)) (ilSide s)\<rparr>)"
    using Cons.IH [of ?s1] by simp
  ultimately show ?case by (rule rtranclp_trans)
qed

lemma push_all:
  assumes "ilPush s = None" "scPending (ilSide s) = ev # evs" "pushEvent js ordw ordi (ilEtcd s) ev = (e, ps)"
  shows "(fine_step pl js)\<^sup>*\<^sup>* s (s\<lparr>ilSide := (set_etcd e (ilSide s))\<lparr>scPending := evs\<rparr>\<rparr>)"
proof (cases "push_read (ilEtcd s) ev")
  case None
  with assms(3) have "e = ilEtcd s" using pushEvent_phases [of js ordw ordi "ilEtcd s" ev] by simp
  with fine_step.push_skip [OF assms(1,2) None] show ?thesis by auto
next
  case (Some p)
  with assms(3) have e: "e = push_write js (ilEtcd s) ev p"
    using pushEvent_phases [of js ordw ordi "ilEtcd s" ev] by simp
  have "fine_step pl js s (s\<lparr>ilPush := Some p\<rparr>)" by (rule fine_step.push_begin [OF assms(1,2) Some])
  moreover have "fine_step pl js (s\<lparr>ilPush := Some p\<rparr>) (s\<lparr>ilSide := (set_etcd e (ilSide s))\<lparr>scPending := evs\<rparr>\<rparr>)"
    using fine_step.push_end [of "s\<lparr>ilPush := Some p\<rparr>" p ev evs] assms(1,2) by (simp add: e no_push)
  ultimately show ?thesis by auto
qed

lemma sidecar_step_fine:
  assumes js: "marshals js" and step: "sidecar_step pl js s s'"
  shows "(fine_step pl js)\<^sup>*\<^sup>* (at_rest s) (at_rest s')"
  using step
proof cases
  case (batch evs c rv evs')
  then show ?thesis using fine_step.batch [of "at_rest s" evs pl c rv evs'] by auto
next
  case (push ev evs ordw ordi e ps)
  then show ?thesis using push_all [of "at_rest s" ev evs js ordw ordi e ps] by (simp add: set_etcd_def)
next
  case (range ordr ordu r e res)
  let ?ks = "request_keys pl js ordr ordu s r"
  have "fine_step pl js (at_rest s) (at_rest s\<lparr>ilReaders := [(Lookup, ?ks)]\<rparr>)"
    using fine_step.read_begin [OF range(2,3), of pl js "at_rest s" r] by simp
  moreover have "(fine_step pl js)\<^sup>*\<^sup>* (at_rest s\<lparr>ilReaders := [(Lookup, ?ks)]\<rparr>) (at_rest s')"
    using read_all [of "at_rest s\<lparr>ilReaders := [(Lookup, ?ks)]\<rparr>" "[]" ?ks] Range_phases [OF js range(4)] range(1)
    by (simp add: set_etcd_def)
  ultimately show ?thesis by (rule converse_rtranclp_into_rtranclp)
next
  case (open_stream e i)
  then show ?thesis using fine_step.serve [of pl js "at_rest s" s'] step
    by (auto simp: addWatchStream_def Let_def)
next
  case (close_stream i)
  then show ?thesis using fine_step.serve [of pl js "at_rest s" s'] step
    by (auto simp: removeWatchStream_def)
next
  case (watch i ws ordr ordu rnd so req ws' out err)
  then show ?thesis using fine_step.serve [of pl js "at_rest s" s'] step by auto
qed

subsection \<open>The invariant of the interleaving\<close>

lemma key_effect_mono: "K \<subseteq> L \<Longrightarrow> foldl (key_effect prefix) K evs \<subseteq> foldl (key_effect prefix) L evs"
proof (induction evs arbitrary: K L)
  case (Cons ev evs)
  have "key_effect prefix K ev \<subseteq> key_effect prefix L ev"
    using Cons.prems by (auto simp: key_effect_def split: option.splits)
  then show ?case using Cons.IH by simp
qed simp

lemma sidecar_step_frame:
  assumes "sidecar_step pl js t t'" and ok: "proto_ok pl" "cache_ok (scCache t)" "watchers_ok (scEtcd t)"
  shows "watchers_ok (scEtcd t') \<and> keyPrefix (scEtcd t') = keyPrefix (scEtcd t)"
  using assms(1)
proof cases
  case (batch evs c rv evs')
  then show ?thesis using ok by simp
next
  case (push ev evs ordw ordi e ps)
  then show ?thesis using ok pushEvent_frame [OF push(5)] by (simp add: watchers_ok_def)
next
  case (range ordr ordu r e res)
  then show ?thesis
    using ok Range_touched [OF range(4) ok(1,2) range(2,3)] by (auto simp: touched_def watchers_ok_def)
next
  case (open_stream e i)
  then show ?thesis using addWatchStream_ok(1) [OF ok(3) open_stream(3)]
    by (auto simp: addWatchStream_def Let_def)
next
  case (close_stream i)
  then show ?thesis using removeWatchStream_ok [OF ok(3)] by (simp add: removeWatchStream_def)
next
  case (watch i ws ordr ordu rnd so req ws' out err)
  then show ?thesis using onWire_request_watchers [OF watch(5) ok(3) watch(2)] by simp
qed

lemma fine_batch_ok:
  assumes pl: "proto_ok pl" and ok: "base_ok prefix t"
    and b: "scPending t = []" "\<forall>ev \<in> set evs. wf_event ev" "unat (scRevision t) + length evs < 2 ^ 63"
      "reflectToCache pl (scCache t) (scRevision t) evs = (c, rv, evs')"
  shows "base_ok prefix (t\<lparr>scCache := c, scRevision := rv, scPending := evs'\<rparr>) \<and> unat (scRevision t) \<le> unat rv"
proof -
  note r = reflected_batch [OF b(2-4)]
  have "revisions_ok rv (scEtcd t)"
    using ok r(3) unfolding base_ok_def revisions_ok_def by fastforce
  moreover have "cache_keys prefix c \<subseteq> foldl (key_effect prefix) (meta_keys (scEtcd t)) evs'"
    using key_effect_mono [of "cache_keys prefix (scCache t)" "meta_keys (scEtcd t)" prefix evs] ok b(1,2)
    by (simp add: r(1,2) base_ok_def cache_after_keys [OF pl])
  ultimately show ?thesis
    using ok b(3) r(3,4) by (simp add: base_ok_def r(1) cache_after_ok)
qed

lemma fine_push_end_ok:
  assumes js: "marshals js" and ok: "fine_ok prefix s"
    and p: "ilPush s = Some p" "scPending (ilSide s) = ev # evs"
  shows "base_ok prefix ((set_etcd (push_write js (ilEtcd s) ev p) (ilSide s))\<lparr>scPending := evs\<rparr>)"
proof -
  obtain k m where km: "p = (k, m)" by fastforce
  from ok p have k: "object_key prefix (event_object ev) = Some k"
    and m: "unat (modRevision m) \<le> unat (scRevision (ilSide s))" "unat (createRevision m) \<le> unat (scRevision (ilSide s))"
    by (auto simp: fine_ok_def pushing_ok_def km)
  have "marshal_object js (event_object ev) \<noteq> None"
    using marshal_object_key [OF js, of "event_object ev" prefix] k by simp
  then obtain v where v: "marshal_object js (event_object ev) = Some v" by blast
  let ?e = "push_write js (ilEtcd s) ev p"
  have map: "map_of (metaCache ?e) = (map_of (metaCache (ilEtcd s)))
      (k := (if eType ev = EventDelete then None else Some m))"
    by (simp add: push_write_def km v map_of_delete map_of_update)
  have "meta_keys ?e = key_effect prefix (meta_keys (ilEtcd s)) ev"
    by (auto simp: meta_keys_def map key_effect_def k)
  moreover have "revisions_ok (scRevision (ilSide s)) ?e"
    using ok m unfolding fine_ok_def base_ok_def revisions_ok_def map by (auto split: if_splits)
  moreover have "gm_ok (metaCache ?e) \<and> watchers ?e = watchers (ilEtcd s) \<and> nextWatchId ?e = nextWatchId (ilEtcd s)
      \<and> keyPrefix ?e = keyPrefix (ilEtcd s)"
    using ok by (simp add: push_write_def km v fine_ok_def base_ok_def)
  ultimately show ?thesis
    using ok p(2) by (simp add: fine_ok_def base_ok_def watchers_ok_def)
qed

lemma fine_store_ok:
  assumes ok: "base_ok prefix t" and rv: "unat rv \<le> unat (scRevision t)"
  shows "base_ok prefix (set_etcd (compose_store rv (scEtcd t) k) t)"
proof -
  let ?e = "compose_store rv (scEtcd t) k"
  have map: "map_of (metaCache ?e) = (map_of (metaCache (scEtcd t))) (k \<mapsto> \<lparr>createRevision = rv, modRevision = rv\<rparr>)"
    by (simp add: compose_store_def map_of_update)
  have "meta_keys (scEtcd t) \<subseteq> meta_keys ?e" by (auto simp: meta_keys_def map)
  from key_effect_mono [OF this] have "cache_keys prefix (scCache t)
      \<subseteq> foldl (key_effect prefix) (meta_keys ?e) (scPending t)"
    using ok unfolding base_ok_def by blast
  moreover have "revisions_ok (scRevision t) ?e"
    using ok rv unfolding base_ok_def revisions_ok_def map by (auto split: if_splits)
  moreover have "gm_ok (metaCache ?e) \<and> watchers ?e = watchers (scEtcd t) \<and> nextWatchId ?e = nextWatchId (scEtcd t)
      \<and> keyPrefix ?e = keyPrefix (scEtcd t)"
    using ok by (simp add: compose_store_def base_ok_def)
  ultimately show ?thesis
    using ok by (simp add: base_ok_def watchers_ok_def)
qed

lemma readers_okI:
  assumes "readers_ok s" "ilReaders s' = xs @ r # ys" "set xs \<union> set ys \<subseteq> set (ilReaders s)"
    and "unat (scRevision (ilSide s)) \<le> unat (scRevision (ilSide s'))"
    and "\<And>rv ks. r = (Stamped rv, ks) \<Longrightarrow> unat rv \<le> unat (scRevision (ilSide s'))"
  shows "readers_ok s'"
  unfolding readers_ok_def
proof (intro allI impI)
  fix rv ks
  assume "(Stamped rv, ks) \<in> set (ilReaders s')"
  then consider "r = (Stamped rv, ks)" | "(Stamped rv, ks) \<in> set (ilReaders s)"
    using assms(2,3) by auto
  then show "unat rv \<le> unat (scRevision (ilSide s'))"
    using assms(1,4,5) by cases (auto simp: readers_ok_def intro: le_trans)
qed

lemma fine_step_ok:
  assumes pl: "proto_ok pl" and js: "marshals js"
    and step: "fine_step pl js s s'" and ok: "fine_ok prefix s"
  shows "fine_ok prefix s'"
proof -
  have base: "base_ok prefix (ilSide s)" and push: "pushing_ok prefix s" and reads: "readers_ok s"
    using ok by (simp_all add: fine_ok_def)
  show ?thesis
    using step
  proof cases
    case (batch evs c rv evs')
    from fine_batch_ok [OF pl base batch(3-6)] batch(1,2) reads show ?thesis
      by (auto simp: fine_ok_def pushing_ok_def readers_ok_def intro: le_trans)
  next
    case (push_skip ev evs)
    have "wf_event ev" "keyPrefix (ilEtcd s) = prefix" using base push_skip(3) by (simp_all add: base_ok_def)
    with push_skip(4) wf_event_key [of ev prefix] show ?thesis by (auto simp: push_read_def)
  next
    case (push_begin ev evs p)
    have "unat (eRevision ev) < unat (scRevision (ilSide s))" "keyPrefix (ilEtcd s) = prefix"
      "revisions_ok (scRevision (ilSide s)) (ilEtcd s)"
      using base push_begin(3) by (simp_all add: base_ok_def)
    with push_begin base reads show ?thesis
      by (auto simp: fine_ok_def pushing_ok_def readers_ok_def push_read_def next_meta_def revisions_ok_def
          split: option.splits)
  next
    case (push_end p ev evs)
    with fine_push_end_ok [OF js ok push_end(2,3)] reads show ?thesis
      by (simp add: fine_ok_def pushing_ok_def readers_ok_def)
  next
    case (read_begin ordr ordu r)
    then show ?thesis using base push reads by (auto simp: fine_ok_def pushing_ok_def readers_ok_def)
  next
    case (read_hit xs k ks ys m)
    then have "readers_ok s'" using reads by (intro readers_okI [of s s' xs "(Lookup, ks)" ys]) auto
    with read_hit base push show ?thesis by (simp add: fine_ok_def pushing_ok_def)
  next
    case (read_miss xs k ks ys)
    then have "readers_ok s'" using reads by (intro readers_okI [of s s' xs "(Missed, k # ks)" ys]) auto
    with read_miss base push show ?thesis by (simp add: fine_ok_def pushing_ok_def)
  next
    case (read_stamp xs k ks ys)
    then have "readers_ok s'"
      using reads by (intro readers_okI [of s s' xs "(Stamped (scRevision (ilSide s)), k # ks)" ys]) auto
    with read_stamp base push show ?thesis by (simp add: fine_ok_def pushing_ok_def)
  next
    case (read_store xs rv k ks ys)
    then have "unat rv \<le> unat (scRevision (ilSide s))" using reads by (auto simp: readers_ok_def)
    note store = fine_store_ok [OF base this, of k]
    have "readers_ok s'" using read_store reads by (intro readers_okI [of s s' xs "(Lookup, ks)" ys]) auto
    with read_store store push show ?thesis by (simp add: fine_ok_def pushing_ok_def)
  next
    case (read_end xs ys)
    then have "readers_ok s'" using reads by (auto simp: readers_ok_def)
    with read_end base push show ?thesis by (simp add: fine_ok_def pushing_ok_def)
  next
    case (serve t)
    have "watchers_ok (scEtcd t) \<and> keyPrefix (scEtcd t) = keyPrefix (ilEtcd s)"
      using sidecar_step_frame [OF serve(2) pl] base by (simp add: base_ok_def)
    with serve base push reads show ?thesis
      by (simp add: fine_ok_def base_ok_def pushing_ok_def readers_ok_def meta_keys_def revisions_ok_def)
  qed
qed

lemma fine_ok_new: "fine_ok prefix (at_rest (NewSidecar prefix))"
  using sidecar_ok_new [of prefix]
  by (simp add: fine_ok_def base_ok_def sidecar_ok_def pushing_ok_def readers_ok_def)

lemma fine_reachable_ok:
  assumes "proto_ok pl" "marshals js" "fine_reachable pl js prefix s"
  shows "fine_ok prefix s"
  using assms(3) unfolding fine_reachable_def
  by (induction rule: rtranclp_induct) (use fine_ok_new fine_step_ok [OF assms(1,2)] in blast)+

lemma fine_reachable_step:
  "fine_reachable pl js prefix s \<Longrightarrow> fine_step pl js s s' \<Longrightarrow> fine_reachable pl js prefix s'"
  unfolding fine_reachable_def by (rule rtranclp.rtrancl_into_rtrancl)

lemma fine_reachable_run:
  "fine_reachable pl js prefix s \<Longrightarrow> (fine_step pl js)\<^sup>*\<^sup>* s s' \<Longrightarrow> fine_reachable pl js prefix s'"
  unfolding fine_reachable_def by (rule rtranclp_trans)

lemma reachable_fine:
  assumes "marshals js" "reachable pl js prefix t"
  shows "fine_reachable pl js prefix (at_rest t)"
  using assms(2)
  by induction (auto simp: fine_reachable_def intro: rtranclp_trans [OF _ sidecar_step_fine [OF assms(1)]])

text \<open>A read of the key of a cached route has that key to compose.\<close>

lemma request_keys_exact:
  assumes "marshals js" "CHR ''/'' \<notin> set i" "has_key (cRoute (scCache s)) i"
  shows "request_keys pl js ordr ordu s (plain_range (route_key (keyPrefix (scEtcd s)) i) None) =
    [route_key (keyPrefix (scEtcd s)) i]"
proof -
  let ?k = "route_key (keyPrefix (scEtcd s)) i"
  obtain r where r: "route_Get pl (cRoute (scCache s)) i = Inr r"
    using assms(3) by (auto simp: route_Get_def has_key_def)
  obtain v where v: "marshal_route js r = Some v" using assms(1) by (auto simp: marshals_def)
  obtain e' kv where ck: "composeKeyValue (scRevision s) (scEtcd s) ?k v = (e', kv)" by fastforce
  have "checkRangeRequestConformance (keyPrefix (scEtcd s)) (plain_range ?k None) = None"
    by (simp add: check_range_accepts route_key_def)
  with findExactKey_route [OF assms(2), of pl js "scCache s" "scRevision s" "scEtcd s"] composeKeyValue_key [OF ck]
  show ?thesis by (simp add: request_keys_def Range_def r v ck)
qed

text \<open>The batch that deletes the route of \<open>reachable_example\<close>, reflected and pushed while a reader that has
  found the route waits.\<close>

definition delete_7 :: event where
  "delete_7 = mk_event EventDelete ONil (ORoute route_7)"

lemma delete_7_simps [simp]:
  "event_object delete_7 = ORoute route_7" "eType delete_7 = EventDelete" "wf_event delete_7" "rId route_7 = ''7''"
  by (simp_all add: delete_7_def event_object_def wf_event_def route_7_def)

lemma delete_7_race:
  assumes s: "ilPush s = None" "scPending (ilSide s) = []" "scRevision (ilSide s) = 1"
    and c: "cache_keys prefix (scCache (ilSide s)) = K" "keyPrefix (ilEtcd s) = prefix"
  shows "\<exists>t. (fine_step std_lib std_marshaller)\<^sup>*\<^sup>* s (s\<lparr>ilSide := t\<rparr>) \<and> scPending t = [] \<and> scRevision t = 2
    \<and> keyPrefix (scEtcd t) = prefix \<and> map_of (metaCache (scEtcd t)) (route_key prefix ''7'') = None
    \<and> cache_keys prefix (scCache t) = K - {route_key prefix ''7''}"
proof -
  let ?k = "route_key prefix ''7''"
  obtain c rv evs where b: "reflectToCache std_lib (scCache (ilSide s)) (scRevision (ilSide s)) [delete_7] = (c, rv, evs)"
    using prod_cases3 by blast
  then have rv: "rv = 2" and evs: "evs = [delete_7\<lparr>eRevision := 1\<rparr>]"
    and c': "c = cache_after std_lib (scCache (ilSide s)) [delete_7]"
    by (auto simp: reflectToCache_eq s(3))
  have keys: "cache_keys prefix c = K - {?k}"
    using cache_after_keys [OF proto_ok_std, of "[delete_7]"] by (simp add: c' c(1) key_effect_def)
  let ?s1 = "s\<lparr>ilSide := (ilSide s)\<lparr>scCache := c, scRevision := rv, scPending := evs\<rparr>\<rparr>"
  have s1: "fine_step std_lib std_marshaller s ?s1"
    using s by (intro fine_step.batch [OF s(1,2) _ _ b]) simp_all
  let ?ev = "delete_7\<lparr>eRevision := 1\<rparr>"
  obtain e ps where p: "pushEvent std_marshaller rev rev (ilEtcd ?s1) ?ev = (e, ps)" by fastforce
  have ev: "event_object ?ev = ORoute route_7" "eType ?ev = EventDelete"
    by (simp_all add: event_object_def delete_7_def mk_event_def)
  have "map_of (metaCache e) ?k = None"
    using pushEvent_meta [OF marshals_std p, of ?k] ev by (simp add: c(2))
  moreover have "keyPrefix e = prefix" using pushEvent_frame(1) [OF p] c(2) by simp
  moreover have "(fine_step std_lib std_marshaller)\<^sup>*\<^sup>* s
      (?s1\<lparr>ilSide := (set_etcd e (ilSide ?s1))\<lparr>scPending := []\<rparr>\<rparr>)"
    using s1 push_all [of ?s1 ?ev "[]" std_marshaller rev rev e ps std_lib] p s(1) evs
    by (simp add: converse_rtranclp_into_rtranclp)
  ultimately show ?thesis using rv keys
    by (intro exI [of _ "(set_etcd e (ilSide ?s1))\<lparr>scPending := []\<rparr>"]) simp
qed

section \<open>Properties\<close>

text \<open>C10: what the metadata keeps of its invariant when range requests and pushes interleave at every
  lock. Between batches every cached object has metadata, and no revision, stored or held by a push or
  a reader under way, is ahead of the sidecar's. (That only cached objects have metadata is lost, see
  \<open>stale_metadata\<close>.) The interleavings contain every run of the coarser steps of \<open>metadata_follows_cache\<close>.\<close>

theorem metadata_under_races:
  assumes "proto_ok pl" "marshals js"
  shows "(\<forall>s. fine_reachable pl js prefix s \<longrightarrow>
      (scPending (ilSide s) = [] \<longrightarrow> cache_keys prefix (scCache (ilSide s)) \<subseteq> meta_keys (ilEtcd s))
      \<and> revisions_ok (scRevision (ilSide s)) (ilEtcd s) \<and> pushing_ok prefix s \<and> readers_ok s
      \<and> cache_ok (scCache (ilSide s)) \<and> watchers_ok (ilEtcd s))
    \<and> (\<forall>t. reachable pl js prefix t \<longrightarrow> fine_reachable pl js prefix (at_rest t))"
  using fine_reachable_ok [OF assms] reachable_fine [OF assms(2)]
  by (fastforce simp: fine_ok_def base_ok_def)

lemma metadata_under_races_witness:
  "\<exists>s. fine_reachable std_lib std_marshaller ''/a'' s \<and> ''/a/routes/7'' \<in> meta_keys (ilEtcd s)"
proof -
  obtain t where t: "reachable std_lib std_marshaller ''/a'' t" "scPending t = []" "has_key (cRoute (scCache t)) ''7''"
    using reachable_example by blast
  let ?k = "route_key ''/a'' ''7''"
  have k: "?k \<in> cache_keys ''/a'' (scCache t)" by (rule cache_keys_mem(1) [OF t(3)])
  note races = metadata_under_races [OF proto_ok_std marshals_std, of "''/a''"]
  from conjunct2 [OF races] t(1) have r: "fine_reachable std_lib std_marshaller ''/a'' (at_rest t)" by blast
  with conjunct1 [OF races] have "scPending (ilSide (at_rest t)) = [] \<longrightarrow>
      cache_keys ''/a'' (scCache (ilSide (at_rest t))) \<subseteq> meta_keys (ilEtcd (at_rest t))" by blast
  with k t(2) have "?k \<in> meta_keys (ilEtcd (at_rest t))" by auto
  moreover have "?k = ''/a/routes/7''" by (simp add: route_key_def)
  ultimately show ?thesis using r by (simp only:) blast
qed


end
