(* ===== verification/Go_Utf8.thy ===== *)
theory Go_Utf8
  imports Go_Strings
begin

text \<open>
  What the code uses of Go's \<open>unicode/utf8\<close>, on strings of bytes: the number of runes, for the
  validation rules, and the sizes of runes, for the JSON encoder.
\<close>

section \<open>Definitions\<close>

text \<open>
  \<open>utf8.RuneCountInString\<close>: the width of the first rune, by the table of \<open>unicode/utf8\<close> (the
  first byte gives the width and the range of the second); a byte that starts no well-formed
  rune counts as one.
\<close>

definition continuation :: "nat \<Rightarrow> bool" where
  "continuation b \<longleftrightarrow> 128 \<le> b \<and> b \<le> 191"

definition rune_width :: "nat list \<Rightarrow> nat" where
  "rune_width bs =
     (case bs of
        b0 # b1 # rest \<Rightarrow>
          if 194 \<le> b0 \<and> b0 \<le> 223 \<and> continuation b1 then 2
          else if 224 \<le> b0 \<and> b0 \<le> 239 \<and> rest \<noteq> [] \<and> continuation (hd rest) \<and>
            (if b0 = 224 then 160 else 128) \<le> b1 \<and> b1 \<le> (if b0 = 237 then 159 else 191) then 3
          else if 240 \<le> b0 \<and> b0 \<le> 244 \<and> 2 \<le> length rest \<and> continuation (rest ! 0) \<and>
            continuation (rest ! 1) \<and>
            (if b0 = 240 then 144 else 128) \<le> b1 \<and> b1 \<le> (if b0 = 244 then 143 else 191) then 4
          else 1
      | _ \<Rightarrow> 1)"

lemma rune_width_pos: "0 < rune_width bs"
  by (auto simp: rune_width_def split: list.split)

function rune_count :: "nat list \<Rightarrow> nat" where
  "rune_count bs = (if bs = [] then 0 else Suc (rune_count (drop (rune_width bs) bs)))"
  by pat_completeness auto
termination
  by (relation "measure length") (auto simp: rune_width_pos)

declare rune_count.simps [simp del]

definition RuneCountInString :: "string \<Rightarrow> nat" where
  "RuneCountInString s = rune_count (map of_char s)"

definition bytes :: "string \<Rightarrow> nat list" where
  "bytes s = map of_char s"

definition byte :: "nat \<Rightarrow> char" where
  "byte n = char_of n"

text \<open>The bytes of a rune below \<open>0x10000\<close> (\<open>utf8.EncodeRune\<close>).\<close>

definition encode_rune :: "nat \<Rightarrow> string" where
  "encode_rune r =
     (if r < 128 then [byte r]
      else if r < 2048 then [byte (192 + r div 64), byte (128 + r mod 64)]
      else [byte (224 + r div 4096), byte (128 + r div 64 mod 64), byte (128 + r mod 64)])"

definition RuneError :: string where
  "RuneError = encode_rune 0xFFFD"

section \<open>Lemmas\<close>

lemma rune_count_ascii: "list_all (\<lambda>b. b < 128) bs \<Longrightarrow> rune_count bs = length bs"
proof (induction bs)
  case Nil
  then show ?case by (simp add: rune_count.simps)
next
  case (Cons b bs)
  then have "rune_width (b # bs) = 1" by (simp add: rune_width_def split: list.split)
  with Cons show ?case by (simp add: rune_count.simps [of "b # bs"])
qed

text \<open>The bytes of a rune of more than one byte are not ASCII.\<close>

lemma rune_width_shape:
  assumes "1 < rune_width bs"
  obtains (two) b0 b1 rest where "bs = b0 # b1 # rest" "rune_width bs = 2" "128 \<le> b0" "128 \<le> b1"
  | (three) b0 b1 b2 rest where "bs = b0 # b1 # b2 # rest" "rune_width bs = 3"
      "128 \<le> b0" "128 \<le> b1" "128 \<le> b2"
  | (four) b0 b1 b2 b3 rest where "bs = b0 # b1 # b2 # b3 # rest" "rune_width bs = 4"
      "128 \<le> b0" "128 \<le> b1" "128 \<le> b2" "128 \<le> b3"
proof -
  obtain b0 b1 rest where bs: "bs = b0 # b1 # rest"
    using assms by (auto simp: rune_width_def split: list.splits)
  let ?w = "rune_width (b0 # b1 # rest)"
  consider "?w = 2" "194 \<le> b0" "continuation b1"
    | "?w = 3" "224 \<le> b0" "128 \<le> b1" "rest \<noteq> []" "continuation (hd rest)"
    | "?w = 4" "240 \<le> b0" "128 \<le> b1" "2 \<le> length rest" "continuation (rest ! 0)" "continuation (rest ! 1)"
    using assms unfolding bs rune_width_def by (auto split: if_split_asm)
  then show thesis
  proof cases
    case 1
    then show thesis using two bs by (simp add: continuation_def)
  next
    case 2
    then show thesis using three bs by (cases rest) (auto simp: continuation_def)
  next
    case 3
    then obtain b2 b3 rest' where "rest = b2 # b3 # rest'"
      by (cases rest; cases "tl rest") auto
    with 3 show thesis using four bs by (simp add: continuation_def)
  qed
qed

lemma rune_width_bytes:
  assumes "1 < rune_width bs"
  shows "rune_width bs \<le> length bs" and "\<forall>b \<in> set (take (rune_width bs) bs). 128 \<le> b"
  using assms by (cases rule: rune_width_shape; simp add: numeral_eq_Suc)+

end
