(* ===== verification/Validators.thy ===== *)
theory Validators
  imports Xds_Cluster Xds_Route Go_Utf8
begin

text \<open>
  The \<open>Validate\<close> methods of the APISIX resources (\<open>pkg/types/apisix/*.pb.validate.go\<close>): the
  rules of the proto files, checked in the order of the code, the first broken rule being the
  error. (\<open>Plugins\<close> and \<open>Metadata\<close> are of the type \<open>Any\<close>, which has no \<open>Validate\<close> method: the code's
  tests for one fail.) The theory gives each method, what a resource must look like to pass it, and that no
  route and no upstream the xDS adaptor makes does.
\<close>

section \<open>Definitions\<close>

subsection \<open>Errors\<close>

text \<open>
  The ten error structs have one shape: the message's name (in the type), the field, the reason,
  the error of an embedded message. Their \<open>key\<close> is never set.
\<close>

datatype violation = Violation string string string "violation option"

fun violation_text :: "violation \<Rightarrow> string" where
  "violation_text (Violation msg field reason None) =
     ''invalid '' @ msg @ ''.'' @ field @ '': '' @ reason"
| "violation_text (Violation msg field reason (Some cause)) =
     ''invalid '' @ msg @ ''.'' @ field @ '': '' @ reason @ '' | caused by: '' @ violation_text cause"

text \<open>An \<open>if\<close> that returns an error, one on an embedded message, and their sequence.\<close>

definition require :: "string \<Rightarrow> bool \<Rightarrow> string \<Rightarrow> string \<Rightarrow> violation option" where
  "require msg ok field reason = (if ok then None else Some (Violation msg field reason None))"

definition embedded :: "string \<Rightarrow> string \<Rightarrow> violation option \<Rightarrow> violation option" where
  "embedded msg field err =
     (case err of
        None \<Rightarrow> None
      | Some e \<Rightarrow> Some (Violation msg field ''embedded message failed validation'' (Some e)))"

fun first_violation :: "violation option list \<Rightarrow> violation option" where
  "first_violation [] = None"
| "first_violation (v # vs) = (case v of Some e \<Rightarrow> Some e | None \<Rightarrow> first_violation vs)"

definition indexed :: "string \<Rightarrow> nat \<Rightarrow> string" where
  "indexed field idx = field @ ''['' @ fmt_d idx @ '']''"

text \<open>The loop over a repeated field of distinct items, \<open>rule\<close> being the check of one item.\<close>

fun unique_items :: "string \<Rightarrow> string \<Rightarrow> ('a \<Rightarrow> string option) \<Rightarrow> nat \<Rightarrow> 'a list \<Rightarrow> 'a list \<Rightarrow> violation option"
where
  "unique_items msg field rule idx seen [] = None"
| "unique_items msg field rule idx seen (item # items) =
     (if item \<in> set seen
      then Some (Violation msg (indexed field idx) ''repeated value must contain unique items'' None)
      else (case rule item of
              Some reason \<Rightarrow> Some (Violation msg (indexed field idx) reason None)
            | None \<Rightarrow> unique_items msg field rule (Suc idx) (item # seen) items))"

text \<open>The loop over a repeated field of messages.\<close>

fun each_valid :: "string \<Rightarrow> string \<Rightarrow> ('a \<Rightarrow> violation option) \<Rightarrow> nat \<Rightarrow> 'a list \<Rightarrow> violation option"
where
  "each_valid msg field validate idx [] = None"
| "each_valid msg field validate idx (item # items) =
     (case embedded msg (indexed field idx) (validate item) of
        Some e \<Rightarrow> Some e
      | None \<Rightarrow> each_valid msg field validate (Suc idx) items)"

subsection \<open>Strings\<close>

text \<open>The regular expression \<open>^\*?[0-9a-zA-Z-._]+$\<close> of the host names.\<close>

definition host_char :: "char \<Rightarrow> bool" where
  "host_char c \<longleftrightarrow>
     (let n = (of_char c :: nat)
      in (48 \<le> n \<and> n \<le> 57) \<or> (97 \<le> n \<and> n \<le> 122) \<or> (65 \<le> n \<and> n \<le> 90) \<or> c \<in> set ''-._'')"

definition host_pattern :: "string \<Rightarrow> bool" where
  "host_pattern s = (let t = TrimPrefix s ''*'' in t \<noteq> [] \<and> list_all host_char t)"

definition host_reason :: string where
  "host_reason =
     ''value does not match regex pattern \"^'' @ [CHR 0x5C, CHR 0x5C] @ ''*?[0-9a-zA-Z-._]+$\"''"

definition host_rule :: "string \<Rightarrow> string option" where
  "host_rule s = (if host_pattern s then None else Some host_reason)"



subsection \<open>The messages\<close>

definition Var_Validate :: "var \<Rightarrow> violation option" where
  "Var_Validate m =
     require ''Var'' (2 \<le> length (elems (vVars m)) \<and> length (elems (vVars m)) \<le> 4) ''Vars''
       ''value must contain between 2 and 4 items, inclusive''"

definition route_methods :: "string list" where
  "route_methods =
     [''GET'', ''POST'', ''PUT'', ''DELETE'', ''PATCH'', ''HEAD'', ''OPTIONS'', ''CONNECT'', ''TRACE'']"

definition method_rule :: "string \<Rightarrow> string option" where
  "method_rule item =
     (if item \<in> set route_methods then None
      else Some ''value must be in list [GET POST PUT DELETE PATCH HEAD OPTIONS CONNECT TRACE]'')"

definition name_length_ok :: "string \<Rightarrow> bool" where
  "name_length_ok s = (let l = RuneCountInString s in 1 \<le> l \<and> l \<le> 100)"

definition Route_Validate :: "route \<Rightarrow> violation option" where
  "Route_Validate m = first_violation
     [require ''Route'' (1 \<le> length (rUris m)) ''Uris'' ''value must contain at least 1 item(s)'',
      unique_items ''Route'' ''Uris'' (\<lambda>_. None) 0 [] (rUris m),
      require ''Route'' (name_length_ok (rName m)) ''Name''
        ''value length must be between 1 and 100 runes, inclusive'',
      require ''Route'' (RuneCountInString (rDesc m) \<le> 256) ''Desc''
        ''value length must be at most 256 runes'',
      unique_items ''Route'' ''Methods'' method_rule 0 [] (rMethods m),
      require ''Route'' (1 \<le> length (rHosts m)) ''Hosts'' ''value must contain at least 1 item(s)'',
      unique_items ''Route'' ''Hosts'' host_rule 0 [] (rHosts m),
      require ''Route'' (1 \<le> length (rRemoteAddrs m)) ''RemoteAddrs''
        ''value must contain at least 1 item(s)'',
      unique_items ''Route'' ''RemoteAddrs'' (\<lambda>_. None) 0 [] (rRemoteAddrs m),
      each_valid ''Route'' ''Vars'' Var_Validate 0 (rVars m)]"

definition Timeout_Validate :: "upstream_timeout \<Rightarrow> violation option" where
  "Timeout_Validate m = first_violation
     [require ''Upstream_Timeout'' (0 < tConnect m) ''Connect'' ''value must be greater than 0'',
      require ''Upstream_Timeout'' (0 < tSend m) ''Send'' ''value must be greater than 0'',
      require ''Upstream_Timeout'' (0 < tRead m) ''Read'' ''value must be greater than 0'']"

definition Node_Validate :: "node \<Rightarrow> violation option" where
  "Node_Validate m = first_violation
     [require ''Node'' (host_pattern (nHost m)) ''Host'' host_reason,
      require ''Node'' (1 \<le> sint (nPort m) \<and> sint (nPort m) \<le> 65535) ''Port''
        ''value must be inside range [1, 65535]'',
      require ''Node'' (0 \<le> sint (nWeight m)) ''Weight''
        ''value must be greater than or equal to 0'']"

text \<open>A repeated field of HTTP statuses, and a counter between 1 and 254.\<close>

definition status_rule :: "i32 \<Rightarrow> string option" where
  "status_rule item =
     (if 200 \<le> sint item \<and> sint item \<le> 599 then None
      else Some ''value must be inside range [200, 599]'')"

definition counter_check :: "string \<Rightarrow> string \<Rightarrow> i32 \<Rightarrow> violation option" where
  "counter_check msg field val =
     require msg (1 \<le> sint val \<and> sint val \<le> 254) field ''value must be inside range [1, 254]''"

definition ActiveHealthy_Validate :: "active_healthy \<Rightarrow> violation option" where
  "ActiveHealthy_Validate m = (let msg = ''ActiveHealthCheckHealthy'' in first_violation
     [require msg (1 \<le> sint (ahInterval m)) ''Interval'' ''value must be greater than or equal to 1'',
      require msg (1 \<le> length (ahHttpStatuses m)) ''HttpStatuses''
        ''value must contain at least 1 item(s)'',
      unique_items msg ''HttpStatuses'' status_rule 0 [] (ahHttpStatuses m),
      counter_check msg ''Successes'' (ahSuccesses m)])"

definition ActiveUnhealthy_Validate :: "active_unhealthy \<Rightarrow> violation option" where
  "ActiveUnhealthy_Validate m = (let msg = ''ActiveHealthCheckUnhealthy'' in first_violation
     [require msg (1 \<le> sint (auInterval m)) ''Interval'' ''value must be greater than or equal to 1'',
      require msg (1 \<le> length (auHttpStatuses m)) ''HttpStatuses''
        ''value must contain at least 1 item(s)'',
      unique_items msg ''HttpStatuses'' status_rule 0 [] (auHttpStatuses m),
      counter_check msg ''HttpFailures'' (auHttpFailures m),
      counter_check msg ''TcpFailures'' (auTcpFailures m),
      counter_check msg ''Timeouts'' (auTimeouts m)])"

definition PassiveHealthy_Validate :: "passive_healthy \<Rightarrow> violation option" where
  "PassiveHealthy_Validate m = (let msg = ''PassiveHealthCheckHealthy'' in first_violation
     [require msg (1 \<le> length (phHttpStatuses m)) ''HttpStatuses''
        ''value must contain at least 1 item(s)'',
      unique_items msg ''HttpStatuses'' status_rule 0 [] (phHttpStatuses m),
      counter_check msg ''Successes'' (phSuccesses m)])"

definition PassiveUnhealthy_Validate :: "passive_unhealthy \<Rightarrow> violation option" where
  "PassiveUnhealthy_Validate m = (let msg = ''PassiveHealthCheckUnhealthy'' in first_violation
     [require msg (1 \<le> length (puHttpStatuses m)) ''HttpStatuses''
        ''value must contain at least 1 item(s)'',
      unique_items msg ''HttpStatuses'' status_rule 0 [] (puHttpStatuses m),
      counter_check msg ''HttpFailures'' (puHttpFailures m),
      counter_check msg ''TcpFailures'' (puTcpFailures m),
      counter_check msg ''Timeouts'' (puTimeouts m)])"

text \<open>\<open>Validate\<close> on the pointer of an embedded message: nil passes.\<close>

definition validate_ptr :: "('a \<Rightarrow> violation option) \<Rightarrow> 'a option \<Rightarrow> violation option" where
  "validate_ptr validate p = (case p of None \<Rightarrow> None | Some m \<Rightarrow> validate m)"

definition check_types :: "string list" where
  "check_types = [''http'', ''https'', ''tcp'']"

definition ActiveCheck_Validate :: "active_check \<Rightarrow> violation option" where
  "ActiveCheck_Validate m = (let msg = ''ActiveHealthCheck'' in first_violation
     [require msg (acType m \<in> set check_types) ''Type'' ''value must be in list [http https tcp]'',
      require msg (0 \<le> acTimeout m) ''Timeout'' ''value must be greater than or equal to 0'',
      require msg (0 \<le> sint (acConcurrency m)) ''Concurrency''
        ''value must be greater than or equal to 0'',
      require msg (host_pattern (acHost m)) ''Host'' host_reason,
      require msg (1 \<le> sint (acPort m) \<and> sint (acPort m) \<le> 65535) ''Port''
        ''value must be inside range [1, 65535]'',
      embedded msg ''Healthy'' (validate_ptr ActiveHealthy_Validate (acHealthy m)),
      embedded msg ''Unhealthy'' (validate_ptr ActiveUnhealthy_Validate (acUnhealthy m)),
      require msg (1 \<le> length (acReqHeaders m)) ''ReqHeaders''
        ''value must contain at least 1 item(s)'',
      unique_items msg ''ReqHeaders'' (\<lambda>_. None) 0 [] (acReqHeaders m)])"

definition PassiveCheck_Validate :: "passive_check \<Rightarrow> violation option" where
  "PassiveCheck_Validate m = (let msg = ''PassiveHealthCheck'' in first_violation
     [require msg (pcType m \<in> set check_types) ''Type'' ''value must be in list [http https tcp]'',
      embedded msg ''Healthy'' (validate_ptr PassiveHealthy_Validate (pcHealthy m)),
      embedded msg ''Unhealthy'' (validate_ptr PassiveUnhealthy_Validate (pcUnhealthy m))])"

definition HealthCheck_Validate :: "health_check \<Rightarrow> violation option" where
  "HealthCheck_Validate m = (let msg = ''HealthCheck'' in first_violation
     [require msg (hcActive m \<noteq> None) ''Active'' ''value is required'',
      embedded msg ''Active'' (validate_ptr ActiveCheck_Validate (hcActive m)),
      embedded msg ''Passive'' (validate_ptr PassiveCheck_Validate (hcPassive m))])"

definition upstream_types :: "string list" where
  "upstream_types = [''chash'', ''roundrobin'', ''ewma'', ''lease_conn'']"

definition hash_ons :: "string list" where
  "hash_ons = [''vars'', ''header'', ''cookie'', ''consumer'', ''vars_combination'']"

definition upstream_schemes :: "string list" where
  "upstream_schemes = [''grpc'', ''grpcs'', ''http'', ''https'']"

definition pass_hosts :: "string list" where
  "pass_hosts = [''pass'', ''node'', ''rewrite'']"

definition Upstream_Validate :: "upstream \<Rightarrow> violation option" where
  "Upstream_Validate m = (let msg = ''Upstream'' in first_violation
     [require msg (0 \<le> sint (uRetries m)) ''Retries'' ''value must be greater than or equal to 0'',
      embedded msg ''Timeout'' (validate_ptr Timeout_Validate (uTimeout m)),
      require msg (uType m \<in> set upstream_types) ''Type''
        ''value must be in list [chash roundrobin ewma lease_conn]'',
      require msg (uHashOn m \<in> set hash_ons) ''HashOn''
        ''value must be in list [vars header cookie consumer vars_combination]'',
      embedded msg ''Check'' (validate_ptr HealthCheck_Validate (uCheck m)),
      require msg (uScheme m \<in> set upstream_schemes) ''Scheme''
        ''value must be in list [grpc grpcs http https]'',
      require msg (uPassHost m \<in> set pass_hosts) ''PassHost''
        ''value must be in list [pass node rewrite]'',
      require msg (host_pattern (uUpstreamHost m)) ''UpstreamHost'' host_reason,
      require msg (name_length_ok (uName m)) ''Name''
        ''value length must be between 1 and 100 runes, inclusive'',
      require msg (RuneCountInString (uDesc m) \<le> 256) ''Desc''
        ''value length must be at most 256 runes'',
      each_valid msg ''Nodes'' Node_Validate 0 (elems (uNodes m))])"


subsection \<open>Specification\<close>

definition valid_name :: "string \<Rightarrow> bool" where
  "valid_name s \<longleftrightarrow> RuneCountInString s \<in> {1..100}"

definition valid_desc :: "string \<Rightarrow> bool" where
  "valid_desc s \<longleftrightarrow> RuneCountInString s \<le> 256"

definition valid_route :: "route \<Rightarrow> bool" where
  "valid_route m \<longleftrightarrow>
     rUris m \<noteq> [] \<and> distinct (rUris m) \<and> valid_name (rName m) \<and> valid_desc (rDesc m) \<and>
     distinct (rMethods m) \<and> set (rMethods m) \<subseteq> set route_methods \<and>
     rHosts m \<noteq> [] \<and> distinct (rHosts m) \<and> list_all host_pattern (rHosts m) \<and>
     rRemoteAddrs m \<noteq> [] \<and> distinct (rRemoteAddrs m) \<and>
     list_all (\<lambda>v. length (elems (vVars v)) \<in> {2..4}) (rVars m)"

definition valid_node :: "node \<Rightarrow> bool" where
  "valid_node n \<longleftrightarrow>
     host_pattern (nHost n) \<and> sint (nPort n) \<in> {1..65535} \<and> 0 \<le> sint (nWeight n)"

definition valid_timeout :: "upstream_timeout \<Rightarrow> bool" where
  "valid_timeout t \<longleftrightarrow> 0 < tConnect t \<and> 0 < tSend t \<and> 0 < tRead t"

definition valid_statuses :: "i32 list \<Rightarrow> bool" where
  "valid_statuses xs \<longleftrightarrow> xs \<noteq> [] \<and> distinct xs \<and> list_all (\<lambda>x. sint x \<in> {200..599}) xs"

definition valid_counter :: "i32 \<Rightarrow> bool" where
  "valid_counter x \<longleftrightarrow> sint x \<in> {1..254}"

definition valid_active :: "active_check \<Rightarrow> bool" where
  "valid_active m \<longleftrightarrow>
     acType m \<in> set check_types \<and> 0 \<le> acTimeout m \<and> 0 \<le> sint (acConcurrency m) \<and>
     host_pattern (acHost m) \<and> sint (acPort m) \<in> {1..65535} \<and>
     pred_option (\<lambda>h. 1 \<le> sint (ahInterval h) \<and> valid_statuses (ahHttpStatuses h)
       \<and> valid_counter (ahSuccesses h)) (acHealthy m) \<and>
     pred_option (\<lambda>u. 1 \<le> sint (auInterval u) \<and> valid_statuses (auHttpStatuses u)
       \<and> valid_counter (auHttpFailures u) \<and> valid_counter (auTcpFailures u)
       \<and> valid_counter (auTimeouts u)) (acUnhealthy m) \<and>
     acReqHeaders m \<noteq> [] \<and> distinct (acReqHeaders m)"

definition valid_passive :: "passive_check \<Rightarrow> bool" where
  "valid_passive m \<longleftrightarrow>
     pcType m \<in> set check_types \<and>
     pred_option (\<lambda>h. valid_statuses (phHttpStatuses h) \<and> valid_counter (phSuccesses h)) (pcHealthy m) \<and>
     pred_option (\<lambda>u. valid_statuses (puHttpStatuses u) \<and> valid_counter (puHttpFailures u)
       \<and> valid_counter (puTcpFailures u) \<and> valid_counter (puTimeouts u)) (pcUnhealthy m)"

definition valid_check :: "health_check \<Rightarrow> bool" where
  "valid_check m \<longleftrightarrow>
     hcActive m \<noteq> None \<and> pred_option valid_active (hcActive m) \<and> pred_option valid_passive (hcPassive m)"

definition valid_upstream :: "upstream \<Rightarrow> bool" where
  "valid_upstream m \<longleftrightarrow>
     0 \<le> sint (uRetries m) \<and> pred_option valid_timeout (uTimeout m) \<and>
     uType m \<in> set upstream_types \<and> uHashOn m \<in> set hash_ons \<and>
     pred_option valid_check (uCheck m) \<and> uScheme m \<in> set upstream_schemes \<and>
     uPassHost m \<in> set pass_hosts \<and> host_pattern (uUpstreamHost m) \<and>
     valid_name (uName m) \<and> valid_desc (uDesc m) \<and> list_all valid_node (elems (uNodes m))"

section \<open>Lemmas\<close>

named_theorems valid_simps "when a check passes"

lemma require_None [valid_simps]: "require msg ok field reason = None \<longleftrightarrow> ok"
  by (simp add: require_def)

lemma embedded_None [valid_simps]: "embedded msg field err = None \<longleftrightarrow> err = None"
  by (simp add: embedded_def split: option.split)

lemma first_violation_None: "first_violation vs = None \<longleftrightarrow> list_all (\<lambda>v. v = None) vs"
  by (induction vs) (simp_all split: option.split)

lemma first_violation_Cons:
  "first_violation (None # vs) = first_violation vs"
  "first_violation (Some e # vs) = Some e"
  by simp_all

declare first_violation.simps (2) [simp del]

lemma unique_items_None_seen:
  "unique_items msg field rule idx seen xs = None \<longleftrightarrow>
     distinct xs \<and> set xs \<inter> set seen = {} \<and> list_all (\<lambda>x. rule x = None) xs"
  by (induction xs arbitrary: idx seen) (auto split: option.split)

lemma unique_items_None [valid_simps]:
  "unique_items msg field rule idx [] xs = None \<longleftrightarrow> distinct xs \<and> list_all (\<lambda>x. rule x = None) xs"
  by (simp add: unique_items_None_seen)

lemma each_valid_None [valid_simps]:
  "each_valid msg field validate idx xs = None \<longleftrightarrow> list_all (\<lambda>x. validate x = None) xs"
  by (induction xs arbitrary: idx) (simp_all add: embedded_def split: option.split)

lemma validate_ptr_None [valid_simps]:
  "validate_ptr validate p = None \<longleftrightarrow> pred_option (\<lambda>m. validate m = None) p"
  by (cases p) (simp_all add: validate_ptr_def)

lemma rules_None [valid_simps]:
  "host_rule s = None \<longleftrightarrow> host_pattern s"
  "method_rule s = None \<longleftrightarrow> s \<in> set route_methods"
  "status_rule x = None \<longleftrightarrow> sint x \<in> {200..599}"
  "counter_check msg field x = None \<longleftrightarrow> valid_counter x"
  "name_length_ok s \<longleftrightarrow> valid_name s"
  by (simp_all add: host_rule_def method_rule_def status_rule_def counter_check_def
      require_None valid_counter_def name_length_ok_def valid_name_def Let_def)

lemma leaf_messages_None [valid_simps]:
  "Var_Validate v = None \<longleftrightarrow> length (elems (vVars v)) \<in> {2..4}"
  "Timeout_Validate t = None \<longleftrightarrow> valid_timeout t"
  "Node_Validate n = None \<longleftrightarrow> valid_node n"
  by (simp_all add: Var_Validate_def Timeout_Validate_def Node_Validate_def first_violation_None
      valid_simps valid_timeout_def valid_node_def)

lemma healthiness_None [valid_simps]:
  "ActiveHealthy_Validate h = None \<longleftrightarrow>
     1 \<le> sint (ahInterval h) \<and> valid_statuses (ahHttpStatuses h) \<and> valid_counter (ahSuccesses h)"
  "ActiveUnhealthy_Validate u = None \<longleftrightarrow>
     1 \<le> sint (auInterval u) \<and> valid_statuses (auHttpStatuses u) \<and> valid_counter (auHttpFailures u)
       \<and> valid_counter (auTcpFailures u) \<and> valid_counter (auTimeouts u)"
  "PassiveHealthy_Validate ph = None \<longleftrightarrow>
     valid_statuses (phHttpStatuses ph) \<and> valid_counter (phSuccesses ph)"
  "PassiveUnhealthy_Validate pu = None \<longleftrightarrow>
     valid_statuses (puHttpStatuses pu) \<and> valid_counter (puHttpFailures pu)
       \<and> valid_counter (puTcpFailures pu) \<and> valid_counter (puTimeouts pu)"
  by (auto simp: ActiveHealthy_Validate_def ActiveUnhealthy_Validate_def PassiveHealthy_Validate_def
      PassiveUnhealthy_Validate_def first_violation_None valid_simps valid_statuses_def Let_def
      Suc_le_eq)

lemma checks_None [valid_simps]:
  "ActiveCheck_Validate a = None \<longleftrightarrow> valid_active a"
  "PassiveCheck_Validate p = None \<longleftrightarrow> valid_passive p"
  by (auto simp: ActiveCheck_Validate_def PassiveCheck_Validate_def first_violation_None valid_simps
      valid_active_def valid_passive_def Let_def Suc_le_eq list_all_iff)

lemma HealthCheck_None [valid_simps]: "HealthCheck_Validate c = None \<longleftrightarrow> valid_check c"
  by (simp add: HealthCheck_Validate_def first_violation_None valid_simps valid_check_def Let_def)

lemma host_pattern_iff:
  "host_pattern s \<longleftrightarrow> (\<exists>t. (s = t \<or> s = ''*'' @ t) \<and> t \<noteq> [] \<and> list_all host_char t)"
proof -
  have star: "\<not> host_char (CHR ''*'')" by (simp add: host_char_def Let_def)
  show ?thesis
  proof (cases "HasPrefix s ''*''")
    case True
    then obtain t where "s = ''*'' @ t" by (auto simp: HasPrefix_iff)
    then show ?thesis using star by (auto simp: host_pattern_def Let_def TrimPrefix_def HasPrefix_def)
  next
    case False
    then show ?thesis
      using HasPrefix_append [of "''*''"] by (auto simp: host_pattern_def Let_def TrimPrefix_def)
  qed
qed

lemma Route_Validate_None: "Route_Validate m = None \<longleftrightarrow> valid_route m"
  by (auto simp: Route_Validate_def first_violation_None valid_simps valid_route_def valid_desc_def
      Suc_le_eq list_all_iff)

lemma Upstream_Validate_None: "Upstream_Validate m = None \<longleftrightarrow> valid_upstream m"
  by (simp add: Upstream_Validate_def first_violation_None valid_simps valid_upstream_def
      valid_desc_def Let_def)

text \<open>The checks before the first broken one do not matter.\<close>

lemma first_violation_skip:
  "list_all (\<lambda>v. v = None) vs \<Longrightarrow> first_violation (vs @ ws) = first_violation ws"
  by (induction vs) (auto simp: first_violation_Cons)

lemma Route_Validate_RemoteAddrs:
  assumes "valid_route (m\<lparr>rRemoteAddrs := [a]\<rparr>)" "rRemoteAddrs m = []"
  shows "Route_Validate m =
    Some (Violation ''Route'' ''RemoteAddrs'' ''value must contain at least 1 item(s)'' None)"
proof -
  let ?pre = "[require ''Route'' (1 \<le> length (rUris m)) ''Uris'' ''value must contain at least 1 item(s)'',
      unique_items ''Route'' ''Uris'' (\<lambda>_. None) 0 [] (rUris m),
      require ''Route'' (name_length_ok (rName m)) ''Name''
        ''value length must be between 1 and 100 runes, inclusive'',
      require ''Route'' (RuneCountInString (rDesc m) \<le> 256) ''Desc''
        ''value length must be at most 256 runes'',
      unique_items ''Route'' ''Methods'' method_rule 0 [] (rMethods m),
      require ''Route'' (1 \<le> length (rHosts m)) ''Hosts'' ''value must contain at least 1 item(s)'',
      unique_items ''Route'' ''Hosts'' host_rule 0 [] (rHosts m)]"
  have "list_all (\<lambda>v. v = None) ?pre"
    using assms(1) by (auto simp: valid_simps valid_route_def valid_desc_def Suc_le_eq list_all_iff)
  from first_violation_skip [OF this] show ?thesis
    by (simp add: Route_Validate_def require_def first_violation_Cons assms(2))
qed

lemma translated_RemoteAddrs:
  assumes "TranslateRouteConfiguration ord rc opts = Ret routes" "m \<in> set routes"
  shows "rRemoteAddrs m = []"
proof -
  have base: "rRemoteAddrs x = []"
    if "translateRoute p vh h r = Ret xs" "x \<in> set xs" for p vh h r xs x
    using that by (cases "getHeadersMatchVars (the (erMatch r))")
      (auto simp: translateRoute_def go_simps Let_def zero_route_def
        split: option.splits if_splits prod.splits)
  from assms(1) obtain rs where
    rs: "go_collect (translateVirtualHost ord (rcName rc)) (rcVirtualHosts rc) = Ret rs"
    and routes: "routes = (case patch_target rc opts of
        None \<Rightarrow> rs | Some d \<Rightarrow> patchRoutesWithOriginalDestination rs d)"
    by (auto simp: TranslateRouteConfiguration_eq go_simps)
  have all: "rRemoteAddrs x = []" if "x \<in> set rs" for x
    using go_collect_Ret_ex [OF rs that] base
    by (auto simp: translateVirtualHost_def Let_def dest!: go_collect_Ret_ex)
  from assms(2) routes all show ?thesis
    by (auto simp: patchRoutesWithOriginalDestination_def split: option.splits)
qed

lemma TranslateCluster_base:
  "TranslateCluster c = Ret (Some u, e) \<Longrightarrow> \<exists>ns. u = base_upstream c\<lparr>uNodes := ns\<rparr>"
  by (cases "TranslateClusterLoadAssignment (clLoadAssignment c)")
    (auto simp: TranslateCluster_eq base_upstream_def zero_upstream_def split: if_splits)

lemma excess_bits_pos: "0 < n \<Longrightarrow> 0 < n div 2 ^ excess_bits n"
proof (induction n rule: excess_bits.induct)
  case (1 n)
  show ?case
  proof (cases "n < 2 ^ 53")
    case True
    with 1 show ?thesis by (simp add: excess_bits.simps [of n])
  next
    case False
    then have "0 < n div 2" by simp
    with 1 False have "0 < n div 2 div 2 ^ excess_bits (n div 2)" by blast
    with False show ?thesis by (simp add: excess_bits.simps [of n] div_mult2_eq)
  qed
qed

lemma float64_pos: "0 < float64_of_int64 s \<longleftrightarrow> 0 < sint s"
proof -
  have "0 < round53 n" if "0 < n" for n
    using excess_bits_pos [OF that] that by (simp add: round53_def Let_def)
  moreover have "round53 0 = 0" by (simp add: round53_small)
  ultimately show ?thesis
    by (cases "sint s" "0::int" rule: linorder_cases)
      (simp_all add: float64_of_int64_def)
qed

section \<open>Properties\<close>

text \<open>C38: a route passes \<open>Validate\<close> exactly when it has distinct URIs, hosts that match the host
  pattern and remote addresses, at least one of each, distinct known methods, a name of 1 to 100
  runes, a description of at most 256, and expressions of 2 to 4 parts.\<close>

theorem route_validation: "Route_Validate m = None \<longleftrightarrow> valid_route m"
  by (rule Route_Validate_None)

text \<open>An upstream passes \<open>Validate\<close> exactly when each of its fields, and each field of its
  timeout, its health checks and its nodes, lies in the set or range the proto rules give it.\<close>

theorem upstream_validation: "Upstream_Validate m = None \<longleftrightarrow> valid_upstream m"
  by (rule Upstream_Validate_None)

text \<open>No route the adaptor makes passes \<open>Validate\<close>: it never has a remote address, and a route
  that breaks no other rule is refused for just that.\<close>

theorem translated_routes_fail_validation:
  assumes "TranslateRouteConfiguration ord rc opts = Ret routes" "m \<in> set routes"
  shows "Route_Validate m \<noteq> None \<and>
    (valid_route (m\<lparr>rRemoteAddrs := [a]\<rparr>) \<longrightarrow> Route_Validate m =
      Some (Violation ''Route'' ''RemoteAddrs'' ''value must contain at least 1 item(s)'' None))"
  using translated_RemoteAddrs [OF assms] Route_Validate_RemoteAddrs [of a m]
  by (auto simp: Route_Validate_None valid_route_def)

lemma translated_routes_fail_validation_witness:
  "\<exists>m. TranslateRouteConfiguration (\<lambda>xs. xs) \<lparr>rcName = ''rc'', rcVirtualHosts = [\<lparr>vhName = ''v'', vhDomains = [''a.com''],
       vhRoutes = [\<lparr>erName = ''r'', erMatch = Some \<lparr>rmCaseSensitive = None, rmPath = PS_Path ''/x'',
         rmQueryParameters = [], rmHeaders = []\<rparr>, erAction = RA_Route (CS_Cluster ''c'')\<rparr>]\<rparr>]\<rparr> None = Ret [m]
     \<and> violation_text (the (Route_Validate m)) = ''invalid Route.RemoteAddrs: value must contain at least 1 item(s)''"
proof -
  let ?rc = "\<lparr>rcName = ''rc'', rcVirtualHosts = [\<lparr>vhName = ''v'', vhDomains = [''a.com''],
       vhRoutes = [\<lparr>erName = ''r'', erMatch = Some \<lparr>rmCaseSensitive = None, rmPath = PS_Path ''/x'',
         rmQueryParameters = [], rmHeaders = []\<rparr>, erAction = RA_Route (CS_Cluster ''c'')\<rparr>]\<rparr>]\<rparr>"
  let ?m = "zero_route\<lparr>rName := ''r#v#rc'', rPriority := 999, rStatus := Route_Enable,
       rId := GenID ''r#v#rc'', rHosts := [''a.com''], rUris := [''/x''], rUpstreamId := GenID ''c''\<rparr>"
  have name: "route_name ''r'' \<lparr>vhName = ''v'', vhDomains = [''a.com''], vhRoutes = vs\<rparr> ''rc'' = ''r#v#rc''" for vs
    by (simp add: route_name_def ReplaceAll.simps HasPrefix_def)
  have tr: "TranslateRouteConfiguration (\<lambda>xs. xs) ?rc None = Ret [?m]"
    by (simp add: TranslateRouteConfiguration_def translateVirtualHost_def translateRoute_def Let_def
        getClusterName_def getURL_def getParametersMatchVars_def getHeadersMatchVars_def name
        defaultRoutePriority_def zero_route_def OrderedStrings_def Strings_def strip_port_def Add_def)
  have "valid_route (?m\<lparr>rRemoteAddrs := [''10.0.0.1'']\<rparr>)"
    by (simp add: valid_route_def zero_route_def valid_name_def valid_desc_def RuneCountInString_def
        rune_count_ascii host_pattern_def Let_def TrimPrefix_def HasPrefix_def host_char_def)
  with translated_routes_fail_validation [OF tr, of ?m "''10.0.0.1''"] tr show ?thesis
    by simp
qed

text \<open>No upstream the adaptor makes passes \<open>Validate\<close>: its connect timeout is not positive, or
  its balancing type is the \<open>least_conn\<close> the rules do not know, or else it has no \<open>hash_on\<close>.\<close>

theorem translated_upstreams_fail_validation:
  assumes "TranslateCluster c = Ret (Some u, e)"
  shows "Upstream_Validate u = Some
    (if pred_option (\<lambda>d. 0 < sint (dSeconds d)) (clConnectTimeout c)
     then if clLbPolicy c = LEAST_REQUEST
          then Violation ''Upstream'' ''Type'' ''value must be in list [chash roundrobin ewma lease_conn]'' None
          else Violation ''Upstream'' ''HashOn''
            ''value must be in list [vars header cookie consumer vars_combination]'' None
     else Violation ''Upstream'' ''Timeout'' ''embedded message failed validation''
       (Some (Violation ''Upstream_Timeout'' ''Connect'' ''value must be greater than 0'' None)))"
proof -
  have pol: "clLbPolicy c = ROUND_ROBIN \<or> clLbPolicy c = LEAST_REQUEST"
    using assms by (cases "clLbPolicy c") (simp_all add: TranslateCluster_eq unsupported_def)
  from TranslateCluster_base [OF assms]
  have u: "uRetries u = 0" "uHashOn u = ''''" "uTimeout u = uTimeout (base_upstream c)"
    "uType u = uType (base_upstream c)"
    by (auto simp: base_upstream_def zero_upstream_def)
  show ?thesis
    using pol
    by (cases "clConnectTimeout c")
      (auto simp: Upstream_Validate_def u Let_def require_def embedded_def validate_ptr_def
        Timeout_Validate_def first_violation_Cons upstream_types_def hash_ons_def float64_pos)
qed

lemma translated_upstreams_fail_validation_witness:
  "\<exists>u. TranslateCluster \<lparr>clName = ''c'', clLbPolicy = LEAST_REQUEST,
       clConnectTimeout = Some \<lparr>dSeconds = 5, dNanos = 0\<rparr>, clDiscovery = DiscType STATIC,
       clLoadAssignment = None\<rparr> = Ret (Some u, None)
     \<and> violation_text (the (Upstream_Validate u)) =
       ''invalid Upstream.Type: value must be in list [chash roundrobin ewma lease_conn]''"
proof -
  let ?c = "\<lparr>clName = ''c'', clLbPolicy = LEAST_REQUEST,
       clConnectTimeout = Some \<lparr>dSeconds = 5, dNanos = 0\<rparr>, clDiscovery = DiscType STATIC,
       clLoadAssignment = None\<rparr>"
  have tr: "TranslateCluster ?c = Ret (Some (base_upstream ?c\<lparr>uNodes := None\<rparr>), None)"
    by (simp add: TranslateCluster_eq unsupported_def GetType_def)
  with translated_upstreams_fail_validation [OF tr] show ?thesis by simp
qed

end
