(* ===== verification/Validation_Errors.thy ===== *)
theory Validation_Errors
  imports Validators
begin

text \<open>
  The errors of the \<open>Validate\<close> methods: for every message the generated code
  (\<open>pkg/types/apisix/*.pb.validate.go\<close>) has a struct with five accessors and the method \<open>Error\<close>. An
  error value is given by what its methods return. \<open>Validators\<close> computes the fields of the structs
  (\<open>violation\<close>); here they become error values, and their texts are those of \<open>violation_text\<close>.
\<close>

section \<open>Definitions\<close>

datatype validation_error =
  ValidationError (Field: string) (Reason: string) (Cause: "validation_error option") (Key: bool)
    (ErrorName: string) (Error: string)

text \<open>The method \<open>Error\<close> of all types, the name of the message being part of the format.\<close>

definition error_text :: "string \<Rightarrow> string \<Rightarrow> string \<Rightarrow> validation_error option \<Rightarrow> bool \<Rightarrow> string" where
  "error_text msg field reason cause key =
     (let cause_text = (case cause of None \<Rightarrow> '''' | Some e \<Rightarrow> '' | caused by: '' @ Error e);
          key_text = (if key then ''key for '' else '''')
      in ''invalid '' @ key_text @ msg @ ''.'' @ field @ '': '' @ reason @ cause_text)"

type_synonym error_type = "string \<Rightarrow> string \<Rightarrow> validation_error option \<Rightarrow> bool \<Rightarrow> validation_error"

definition VarValidationError :: error_type where
  "VarValidationError field reason cause key =
     ValidationError field reason cause key ''VarValidationError''
       (error_text ''Var'' field reason cause key)"

definition RouteValidationError :: error_type where
  "RouteValidationError field reason cause key =
     ValidationError field reason cause key ''RouteValidationError''
       (error_text ''Route'' field reason cause key)"

definition UpstreamValidationError :: error_type where
  "UpstreamValidationError field reason cause key =
     ValidationError field reason cause key ''UpstreamValidationError''
       (error_text ''Upstream'' field reason cause key)"

definition HealthCheckValidationError :: error_type where
  "HealthCheckValidationError field reason cause key =
     ValidationError field reason cause key ''HealthCheckValidationError''
       (error_text ''HealthCheck'' field reason cause key)"

definition ActiveHealthCheckValidationError :: error_type where
  "ActiveHealthCheckValidationError field reason cause key =
     ValidationError field reason cause key ''ActiveHealthCheckValidationError''
       (error_text ''ActiveHealthCheck'' field reason cause key)"

definition PassiveHealthCheckValidationError :: error_type where
  "PassiveHealthCheckValidationError field reason cause key =
     ValidationError field reason cause key ''PassiveHealthCheckValidationError''
       (error_text ''PassiveHealthCheck'' field reason cause key)"

definition ActiveHealthCheckHealthyValidationError :: error_type where
  "ActiveHealthCheckHealthyValidationError field reason cause key =
     ValidationError field reason cause key ''ActiveHealthCheckHealthyValidationError''
       (error_text ''ActiveHealthCheckHealthy'' field reason cause key)"

definition ActiveHealthCheckUnhealthyValidationError :: error_type where
  "ActiveHealthCheckUnhealthyValidationError field reason cause key =
     ValidationError field reason cause key ''ActiveHealthCheckUnhealthyValidationError''
       (error_text ''ActiveHealthCheckUnhealthy'' field reason cause key)"

definition PassiveHealthCheckHealthyValidationError :: error_type where
  "PassiveHealthCheckHealthyValidationError field reason cause key =
     ValidationError field reason cause key ''PassiveHealthCheckHealthyValidationError''
       (error_text ''PassiveHealthCheckHealthy'' field reason cause key)"

definition PassiveHealthCheckUnhealthyValidationError :: error_type where
  "PassiveHealthCheckUnhealthyValidationError field reason cause key =
     ValidationError field reason cause key ''PassiveHealthCheckUnhealthyValidationError''
       (error_text ''PassiveHealthCheckUnhealthy'' field reason cause key)"

definition NodeValidationError :: error_type where
  "NodeValidationError field reason cause key =
     ValidationError field reason cause key ''NodeValidationError''
       (error_text ''Node'' field reason cause key)"

definition Upstream_TimeoutValidationError :: error_type where
  "Upstream_TimeoutValidationError field reason cause key =
     ValidationError field reason cause key ''Upstream_TimeoutValidationError''
       (error_text ''Upstream_Timeout'' field reason cause key)"

text \<open>The types by the messages they belong to, and the error a method returns for a violation.\<close>

definition error_types :: "(string \<times> error_type) list" where
  "error_types =
     [(''Var'', VarValidationError),
      (''Route'', RouteValidationError),
      (''Upstream'', UpstreamValidationError),
      (''HealthCheck'', HealthCheckValidationError),
      (''ActiveHealthCheck'', ActiveHealthCheckValidationError),
      (''PassiveHealthCheck'', PassiveHealthCheckValidationError),
      (''ActiveHealthCheckHealthy'', ActiveHealthCheckHealthyValidationError),
      (''ActiveHealthCheckUnhealthy'', ActiveHealthCheckUnhealthyValidationError),
      (''PassiveHealthCheckHealthy'', PassiveHealthCheckHealthyValidationError),
      (''PassiveHealthCheckUnhealthy'', PassiveHealthCheckUnhealthyValidationError),
      (''Node'', NodeValidationError),
      (''Upstream_Timeout'', Upstream_TimeoutValidationError)]"

fun violation_message :: "violation \<Rightarrow> string" where
  "violation_message (Violation msg field reason cause) = msg"

fun as_error :: "violation \<Rightarrow> validation_error option" where
  "as_error (Violation msg field reason None) =
     map_option (\<lambda>ty. ty field reason None False) (map_of error_types msg)"
| "as_error (Violation msg field reason (Some cause)) =
     (case map_of error_types msg of
        None \<Rightarrow> None
      | Some ty \<Rightarrow> map_option (\<lambda>e. ty field reason (Some e) False) (as_error cause))"

subsection \<open>Specification\<close>

text \<open>A violation all of whose messages have an error type.\<close>

fun typed :: "violation \<Rightarrow> bool" where
  "typed (Violation msg field reason None) \<longleftrightarrow> msg \<in> fst ` set error_types"
| "typed (Violation msg field reason (Some cause)) \<longleftrightarrow> msg \<in> fst ` set error_types \<and> typed cause"

text \<open>The outcome of a check of one message: no error, or one of that message.\<close>

definition reports :: "string \<Rightarrow> violation option \<Rightarrow> bool" where
  "reports msg err \<longleftrightarrow> (\<forall>v. err = Some v \<longrightarrow> typed v \<and> violation_message v = msg)"

section \<open>Lemmas\<close>

lemmas error_type_defs = VarValidationError_def
  RouteValidationError_def
  UpstreamValidationError_def
  HealthCheckValidationError_def
  ActiveHealthCheckValidationError_def
  PassiveHealthCheckValidationError_def
  ActiveHealthCheckHealthyValidationError_def
  ActiveHealthCheckUnhealthyValidationError_def
  PassiveHealthCheckHealthyValidationError_def
  PassiveHealthCheckUnhealthyValidationError_def
  NodeValidationError_def
  Upstream_TimeoutValidationError_def

text \<open>Every type is the same but for the name of its message.\<close>

lemma error_type_methods:
  assumes "map_of error_types msg = Some ty"
  shows "ty field reason cause key =
    ValidationError field reason cause key (msg @ ''ValidationError'') (error_text msg field reason cause key)"
  using assms by (auto simp: error_types_def error_type_defs split: if_splits)

lemma map_of_error_types: "msg \<in> fst ` set error_types \<Longrightarrow> \<exists>ty. map_of error_types msg = Some ty"
  by (metis map_of_eq_None_iff option.exhaust)

lemma as_error_typed:
  "typed v \<Longrightarrow> \<exists>e. as_error v = Some e \<and> Error e = violation_text v
     \<and> ErrorName e = violation_message v @ ''ValidationError'' \<and> \<not> Key e"
proof (induction v rule: typed.induct)
  case (1 msg field reason)
  then obtain ty where "map_of error_types msg = Some ty" using map_of_error_types by fastforce
  then show ?case by (simp add: error_type_methods error_text_def)
next
  case (2 msg field reason cause)
  then obtain ty where "map_of error_types msg = Some ty" using map_of_error_types by fastforce
  with 2 show ?case by (auto simp: error_type_methods error_text_def)
qed

lemma known [simp]:
  "''Var'' \<in> fst ` set error_types"
  "''Route'' \<in> fst ` set error_types"
  "''Upstream'' \<in> fst ` set error_types"
  "''HealthCheck'' \<in> fst ` set error_types"
  "''ActiveHealthCheck'' \<in> fst ` set error_types"
  "''PassiveHealthCheck'' \<in> fst ` set error_types"
  "''ActiveHealthCheckHealthy'' \<in> fst ` set error_types"
  "''ActiveHealthCheckUnhealthy'' \<in> fst ` set error_types"
  "''PassiveHealthCheckHealthy'' \<in> fst ` set error_types"
  "''PassiveHealthCheckUnhealthy'' \<in> fst ` set error_types"
  "''Node'' \<in> fst ` set error_types"
  "''Upstream_Timeout'' \<in> fst ` set error_types"
  by (simp_all add: error_types_def)

subsection \<open>The checks of a message\<close>

lemma reports_require: "msg \<in> fst ` set error_types \<Longrightarrow> reports msg (require msg ok field reason)"
  by (auto simp: reports_def require_def)

lemma reports_embedded:
  "msg \<in> fst ` set error_types \<Longrightarrow> reports msg' err \<Longrightarrow> reports msg (embedded msg field err)"
  by (auto simp: reports_def embedded_def split: option.splits)

lemma reports_unique:
  "msg \<in> fst ` set error_types \<Longrightarrow> reports msg (unique_items msg field rule idx seen items)"
  by (induction items arbitrary: idx seen) (auto simp: reports_def split: option.splits)

lemma reports_each:
  "msg \<in> fst ` set error_types \<Longrightarrow> (\<And>x. reports msg' (validate x)) \<Longrightarrow>
     reports msg (each_valid msg field validate idx items)"
proof (induction items arbitrary: idx)
  case (Cons x items)
  have "reports msg (embedded msg (indexed field idx) (validate x))"
    using Cons.prems by (intro reports_embedded)
  moreover have "reports msg (each_valid msg field validate (Suc idx) items)"
    using Cons by blast
  ultimately show ?case
    by (cases "embedded msg (indexed field idx) (validate x)") (simp_all add: reports_def)
qed (simp add: reports_def)

lemma reports_ptr: "(\<And>m. reports msg (validate m)) \<Longrightarrow> reports msg (validate_ptr validate p)"
  by (auto simp: validate_ptr_def reports_def split: option.splits)

lemma reports_embedded_ptr:
  "msg \<in> fst ` set error_types \<Longrightarrow> (\<And>m. reports msg' (validate m)) \<Longrightarrow>
     reports msg (embedded msg field (validate_ptr validate p))"
  by (intro reports_embedded reports_ptr)

lemma reports_first: "list_all (reports msg) vs \<Longrightarrow> reports msg (first_violation vs)"
proof (induction vs)
  case (Cons v vs)
  then show ?case by (cases v) (simp_all add: first_violation_Cons)
qed (simp add: reports_def)

lemmas leaf_reports = reports_require reports_unique

lemma leaf_messages_report:
  "reports ''Var'' (Var_Validate v)"
  "reports ''Upstream_Timeout'' (Timeout_Validate t)"
  "reports ''Node'' (Node_Validate n)"
  "reports ''ActiveHealthCheckHealthy'' (ActiveHealthy_Validate ah)"
  "reports ''ActiveHealthCheckUnhealthy'' (ActiveUnhealthy_Validate au)"
  "reports ''PassiveHealthCheckHealthy'' (PassiveHealthy_Validate ph)"
  "reports ''PassiveHealthCheckUnhealthy'' (PassiveUnhealthy_Validate pu)"
  unfolding Var_Validate_def Timeout_Validate_def Node_Validate_def ActiveHealthy_Validate_def
    ActiveUnhealthy_Validate_def PassiveHealthy_Validate_def PassiveUnhealthy_Validate_def
    counter_check_def Let_def
  by (intro reports_first reports_require known; simp only: list.pred_inject known leaf_reports simp_thms)+

lemma checks_report:
  "reports ''ActiveHealthCheck'' (ActiveCheck_Validate a)"
  "reports ''PassiveHealthCheck'' (PassiveCheck_Validate p)"
  unfolding ActiveCheck_Validate_def PassiveCheck_Validate_def Let_def
  by (intro reports_first; simp only: list.pred_inject known leaf_reports simp_thms
      reports_embedded_ptr [OF _ leaf_messages_report(4)] reports_embedded_ptr [OF _ leaf_messages_report(5)]
      reports_embedded_ptr [OF _ leaf_messages_report(6)] reports_embedded_ptr [OF _ leaf_messages_report(7)])+

lemma HealthCheck_reports: "reports ''HealthCheck'' (HealthCheck_Validate h)"
  unfolding HealthCheck_Validate_def Let_def
  by (intro reports_first, simp only: list.pred_inject known leaf_reports simp_thms
      reports_embedded_ptr [OF _ checks_report(1)] reports_embedded_ptr [OF _ checks_report(2)])

lemma Route_reports: "reports ''Route'' (Route_Validate r)"
  unfolding Route_Validate_def
  by (intro reports_first, simp only: list.pred_inject known leaf_reports simp_thms
      reports_each [OF _ leaf_messages_report(1)])

lemma Upstream_reports: "reports ''Upstream'' (Upstream_Validate u)"
  unfolding Upstream_Validate_def Let_def
  by (intro reports_first, simp only: list.pred_inject known leaf_reports simp_thms
      reports_embedded_ptr [OF _ leaf_messages_report(2)] reports_embedded_ptr [OF _ HealthCheck_reports]
      reports_each [OF _ leaf_messages_report(3)])

section \<open>Properties\<close>

text \<open>What the validation of a resource returns is an error of the resource's own type, with the text of
  the first broken rule and the chain of its causes.\<close>

theorem validation_error_report:
  "(\<forall>v. Route_Validate r = Some v \<longrightarrow> (\<exists>e. as_error v = Some e \<and> Error e = violation_text v
      \<and> ErrorName e = ''RouteValidationError'' \<and> \<not> Key e))
   \<and> (\<forall>v. Upstream_Validate u = Some v \<longrightarrow> (\<exists>e. as_error v = Some e \<and> Error e = violation_text v
      \<and> ErrorName e = ''UpstreamValidationError'' \<and> \<not> Key e))"
  using Route_reports [of r] Upstream_reports [of u] as_error_typed by (fastforce simp: reports_def)

end
