(* ===== verification/Go_Net.thy ===== *)
theory Go_Net
  imports Go_Strings
begin

text \<open>
  What the configuration uses of Go's \<open>net\<close> and \<open>strconv\<close> packages (of Go 1.16, the version the
  module asks for): \<open>net.SplitHostPort\<close>, \<open>net.ParseIP\<close> and \<open>strconv.Atoi\<close>. An address is the list of its
  sixteen bytes. The texts of errors are left out where the program does not use them.
\<close>

section \<open>Definitions\<close>

subsection \<open>Numbers\<close>

definition dec_char :: "char \<Rightarrow> bool" where
  "dec_char c \<longleftrightarrow> c \<in> set ''0123456789''"

text \<open>\<open>strconv.Atoi\<close>: an optional sign and digits, within the 64 bits of an \<open>int\<close>.\<close>

definition Atoi :: "string \<Rightarrow> int option" where
  "Atoi s =
     (let neg = (s \<noteq> [] \<and> hd s = CHR ''-'');
          ds = (if s \<noteq> [] \<and> (hd s = CHR ''-'' \<or> hd s = CHR ''+'') then tl s else s)
      in if ds = [] \<or> \<not> list_all dec_char ds then None
         else
           let n = int (undigits 10 ds)
           in if neg then (if n \<le> 2 ^ 63 then Some (- n) else None)
              else if n < 2 ^ 63 then Some n else None)"

text \<open>\<open>dtoi\<close> and \<open>xtoi\<close>: the number at the start of a string, the length of its text, and whether there
  is one below \<open>big\<close>.\<close>

definition big :: nat where "big = 16777215"

fun number_prefix :: "nat \<Rightarrow> (char \<Rightarrow> bool) \<Rightarrow> nat \<Rightarrow> nat \<Rightarrow> string \<Rightarrow> nat \<times> nat \<times> bool" where
  "number_prefix b digit n i [] = (n, i, True)"
| "number_prefix b digit n i (c # s) =
     (if digit c then
        let n' = n * b + digit_val c
        in if n' \<ge> big then (big, i, False) else number_prefix b digit n' (Suc i) s
      else (n, i, True))"

definition dtoi :: "string \<Rightarrow> nat \<times> nat \<times> bool" where
  "dtoi s =
     (case number_prefix 10 dec_char 0 0 s of
        (n, i, ok) \<Rightarrow> if \<not> ok then (n, i, False) else if i = 0 then (0, 0, False) else (n, i, True))"

definition xtoi :: "string \<Rightarrow> nat \<times> nat \<times> bool" where
  "xtoi s =
     (case number_prefix 16 (\<lambda>c. hex_digit (lower_char c)) 0 0 (map lower_char s) of
        (n, i, ok) \<Rightarrow> if \<not> ok then (n, i, False) else if i = 0 then (0, i, False) else (n, i, True))"

subsection \<open>Addresses\<close>

text \<open>The loop of \<open>parseIPv4\<close>: the bytes still to read, and whether the next is the first.\<close>

fun ipv4_bytes :: "nat \<Rightarrow> bool \<Rightarrow> string \<Rightarrow> (nat list \<times> string) option" where
  "ipv4_bytes 0 first s = Some ([], s)"
| "ipv4_bytes (Suc k) first s =
     (if s = [] then None
      else if \<not> first \<and> hd s \<noteq> CHR ''.'' then None
      else
        let s1 = (if first then s else tl s)
        in case dtoi s1 of
             (n, c, ok) \<Rightarrow>
               (if \<not> ok \<or> n > 255 then None
                else map_option (\<lambda>(bs, rest). (n # bs, rest)) (ipv4_bytes k False (drop c s1))))"

definition parseIPv4 :: "string \<Rightarrow> nat list option" where
  "parseIPv4 s =
     (case ipv4_bytes 4 True s of
        Some (bs, []) \<Rightarrow> Some bs
      | _ \<Rightarrow> None)"

text \<open>The loop of \<open>parseIPv6\<close>: the bytes read and the position of the ellipsis.\<close>

function ipv6_loop :: "string \<Rightarrow> nat list \<Rightarrow> nat option \<Rightarrow> (string \<times> nat list \<times> nat option) option" where
  "ipv6_loop s ip ellipsis =
     (if length ip \<ge> 16 then Some (s, ip, ellipsis)
      else
        case xtoi s of
          (n, c, ok) \<Rightarrow>
            (if \<not> ok \<or> n > 65535 then None
             else if c < length s \<and> s ! c = CHR ''.'' then
               (if ellipsis = None \<and> length ip \<noteq> 12 then None
                else if length ip + 4 > 16 then None
                else map_option (\<lambda>bs. ([], ip @ bs, ellipsis)) (parseIPv4 s))
             else
               let ip1 = ip @ [n div 256, n mod 256]; s1 = drop c s
               in if s1 = [] then Some ([], ip1, ellipsis)
                  else if hd s1 \<noteq> CHR '':'' \<or> length s1 = 1 then None
                  else
                    let s2 = tl s1
                    in if hd s2 = CHR '':'' then
                         (if ellipsis \<noteq> None then None
                          else if tl s2 = [] then Some ([], ip1, Some (length ip1))
                          else ipv6_loop (tl s2) ip1 (Some (length ip1)))
                       else ipv6_loop s2 ip1 ellipsis))"
  by pat_completeness auto
termination
  by (relation "measure (\<lambda>(s, ip, ellipsis). 16 - length ip)") auto

declare ipv6_loop.simps [simp del]

definition parseIPv6 :: "string \<Rightarrow> nat list option" where
  "parseIPv6 s =
     (let leading = HasPrefix s ''::'';
          s0 = (if leading then drop 2 s else s)
      in if leading \<and> s0 = [] then Some (replicate 16 0)
         else
           case ipv6_loop s0 [] (if leading then Some 0 else None) of
             None \<Rightarrow> None
           | Some (rest, ip, ellipsis) \<Rightarrow>
               (if rest \<noteq> [] then None
                else if length ip < 16 then
                  (case ellipsis of
                     None \<Rightarrow> None
                   | Some e \<Rightarrow> Some (take e ip @ replicate (16 - length ip) 0 @ drop e ip))
                else if ellipsis \<noteq> None then None
                else Some ip))"

fun ParseIP_at :: "string \<Rightarrow> string \<Rightarrow> nat list option" where
  "ParseIP_at s [] = None"
| "ParseIP_at s (c # cs) =
     (if c = CHR ''.'' then map_option (\<lambda>bs. replicate 10 0 @ [255, 255] @ bs) (parseIPv4 s)
      else if c = CHR '':'' then parseIPv6 s
      else ParseIP_at s cs)"

definition ParseIP :: "string \<Rightarrow> nat list option" where
  "ParseIP s = ParseIP_at s s"

subsection \<open>Host and port\<close>

datatype addr_error = MissingPort | TooManyColons | MissingBracket | UnexpectedBracket char

text \<open>\<open>strings.IndexByte\<close> and its counterpart from the end.\<close>

fun IndexByte :: "string \<Rightarrow> char \<Rightarrow> nat option" where
  "IndexByte [] c = None"
| "IndexByte (x # xs) c = (if x = c then Some 0 else map_option Suc (IndexByte xs c))"

fun LastIndexByte :: "string \<Rightarrow> char \<Rightarrow> nat option" where
  "LastIndexByte [] c = None"
| "LastIndexByte (x # xs) c =
     (case LastIndexByte xs c of
        Some i \<Rightarrow> Some (Suc i)
      | None \<Rightarrow> if x = c then Some 0 else None)"

definition host_and_port :: "string \<Rightarrow> nat \<Rightarrow> string \<Rightarrow> nat \<Rightarrow> nat \<Rightarrow> addr_error + (string \<times> string)" where
  "host_and_port hostport i host j k =
     (if IndexByte (drop j hostport) (CHR ''['') \<noteq> None then Inl (UnexpectedBracket (CHR ''[''))
      else if IndexByte (drop k hostport) (CHR '']'') \<noteq> None then Inl (UnexpectedBracket (CHR '']''))
      else Inr (host, drop (Suc i) hostport))"

definition SplitHostPort :: "string \<Rightarrow> addr_error + (string \<times> string)" where
  "SplitHostPort hostport =
     (case LastIndexByte hostport (CHR '':'') of
        None \<Rightarrow> Inl MissingPort
      | Some i \<Rightarrow>
          if hd hostport = CHR ''['' then
            (case IndexByte hostport (CHR '']'') of
               None \<Rightarrow> Inl MissingBracket
             | Some e \<Rightarrow>
                 if e + 1 = length hostport then Inl MissingPort
                 else if e + 1 = i then
                   host_and_port hostport i (drop 1 (take e hostport)) 1 (e + 1)
                 else if hostport ! (e + 1) = CHR '':'' then Inl TooManyColons
                 else Inl MissingPort)
          else
            (let host = take i hostport
             in if IndexByte host (CHR '':'') \<noteq> None then Inl TooManyColons
                else host_and_port hostport i host 0 0))"

text \<open>\<open>net.JoinHostPort\<close>, its inverse.\<close>

definition JoinHostPort :: "string \<Rightarrow> string \<Rightarrow> string" where
  "JoinHostPort host port =
     (if CHR '':'' \<in> set host then ''['' @ host @ '']:'' @ port else host @ '':'' @ port)"

section \<open>Lemmas\<close>

lemma IndexByte_None: "IndexByte s c = None \<longleftrightarrow> c \<notin> set s"
  by (induction s) auto

lemma IndexByte_Some: "IndexByte s c = Some i \<longleftrightarrow> (\<exists>a b. s = a @ c # b \<and> length a = i \<and> c \<notin> set a)"
proof (induction s arbitrary: i)
  case (Cons x xs)
  show ?case
  proof (cases "x = c")
    case True
    then show ?thesis by (auto simp: Cons_eq_append_conv)
  next
    case False
    have "IndexByte (x # xs) c = Some i \<longleftrightarrow> (\<exists>i'. i = Suc i' \<and> IndexByte xs c = Some i')"
      using False by auto
    also have "\<dots> \<longleftrightarrow> (\<exists>a b. x # xs = a @ c # b \<and> length a = i \<and> c \<notin> set a)"
      using False by (auto simp: Cons.IH Cons_eq_append_conv) force+
    finally show ?thesis .
  qed
qed simp

lemma LastIndexByte_None: "LastIndexByte s c = None \<longleftrightarrow> c \<notin> set s"
  by (induction s) (auto split: option.splits if_splits)

lemma LastIndexByte_append: "c \<notin> set b \<Longrightarrow> LastIndexByte (a @ c # b) c = Some (length a)"
  by (induction a) (auto simp: LastIndexByte_None split: option.splits)

lemma LastIndexByte_Some:
  assumes "LastIndexByte s c = Some i"
  obtains a b where "s = a @ c # b" "length a = i" "c \<notin> set b"
proof -
  have "c \<in> set s" using assms LastIndexByte_None [of s c] by auto
  then obtain a b where s: "s = a @ c # b" "c \<notin> set b" by (meson split_list_last)
  with assms have "length a = i" by (simp add: LastIndexByte_append)
  with s show thesis using that by blast
qed

subsection \<open>Host and port\<close>

lemma host_and_port_Inr:
  "host_and_port s i host j k = Inr (h, p) \<longleftrightarrow>
     CHR ''['' \<notin> set (drop j s) \<and> CHR '']'' \<notin> set (drop k s) \<and> h = host \<and> p = drop (Suc i) s"
  by (auto simp: host_and_port_def IndexByte_None)

definition plain_host :: "string \<Rightarrow> bool" where
  "plain_host h \<longleftrightarrow> CHR ''['' \<notin> set h \<and> CHR '']'' \<notin> set h"

text \<open>What \<open>SplitHostPort\<close> accepts: a host and a port without brackets, joined by a colon; the host is in
  brackets, or has no colon itself.\<close>

lemma SplitHostPort_iff:
  "SplitHostPort s = Inr (h, p) \<longleftrightarrow>
     plain_host h \<and> plain_host p \<and> CHR '':'' \<notin> set p
     \<and> (s = ''['' @ h @ '']:'' @ p \<or> (s = h @ '':'' @ p \<and> CHR '':'' \<notin> set h))"
proof
  assume l: "SplitHostPort s = Inr (h, p)"
  then obtain i where i: "LastIndexByte s (CHR '':'') = Some i"
    by (auto simp: SplitHostPort_def split: option.splits)
  obtain a b where s: "s = a @ CHR '':'' # b" "length a = i" "CHR '':'' \<notin> set b"
    by (rule LastIndexByte_Some [OF i])
  show "plain_host h \<and> plain_host p \<and> CHR '':'' \<notin> set p
     \<and> (s = ''['' @ h @ '']:'' @ p \<or> (s = h @ '':'' @ p \<and> CHR '':'' \<notin> set h))"
  proof (cases "hd s = CHR ''[''")
    case True
    with l i obtain e where e: "IndexByte s (CHR '']'') = Some e" "e + 1 = i"
      and hp: "host_and_port s i (drop 1 (take e s)) 1 (e + 1) = Inr (h, p)"
      by (auto simp: SplitHostPort_def split: option.splits if_splits)
    then obtain c d where c: "s = c @ CHR '']'' # d" "length c = e" "CHR '']'' \<notin> set c"
      by (auto simp: IndexByte_Some)
    have "a = c @ [CHR '']'']" using s c e(2) by (auto simp: append_eq_append_conv2 Cons_eq_append_conv)
    moreover obtain c' where "c = CHR ''['' # c'" using True c by (cases c) auto
    ultimately show ?thesis
      using hp s c e(2) by (auto simp: host_and_port_Inr plain_host_def)
  next
    case False
    with l i have "CHR '':'' \<notin> set (take i s)" "host_and_port s i (take i s) 0 0 = Inr (h, p)"
      by (auto simp: SplitHostPort_def IndexByte_None Let_def split: option.splits if_splits)
    with s show ?thesis by (auto simp: host_and_port_Inr plain_host_def)
  qed
next
  assume r: "plain_host h \<and> plain_host p \<and> CHR '':'' \<notin> set p
     \<and> (s = ''['' @ h @ '']:'' @ p \<or> (s = h @ '':'' @ p \<and> CHR '':'' \<notin> set h))"
  then consider "s = (''['' @ h @ '']'') @ CHR '':'' # p" | "s = h @ CHR '':'' # p" "CHR '':'' \<notin> set h"
    by auto
  then show "SplitHostPort s = Inr (h, p)"
  proof cases
    case 1
    have i: "LastIndexByte s (CHR '':'') = Some (length h + 2)"
      unfolding 1 using r by (subst LastIndexByte_append) auto
    have "IndexByte s (CHR '']'') = Some (length h + 1)"
      unfolding IndexByte_Some
      by (rule exI [of _ "CHR ''['' # h"], rule exI [of _ "CHR '':'' # p"]) (use 1 r in \<open>auto simp: plain_host_def\<close>)
    with i 1 r show ?thesis by (auto simp: SplitHostPort_def host_and_port_Inr plain_host_def)
  next
    case 2
    have "hd s \<noteq> CHR ''[''" using 2 r by (cases h) (auto simp: plain_host_def)
    moreover have "LastIndexByte s (CHR '':'') = Some (length h)"
      using 2(1) r by (simp add: LastIndexByte_append)
    ultimately show ?thesis
      using 2 r by (auto simp: SplitHostPort_def host_and_port_Inr plain_host_def IndexByte_None Let_def)
  qed
qed

lemma SplitHostPort_JoinHostPort:
  "plain_host h \<Longrightarrow> plain_host p \<Longrightarrow> CHR '':'' \<notin> set p \<Longrightarrow> SplitHostPort (JoinHostPort h p) = Inr (h, p)"
  unfolding SplitHostPort_iff JoinHostPort_def by auto

subsection \<open>Numbers\<close>

lemma dec_char_not [simp]:
  "\<not> dec_char (CHR ''.'')" "\<not> dec_char (CHR '':'')" "\<not> dec_char (CHR ''['')" "\<not> dec_char (CHR '']'')"
  "\<not> dec_char (CHR ''-'')" "\<not> dec_char (CHR ''+'')"
  by (simp_all add: dec_char_def)

lemma fmt_d_dec: "\<forall>c \<in> set (fmt_d n). dec_char c"
  unfolding fmt_d_def
proof (induction "10::nat" n rule: digits.induct)
  case (1 n)
  have "dec_char (digit_char d)" if "d < 10" for d
  proof -
    from that have "d \<in> {0, 1, 2, 3, 4, 5, 6, 7, 8, 9}" by auto
    then show ?thesis by (auto simp: digit_char_def dec_char_def)
  qed
  with 1 show ?case by (subst digits.simps) (auto simp: less_Suc_eq)
qed

lemma fmt_d_not_Nil [simp]: "fmt_d n \<noteq> []"
  unfolding fmt_d_def by (subst digits.simps) simp

lemma Atoi_fmt_d: "Atoi (fmt_d n) = (if n < 2 ^ 63 then Some (int n) else None)"
proof -
  obtain c s where "fmt_d n = c # s" "dec_char c"
    using fmt_d_dec [of n] by (cases "fmt_d n") auto
  then have "hd (fmt_d n) \<noteq> CHR ''-''" "hd (fmt_d n) \<noteq> CHR ''+''" by auto
  moreover have "int n < 2 ^ 63 \<longleftrightarrow> n < 2 ^ 63" by (metis of_nat_less_iff of_nat_numeral of_nat_power)
  ultimately show ?thesis using fmt_d_dec [of n] by (simp add: Atoi_def list_all_iff)
qed

lemma undigits_Cons_le: "foldl (\<lambda>a c. b * a + digit_val c) n s \<ge> n" if "1 \<le> b"
proof (induction s arbitrary: n)
  case (Cons c s)
  have "n \<le> b * n + digit_val c" using that by (cases b) auto
  also have "\<dots> \<le> foldl (\<lambda>a c. b * a + digit_val c) (b * n + digit_val c) s" by (rule Cons.IH)
  finally show ?case by simp
qed simp

lemma number_prefix_digits:
  assumes "1 \<le> b" "\<forall>c \<in> set ds. digit c" "rest = [] \<or> \<not> digit (hd rest)"
    and "foldl (\<lambda>a c. b * a + digit_val c) n ds < big"
  shows "number_prefix b digit n i (ds @ rest) = (foldl (\<lambda>a c. b * a + digit_val c) n ds, i + length ds, True)"
  using assms(2,4)
proof (induction ds arbitrary: n i)
  case Nil
  then show ?case using assms(3) by (cases rest) auto
next
  case (Cons c ds)
  have "b * n + digit_val c < big"
    using undigits_Cons_le [OF assms(1), of "b * n + digit_val c" ds] Cons.prems(2) by simp
  with Cons.IH [of "b * n + digit_val c" "Suc i"] Cons.prems show ?case by (simp add: mult.commute)
qed

lemma dtoi_digits:
  assumes "ds \<noteq> []" "\<forall>c \<in> set ds. dec_char c" "rest = [] \<or> \<not> dec_char (hd rest)" "undigits 10 ds < big"
  shows "dtoi (ds @ rest) = (undigits 10 ds, length ds, True)"
  using number_prefix_digits [of 10 ds dec_char rest 0 0] assms by (simp add: dtoi_def undigits_def)

lemma number_prefix_split:
  "number_prefix b digit n i s = (m, k, True) \<Longrightarrow>
     \<exists>ds rest. s = ds @ rest \<and> k = i + length ds \<and> (\<forall>c \<in> set ds. digit c)
       \<and> (rest = [] \<or> \<not> digit (hd rest)) \<and> m = foldl (\<lambda>a c. b * a + digit_val c) n ds"
proof (induction b digit n i s rule: number_prefix.induct)
  case (2 b digit n i c s)
  show ?case
  proof (cases "digit c")
    case True
    with 2 obtain ds rest where "s = ds @ rest" "k = Suc i + length ds" "\<forall>c \<in> set ds. digit c"
      "rest = [] \<or> \<not> digit (hd rest)" "m = foldl (\<lambda>a c. b * a + digit_val c) (n * b + digit_val c) ds"
      by (auto simp: Let_def split: if_splits)
    with True show ?thesis
      by (intro exI [of _ "c # ds"] exI [of _ rest]) (simp add: mult.commute)
  next
    case False
    with 2 show ?thesis by (intro exI [of _ "[]"] exI [of _ "c # s"]) simp
  qed
qed simp

lemma dtoi_split:
  assumes "dtoi s = (n, c, True)"
  obtains ds rest where "s = ds @ rest" "c = length ds" "ds \<noteq> []" "\<forall>c \<in> set ds. dec_char c"
    "rest = [] \<or> \<not> dec_char (hd rest)" "n = undigits 10 ds"
proof -
  have "number_prefix 10 dec_char 0 0 s = (n, c, True)" "c \<noteq> 0"
    using assms by (auto simp: dtoi_def split: prod.splits if_splits)
  with number_prefix_split [OF this(1)] that show thesis by (auto simp: undigits_def)
qed

subsection \<open>IPv4 addresses\<close>

lemmas ipv4_bytes_Suc = ipv4_bytes.simps(2)

declare ipv4_bytes.simps(2) [simp del]

text \<open>A decimal byte; Go 1.16 allows leading zeros.\<close>

definition dec_byte :: "string \<Rightarrow> bool" where
  "dec_byte ds \<longleftrightarrow> ds \<noteq> [] \<and> (\<forall>c \<in> set ds. dec_char c) \<and> undigits 10 ds \<le> 255"

lemma ipv4_bytes_digits:
  assumes "dec_byte ds" "rest = [] \<or> \<not> dec_char (hd rest)"
  shows "ipv4_bytes (Suc k) True (ds @ rest) =
      map_option (\<lambda>(bs, r). (undigits 10 ds # bs, r)) (ipv4_bytes k False rest)"
    and "ipv4_bytes (Suc k) False (CHR ''.'' # ds @ rest) =
      map_option (\<lambda>(bs, r). (undigits 10 ds # bs, r)) (ipv4_bytes k False rest)"
proof -
  have "dtoi (ds @ rest) = (undigits 10 ds, length ds, True)"
    using assms by (intro dtoi_digits) (auto simp: dec_byte_def big_def)
  with assms show "ipv4_bytes (Suc k) True (ds @ rest) =
      map_option (\<lambda>(bs, r). (undigits 10 ds # bs, r)) (ipv4_bytes k False rest)"
    "ipv4_bytes (Suc k) False (CHR ''.'' # ds @ rest) =
      map_option (\<lambda>(bs, r). (undigits 10 ds # bs, r)) (ipv4_bytes k False rest)"
    by (auto simp: dec_byte_def ipv4_bytes_Suc Let_def)
qed

lemma parseIPv4_bytes:
  assumes "dec_byte a" "dec_byte b" "dec_byte c" "dec_byte d"
  shows "parseIPv4 (a @ ''.'' @ b @ ''.'' @ c @ ''.'' @ d) = Some (map (undigits 10) [a, b, c, d])"
proof -
  note last = ipv4_bytes_digits(2) [OF assms(4), of "[]" 0, simplified]
  note third = ipv4_bytes_digits(2) [OF assms(3), of "CHR ''.'' # d" "Suc 0", simplified]
  note second = ipv4_bytes_digits(2) [OF assms(2), of "CHR ''.'' # c @ CHR ''.'' # d" "Suc (Suc 0)", simplified]
  note first = ipv4_bytes_digits(1) [OF assms(1), of "CHR ''.'' # b @ CHR ''.'' # c @ CHR ''.'' # d" "Suc (Suc (Suc 0))", simplified]
  have four: "(4::nat) = Suc (Suc (Suc (Suc 0)))" by simp
  have "ipv4_bytes 4 True (a @ CHR ''.'' # b @ CHR ''.'' # c @ CHR ''.'' # d) =
      Some (map (undigits 10) [a, b, c, d], [])"
    unfolding four first second third last by simp
  then show ?thesis by (simp add: parseIPv4_def)
qed

end
