(* ===== verification/Go_Json.thy ===== *)
theory Go_Json
  imports Go_Utf8 Go_Net
begin

text \<open>
  What \<open>json.Marshal\<close> of Go's \<open>encoding/json\<close> writes: the quoting of strings (with its HTML escapes and
  the replacement of bytes that are no UTF-8) and the compact text of a value. A number is its
  literal. The reader is the reference: it reads compact JSON, and what it reads back of a text written
  here is the value with its strings cleaned.
\<close>

section \<open>Definitions\<close>

datatype json =
    JNull | JBool bool | JNum string | JStr string | JArr "json list" | JObj "(string \<times> json) list"

subsection \<open>Writing\<close>

definition quote :: char where "quote = CHR 0x22"
definition backslash :: char where "backslash = CHR 0x5C"

text \<open>\<open>htmlSafeSet\<close>: printable ASCII and DEL, less quote, backslash and the characters of HTML.\<close>

definition html_safe :: "nat \<Rightarrow> bool" where
  "html_safe b \<longleftrightarrow> 32 \<le> b \<and> b < 128 \<and> b \<notin> {34, 92, 60, 62, 38}"

definition escape_ascii :: "nat \<Rightarrow> string" where
  "escape_ascii b =
     (if html_safe b then [byte b]
      else if b = 92 \<or> b = 34 then [backslash, byte b]
      else if b = 10 then [backslash, CHR ''n'']
      else if b = 13 then [backslash, CHR ''r'']
      else if b = 9 then [backslash, CHR ''t'']
      else backslash # ''u00'' @ [digit_char (b div 16), digit_char (b mod 16)])"

text \<open>A rune of the width \<open>w\<close>, the line and paragraph separators being escaped.\<close>

definition escape_rune :: "nat list \<Rightarrow> nat \<Rightarrow> string" where
  "escape_rune bs w =
     (if w = 1 then backslash # ''ufffd''
      else if take w bs = [226, 128, 168] then backslash # ''u2028''
      else if take w bs = [226, 128, 169] then backslash # ''u2029''
      else map byte (take w bs))"

function escape :: "nat list \<Rightarrow> string" where
  "escape [] = []"
| "escape (b # bs) =
     (if b < 128 then escape_ascii b @ escape bs
      else let w = rune_width (b # bs)
           in escape_rune (b # bs) w @ escape (drop w (b # bs)))"
  by pat_completeness auto
termination
  by (relation "measure length") (auto simp: rune_width_pos)

declare escape.simps(2) [simp del]

definition quoted :: "string \<Rightarrow> string" where
  "quoted s = quote # escape (bytes s) @ [quote]"

fun json_text :: "json \<Rightarrow> string" and elems_text :: "json list \<Rightarrow> string"
  and members_text :: "(string \<times> json) list \<Rightarrow> string" where
  "json_text JNull = ''null''"
| "json_text (JBool b) = (if b then ''true'' else ''false'')"
| "json_text (JNum lit) = lit"
| "json_text (JStr s) = quoted s"
| "json_text (JArr xs) = ''['' @ elems_text xs @ '']''"
| "json_text (JObj ms) = ''{'' @ members_text ms @ ''}''"
| "elems_text [] = ''''"
| "elems_text [x] = json_text x"
| "elems_text (x # y # ys) = json_text x @ '','' @ elems_text (y # ys)"
| "members_text [] = ''''"
| "members_text [(k, v)] = quoted k @ '':'' @ json_text v"
| "members_text ((k, v) # m # ms) = quoted k @ '':'' @ json_text v @ '','' @ members_text (m # ms)"

subsection \<open>Reading\<close>

definition hex_val :: "string \<Rightarrow> nat option" where
  "hex_val s = (if length s = 4 \<and> list_all hex_digit s then Some (undigits 16 s) else None)"

text \<open>The characters of a string after the opening quote, and the rest after the closing one. (Surrogates,
  which the encoder does not write, are not read.)\<close>

function read_chars :: "string \<Rightarrow> (string \<times> string) option" where
  "read_chars [] = None"
| "read_chars (c # s) =
     (if c = quote then Some ([], s)
      else if c = backslash then
        (case s of
           [] \<Rightarrow> None
         | e # r \<Rightarrow>
             if e = CHR ''u'' then
               (case hex_val (take 4 r) of
                  None \<Rightarrow> None
                | Some n \<Rightarrow>
                    if 0xD800 \<le> n \<and> n < 0xE000 then None
                    else map_option (apfst (append (encode_rune n))) (read_chars (drop 4 r)))
             else
               (case map_of [(quote, quote), (backslash, backslash), (CHR ''/'', CHR ''/''), (CHR ''n'', byte 10),
                             (CHR ''r'', byte 13), (CHR ''t'', byte 9), (CHR ''b'', byte 8), (CHR ''f'', byte 12)] e of
                  None \<Rightarrow> None
                | Some d \<Rightarrow> map_option (apfst (Cons d)) (read_chars r)))
      else if (of_char c :: nat) < 32 then None
      else map_option (apfst (Cons c)) (read_chars s))"
  by pat_completeness auto
termination
  by (relation "measure length") auto

declare read_chars.simps(2) [simp del]

definition num_char :: "char \<Rightarrow> bool" where
  "num_char c \<longleftrightarrow> c \<in> set ''0123456789+-.eE''"

fun read_value :: "nat \<Rightarrow> string \<Rightarrow> (json \<times> string) option"
  and read_elems :: "nat \<Rightarrow> string \<Rightarrow> (json list \<times> string) option"
  and read_members :: "nat \<Rightarrow> string \<Rightarrow> ((string \<times> json) list \<times> string) option" where
  "read_value 0 s = None"
| "read_value (Suc n) s =
     (if HasPrefix s ''null'' then Some (JNull, drop 4 s)
      else if HasPrefix s ''true'' then Some (JBool True, drop 4 s)
      else if HasPrefix s ''false'' then Some (JBool False, drop 5 s)
      else if HasPrefix s [quote] then map_option (apfst JStr) (read_chars (tl s))
      else if HasPrefix s ''[]'' then Some (JArr [], drop 2 s)
      else if HasPrefix s ''['' then map_option (apfst JArr) (read_elems n (tl s))
      else if HasPrefix s ''{}'' then Some (JObj [], drop 2 s)
      else if HasPrefix s ''{'' then map_option (apfst JObj) (read_members n (tl s))
      else if takeWhile num_char s = [] then None
      else Some (JNum (takeWhile num_char s), dropWhile num_char s))"
| "read_elems 0 s = None"
| "read_elems (Suc n) s =
     (case read_value n s of
        None \<Rightarrow> None
      | Some (x, r) \<Rightarrow>
          if HasPrefix r '','' then map_option (apfst (Cons x)) (read_elems n (tl r))
          else if HasPrefix r '']'' then Some ([x], tl r)
          else None)"
| "read_members 0 s = None"
| "read_members (Suc n) s =
     (if \<not> HasPrefix s [quote] then None
      else
        (case read_chars (tl s) of
           None \<Rightarrow> None
         | Some (k, t) \<Rightarrow>
             if \<not> HasPrefix t '':'' then None
             else
               (case read_value n (tl t) of
                  None \<Rightarrow> None
                | Some (v, r) \<Rightarrow>
                    if HasPrefix r '','' then map_option (apfst (Cons (k, v))) (read_members n (tl r))
                    else if HasPrefix r ''}'' then Some ([(k, v)], tl r)
                    else None)))"

definition read_json :: "string \<Rightarrow> json option" where
  "read_json s = (case read_value (length s) s of Some (j, []) \<Rightarrow> Some j | _ \<Rightarrow> None)"

definition read_int :: "string \<Rightarrow> int option" where
  "read_int s =
     (let neg = HasPrefix s ''-''; ds = (if neg then tl s else s)
      in if ds = [] \<or> \<not> list_all dec_char ds then None
         else Some (if neg then - int (undigits 10 ds) else int (undigits 10 ds)))"

subsection \<open>Specification\<close>

text \<open>What becomes of a string: every byte that is part of no rune is replaced by the error rune.\<close>

function clean_bytes :: "nat list \<Rightarrow> string" where
  "clean_bytes [] = []"
| "clean_bytes (b # bs) =
     (if b < 128 then byte b # clean_bytes bs
      else let w = rune_width (b # bs)
           in (if w = 1 then RuneError else map byte (take w (b # bs))) @ clean_bytes (drop w (b # bs)))"
  by pat_completeness auto
termination
  by (relation "measure length") (auto simp: rune_width_pos)

declare clean_bytes.simps(2) [simp del]

definition clean :: "string \<Rightarrow> string" where
  "clean s = clean_bytes (bytes s)"

definition valid_utf8 :: "string \<Rightarrow> bool" where
  "valid_utf8 s \<longleftrightarrow> clean s = s"

fun clean_json :: "json \<Rightarrow> json" where
  "clean_json (JStr s) = JStr (clean s)"
| "clean_json (JArr xs) = JArr (map clean_json xs)"
| "clean_json (JObj ms) = JObj (map (\<lambda>(k, v). (clean k, clean_json v)) ms)"
| "clean_json j = j"

text \<open>Every number is a literal.\<close>

fun literals_ok :: "json \<Rightarrow> bool" where
  "literals_ok (JNum lit) \<longleftrightarrow> lit \<noteq> [] \<and> list_all num_char lit"
| "literals_ok (JArr xs) \<longleftrightarrow> (\<forall>x \<in> set xs. literals_ok x)"
| "literals_ok (JObj ms) \<longleftrightarrow> (\<forall>m \<in> set ms. literals_ok (snd m))"
| "literals_ok j \<longleftrightarrow> True"

section \<open>Lemmas\<close>

subsection \<open>Strings\<close>

lemma char_simps [simp]:
  "of_char quote = (34::nat)" "of_char backslash = (92::nat)" "quote \<noteq> backslash" "backslash \<noteq> quote"
  "n < 256 \<Longrightarrow> of_char (byte n) = n"
  by (simp_all add: quote_def backslash_def byte_def)

lemma byte_inj: "m < 256 \<Longrightarrow> n < 256 \<Longrightarrow> byte m = byte n \<longleftrightarrow> m = n"
  by (metis char_simps(5))

lemma byte_of_char [simp]: "byte (of_char c) = c"
  by (simp add: byte_def)

lemma special_bytes: "byte 34 = quote" "byte 92 = backslash"
  by (metis byte_of_char char_simps(1), metis byte_of_char char_simps(2))

lemma byte_neq:
  "n < 256 \<Longrightarrow> byte n = quote \<longleftrightarrow> n = 34" "n < 256 \<Longrightarrow> byte n = backslash \<longleftrightarrow> n = 92"
  by (simp_all add: byte_inj flip: special_bytes)

lemma apfst_append_simps [simp]:
  "map_option (apfst (append [])) p = p"
  "map_option (apfst f) (map_option (apfst g) p) = map_option (apfst (f \<circ> g)) p"
  by (cases p; auto simp: option.map_comp comp_def apfst_def map_prod_def split: prod.splits)+

lemma read_plain:
  assumes "c \<noteq> quote" "c \<noteq> backslash" "32 \<le> (of_char c :: nat)"
  shows "read_chars (c # s) = map_option (apfst (Cons c)) (read_chars s)"
  using assms by (simp add: read_chars.simps(2))

lemma read_end: "read_chars (quote # s) = Some ([], s)"
  by (simp add: read_chars.simps(2))

lemma read_short:
  "read_chars (backslash # quote # s) = map_option (apfst (Cons quote)) (read_chars s)"
  "read_chars (backslash # backslash # s) = map_option (apfst (Cons backslash)) (read_chars s)"
  "read_chars (backslash # CHR ''n'' # s) = map_option (apfst (Cons (byte 10))) (read_chars s)"
  "read_chars (backslash # CHR ''r'' # s) = map_option (apfst (Cons (byte 13))) (read_chars s)"
  "read_chars (backslash # CHR ''t'' # s) = map_option (apfst (Cons (byte 9))) (read_chars s)"
  by (simp_all add: read_chars.simps(2) [of backslash]) (simp_all add: quote_def backslash_def)

lemma read_hex:
  assumes "hex_val [a, b, c, d] = Some n" "n < 0xD800 \<or> 0xE000 \<le> n"
  shows "read_chars (backslash # CHR ''u'' # a # b # c # d # s) =
    map_option (apfst (append (encode_rune n))) (read_chars s)"
  using assms by (auto simp: read_chars.simps(2))

lemma hex_digits_val: "hex_digit a \<Longrightarrow> hex_digit b \<Longrightarrow> hex_digit c \<Longrightarrow> hex_digit d \<Longrightarrow>
    hex_val [a, b, c, d] = Some (4096 * digit_val a + 256 * digit_val b + 16 * digit_val c + digit_val d)"
  by (simp add: hex_val_def undigits_def)

lemma read_control:
  assumes "b < 128"
  shows "read_chars (backslash # CHR ''u'' # CHR ''0'' # CHR ''0'' # digit_char (b div 16) # digit_char (b mod 16) # s) =
    map_option (apfst (Cons (byte b))) (read_chars s)"
proof -
  have z: "hex_digit (CHR ''0'')" "digit_val (CHR ''0'') = 0" by (simp_all add: hex_digit_def digit_val_def)
  have "b div 16 < 16" "b mod 16 < 16" using assms by auto
  then have "hex_val [CHR ''0'', CHR ''0'', digit_char (b div 16), digit_char (b mod 16)] = Some b"
    by (simp add: hex_digits_val hex_digit_char z)
  with assms show ?thesis by (simp add: read_hex encode_rune_def append.simps(2) [abs_def])
qed

lemma read_escape_ascii:
  assumes "b < 128"
  shows "read_chars (escape_ascii b @ s) = map_option (apfst (Cons (byte b))) (read_chars s)"
proof (cases "html_safe b")
  case True
  then have "byte b \<noteq> quote" "byte b \<noteq> backslash" "32 \<le> (of_char (byte b) :: nat)"
    by (auto simp: html_safe_def byte_neq)
  with True show ?thesis by (simp add: escape_ascii_def read_plain)
next
  case False
  consider "b = 92" | "b = 34" | "b = 10" | "b = 13" | "b = 9" | "b \<notin> {92, 34, 10, 13, 9}" by blast
  then show ?thesis
  proof cases
    case 6
    with False assms show ?thesis by (simp add: escape_ascii_def read_control)
  qed (use False in \<open>simp_all add: escape_ascii_def special_bytes read_short\<close>)
qed

lemma read_copied:
  "\<forall>b \<in> set bs. 128 \<le> b \<and> b < 256 \<Longrightarrow>
     read_chars (map byte bs @ s) = map_option (apfst (append (map byte bs))) (read_chars s)"
proof (induction bs)
  case (Cons b bs)
  then have "byte b \<noteq> quote" "byte b \<noteq> backslash" "32 \<le> (of_char (byte b) :: nat)" by (auto simp: byte_neq)
  with Cons show ?case by (simp add: read_plain comp_def)
qed simp

lemma read_escape_rune:
  assumes "\<forall>b \<in> set bs. b < 256"
  shows "read_chars (escape_rune bs (rune_width bs) @ s) =
    map_option (apfst (append (if rune_width bs = 1 then RuneError else map byte (take (rune_width bs) bs)))) (read_chars s)"
proof (cases "rune_width bs = 1")
  case True
  have "hex_val ''fffd'' = Some 0xFFFD"
    by (simp add: hex_digits_val hex_digit_def digit_val_def)
  with True show ?thesis by (simp add: escape_rune_def read_hex RuneError_def)
next
  case False
  then have w: "1 < rune_width bs" using rune_width_pos [of bs] by linarith
  have sep: "hex_val ''2028'' = Some 0x2028" "hex_val ''2029'' = Some 0x2029"
    by (simp_all add: hex_digits_val hex_digit_def digit_val_def)
  have enc: "encode_rune 0x2028 = map byte [226, 128, 168]" "encode_rune 0x2029 = map byte [226, 128, 169]"
    by (simp_all add: encode_rune_def)
  have "\<forall>b \<in> set (take (rune_width bs) bs). 128 \<le> b \<and> b < 256"
    using rune_width_bytes(2) [OF w] assms by (auto dest: in_set_takeD)
  from read_copied [OF this] False show ?thesis
    by (auto simp: escape_rune_def read_hex sep enc)
qed

lemma read_escape:
  "\<forall>b \<in> set bs. b < 256 \<Longrightarrow>
     read_chars (escape bs @ s) = map_option (apfst (append (clean_bytes bs))) (read_chars s)"
proof (induction bs rule: escape.induct)
  case (2 b bs)
  show ?case
  proof (cases "b < 128")
    case True
    with 2 show ?thesis
      by (simp add: escape.simps(2) clean_bytes.simps(2) read_escape_ascii comp_def)
  next
    case False
    let ?w = "rune_width (b # bs)"
    have "\<forall>b \<in> set (drop ?w (b # bs)). b < 256" using 2(3) by (meson in_set_dropD)
    with 2(2) [OF False refl] have "read_chars (escape (drop ?w (b # bs)) @ s) =
        map_option (apfst (append (clean_bytes (drop ?w (b # bs))))) (read_chars s)" by blast
    with False read_escape_rune [OF 2(3)] show ?thesis
      by (simp add: escape.simps(2) clean_bytes.simps(2) Let_def comp_def del: drop_Cons take_Cons)
  qed
qed simp

lemma bytes_bound: "\<forall>b \<in> set (bytes s). b < 256"
  by (auto simp: bytes_def)

lemma read_quoted: "read_chars (tl (quoted s @ r)) = Some (clean s, r)"
  by (simp add: quoted_def read_escape [OF bytes_bound] read_end clean_def)

lemma HasPrefix_quoted [simp]: "HasPrefix (quoted s @ r) [quote]"
  by (simp add: quoted_def HasPrefix_def)

text \<open>ASCII strings are valid.\<close>

lemma clean_bytes_ascii: "\<forall>b \<in> set bs. b < 128 \<Longrightarrow> clean_bytes bs = map byte bs"
  by (induction bs) (simp_all add: clean_bytes.simps(2))

lemma valid_ascii: "\<forall>c \<in> set s. (of_char c :: nat) < 128 \<Longrightarrow> valid_utf8 s"
  by (simp add: valid_utf8_def clean_def clean_bytes_ascii bytes_def map_idI)

text \<open>And where nothing has to be escaped a string is written as it is.\<close>

lemma escape_safe: "\<forall>c \<in> set s. html_safe (of_char c) \<Longrightarrow> escape (bytes s) = s"
  by (induction s) (simp_all add: bytes_def escape.simps(2) escape_ascii_def html_safe_def)

lemma quoted_safe: "\<forall>c \<in> set s. html_safe (of_char c) \<Longrightarrow> quoted s = quote # s @ [quote]"
  by (simp add: quoted_def escape_safe)

subsection \<open>Values\<close>

text \<open>The first character of a text tells what it is.\<close>

definition starts :: "json \<Rightarrow> char \<Rightarrow> bool" where
  "starts j c \<longleftrightarrow>
     (case j of
        JNull \<Rightarrow> c = CHR ''n'' | JBool b \<Rightarrow> c = (if b then CHR ''t'' else CHR ''f'') | JNum _ \<Rightarrow> num_char c
      | JStr _ \<Rightarrow> c = quote | JArr _ \<Rightarrow> c = CHR ''['' | JObj _ \<Rightarrow> c = CHR ''{'')"

lemma text_starts: "literals_ok j \<Longrightarrow> \<exists>c t. json_text j = c # t \<and> starts j c"
  by (cases j) (auto simp: starts_def quoted_def list_all_iff neq_Nil_conv)

lemma num_char_not:
  "num_char c \<Longrightarrow> c \<notin> set ''ntf[]{},:'' \<and> c \<noteq> quote"
  by (auto simp: num_char_def quote_def)

lemma starts_not_close: "starts j c \<Longrightarrow> c \<noteq> CHR '']'' \<and> c \<noteq> CHR ''}''"
  by (auto simp: starts_def quote_def dest!: num_char_not split: json.splits if_splits)

lemma takeWhile_literal:
  assumes "list_all num_char lit" "r = [] \<or> \<not> num_char (hd r)"
  shows "takeWhile num_char (lit @ r) = lit" "dropWhile num_char (lit @ r) = r"
  using assms by (cases r; simp add: list_all_iff takeWhile_append2 dropWhile_append2)+

lemma HasPrefix_Cons: "HasPrefix (c # s) (d # p) \<longleftrightarrow> c = d \<and> HasPrefix s p"
  by (simp add: HasPrefix_def)

lemma text_not_Nil: "literals_ok j \<Longrightarrow> json_text j \<noteq> []"
  using text_starts by fastforce

lemma elems_text_start:
  "xs \<noteq> [] \<Longrightarrow> \<forall>x \<in> set xs. literals_ok x \<Longrightarrow> \<not> HasPrefix (elems_text xs @ r) '']''"
proof (cases xs)
  case (Cons x ys)
  assume "\<forall>x \<in> set xs. literals_ok x"
  with Cons obtain c t where "json_text x = c # t" "starts x c" using text_starts by fastforce
  with Cons starts_not_close show ?thesis by (cases ys) (auto simp: HasPrefix_Cons)
qed simp

lemma members_text_start: "ms \<noteq> [] \<Longrightarrow> \<exists>t. members_text ms = quote # t"
  by (cases ms rule: members_text.cases) (auto simp: quoted_def)

abbreviation ends :: "string \<Rightarrow> bool" where
  "ends r \<equiv> r = [] \<or> \<not> num_char (hd r)"

lemma delimiters_end: "ends ('','' @ r)" "ends ('']'' @ r)" "ends (''}'' @ r)"
  by (simp_all add: num_char_def)

text \<open>Reading a text back, also when something follows it.\<close>

lemma read_number:
  assumes "lit \<noteq> []" "list_all num_char lit" "ends r"
  shows "read_value (Suc n) (lit @ r) = Some (JNum lit, r)"
proof -
  obtain c t where c: "lit = c # t" "num_char c" using assms(1,2) by (cases lit) auto
  with takeWhile_literal [OF assms(2,3)] num_char_not [OF c(2)] show ?thesis
    by (auto simp: HasPrefix_Cons)
qed

lemma read_string: "read_value (Suc n) (quoted s @ r) = Some (JStr (clean s), r)"
proof -
  have "quoted s @ r = quote # tl (quoted s @ r)" by (simp add: quoted_def)
  moreover have "quote \<noteq> CHR ''n''" "quote \<noteq> CHR ''t''" "quote \<noteq> CHR ''f''" by (simp_all add: quote_def)
  ultimately show ?thesis
    using read_quoted [of s r] by (metis (no_types) HasPrefix_Cons HasPrefix_Nil apfst_conv list.sel(3)
        option.simps(9) read_value.simps(2))
qed

lemma read_text:
  "literals_ok j \<Longrightarrow> length (json_text j) \<le> n \<Longrightarrow> ends r \<Longrightarrow>
     read_value n (json_text j @ r) = Some (clean_json j, r)"
  "\<forall>x \<in> set xs. literals_ok x \<Longrightarrow> xs \<noteq> [] \<Longrightarrow> length (elems_text xs) < n \<Longrightarrow>
     read_elems n (elems_text xs @ CHR '']'' # r) = Some (map clean_json xs, r)"
  "\<forall>m \<in> set ms. literals_ok (snd m) \<Longrightarrow> ms \<noteq> [] \<Longrightarrow> length (members_text ms) < n \<Longrightarrow>
     read_members n (members_text ms @ CHR ''}'' # r) = Some (map (\<lambda>(k, v). (clean k, clean_json v)) ms, r)"
proof (induction j and xs and ms arbitrary: n r and n r and n r rule: json_text_elems_text_members_text.induct)
  case 1
  then show ?case by (cases n) (simp_all add: HasPrefix_Cons)
next
  case (2 b)
  then show ?case by (cases n; cases b) (simp_all add: HasPrefix_Cons)
next
  case (3 lit)
  then show ?case by (cases n) (simp_all add: read_number del: read_value.simps(2))
next
  case (4 s)
  then obtain m where "n = Suc m" by (cases n) (auto simp: quoted_def)
  then show ?case by (simp add: read_string del: read_value.simps(2))
next
  case (5 xs)
  show ?case
  proof (cases "xs = []")
    case True
    with 5 show ?thesis by (cases n) (simp_all add: HasPrefix_Cons quote_def)
  next
    case False
    then obtain m where n: "n = Suc m" "length (elems_text xs) < m" using 5 by (cases n) auto
    have "read_elems m (elems_text xs @ CHR '']'' # r) = Some (map clean_json xs, r)"
      using 5 False n by simp
    with elems_text_start [OF False] 5(2) show ?thesis by (simp add: n HasPrefix_Cons quote_def)
  qed
next
  case (6 ms)
  show ?case
  proof (cases "ms = []")
    case True
    with 6 show ?thesis by (cases n) (simp_all add: HasPrefix_Cons quote_def)
  next
    case False
    then obtain m where n: "n = Suc m" "length (members_text ms) < m" using 6 by (cases n) auto
    have "read_members m (members_text ms @ CHR ''}'' # r) = Some (map (\<lambda>(k, v). (clean k, clean_json v)) ms, r)"
      using 6 False n by simp
    moreover obtain t where "members_text ms = quote # t" using members_text_start [OF False] by blast
    ultimately show ?thesis by (simp add: n HasPrefix_Cons quote_def)
  qed
next
  case 7
  then show ?case by simp
next
  case (8 x)
  then obtain m where "n = Suc m" "length (json_text x) \<le> m" by (cases n) auto
  with 8 delimiters_end(2) show ?case by (simp add: HasPrefix_Cons)
next
  case (9 x y ys)
  then obtain m where m: "n = Suc m" "length (json_text x) \<le> m" "length (elems_text (y # ys)) < m" by (cases n) auto
  with 9 delimiters_end(1) show ?case by (simp add: HasPrefix_Cons)
next
  case 10
  then show ?case by simp
next
  case (11 k v)
  then obtain m where m: "n = Suc m" "length (json_text v) \<le> m" by (cases n) auto
  with 11 delimiters_end(3) read_quoted [of k] show ?case by (simp add: HasPrefix_Cons)
next
  case (12 k v m ms)
  then obtain m' where m: "n = Suc m'" "length (json_text v) \<le> m'" "length (members_text (m # ms)) < m'" by (cases n) auto
  with 12 delimiters_end(1) read_quoted [of k] show ?case by (simp add: HasPrefix_Cons)
qed

text \<open>The literals of integers are read back.\<close>

lemma fmt_d_not_minus: "\<not> HasPrefix (fmt_d n) ''-''"
  using fmt_d_dec [of n] fmt_d_not_Nil [of n] by (cases "fmt_d n") (auto simp: HasPrefix_Cons dec_char_def)

lemma dec_num_char: "dec_char c \<Longrightarrow> num_char c"
  by (auto simp: dec_char_def num_char_def)

lemma int_literal [simp]: "list_all num_char (fmt_int n)" "fmt_int n \<noteq> []"
  using fmt_d_dec fmt_d_not_Nil dec_num_char by (auto simp: fmt_int_def list_all_iff num_char_def)

lemma read_fmt_int [simp]: "read_int (fmt_int n) = Some n"
proof (cases "n < 0")
  case True
  then show ?thesis
    using fmt_d_dec [of "nat (- n)"] fmt_d_not_Nil [of "nat (- n)"]
    by (simp add: fmt_int_def read_int_def HasPrefix_Cons Let_def list_all_iff)
next
  case False
  then show ?thesis
    using fmt_d_dec [of "nat n"] fmt_d_not_Nil [of "nat n"] fmt_d_not_minus [of "nat n"]
    by (simp add: fmt_int_def read_int_def Let_def list_all_iff)
qed

lemma read_json_text: "literals_ok j \<Longrightarrow> read_json (json_text j) = Some (clean_json j)"
  using read_text(1) [of j "length (json_text j)" "[]"] by (simp add: read_json_def)

section \<open>Properties\<close>

text \<open>What is written can be read: the text of a value, read as JSON, gives the value with its strings
  cleaned. In particular two values with the same text differ at most in bytes that are no UTF-8.\<close>

theorem json_round_trip:
  assumes "literals_ok j"
  shows "read_json (json_text j) = Some (clean_json j)"
  using assms by (rule read_json_text)

lemma json_round_trip_witness:
  "read_json ''{\"a\":[1,null,true],\"b\":\"x\"}'' =
     Some (JObj [(''a'', JArr [JNum ''1'', JNull, JBool True]), (''b'', JStr ''x'')])"
proof -
  let ?j = "JObj [(''a'', JArr [JNum ''1'', JNull, JBool True]), (''b'', JStr ''x'')]"
  have "valid_utf8 ''a''" "valid_utf8 ''b''" "valid_utf8 ''x''" by (simp_all add: valid_ascii)
  moreover have "json_text ?j = ''{\"a\":[1,null,true],\"b\":\"x\"}''"
    by (simp add: quoted_safe html_safe_def quote_def)
  ultimately show ?thesis
    using json_round_trip [of ?j] by (simp add: valid_utf8_def num_char_def)
qed

end
