(* ===== verification/Resource_Json.thy ===== *)
theory Resource_Json
  imports Go_Json Etcd_State "HOL-Library.Monad_Syntax"
begin

text \<open>
  The bytes the etcd server serves: \<open>json.Marshal\<close> of routes and upstreams, by the tags of the generated
  structs (\<open>pkg/types/apisix/*.pb.go\<close>) and the marshaller of \<open>Var\<close> (\<open>workaround.go\<close>). \<open>go_marshaller\<close> is the
  instance of \<open>marshaller\<close> the program runs with. A client's view of the bytes is a reader of the
  structs; it gets back what was written, strings cleaned.

  The struct of \<open>anypb.Any\<close> is not under \<open>src\<close>: its encoding is the argument \<open>any\<close>. A \<open>float64\<close> is written
  as an integer when it is one of at most \<open>2 ^ 53\<close>, which is all the adaptor makes; the text of others is the
  argument \<open>fmt\<close>.
\<close>

section \<open>Definitions\<close>

subsection \<open>Fields\<close>

text \<open>A field with the option \<open>omitempty\<close>.\<close>

definition omitempty :: "string \<Rightarrow> bool \<Rightarrow> json \<Rightarrow> (string \<times> json) list" where
  "omitempty k zero v = (if zero then [] else [(k, v)])"

definition str_field :: "string \<Rightarrow> string \<Rightarrow> (string \<times> json) list" where
  "str_field k s = omitempty k (s = []) (JStr s)"

definition int_json :: "i32 \<Rightarrow> json" where
  "int_json n = JNum (fmt_int (sint n))"

definition int_field :: "string \<Rightarrow> i32 \<Rightarrow> (string \<times> json) list" where
  "int_field k n = omitempty k (n = 0) (int_json n)"

definition list_field :: "string \<Rightarrow> ('a \<Rightarrow> json) \<Rightarrow> 'a list \<Rightarrow> (string \<times> json) list" where
  "list_field k enc xs = omitempty k (xs = []) (JArr (map enc xs))"

definition ptr_field :: "string \<Rightarrow> ('a \<Rightarrow> json) \<Rightarrow> 'a option \<Rightarrow> (string \<times> json) list" where
  "ptr_field k enc p = (case p of None \<Rightarrow> [] | Some m \<Rightarrow> [(k, enc m)])"

definition float_text :: "(float64 \<Rightarrow> string) \<Rightarrow> float64 \<Rightarrow> string" where
  "float_text fmt x =
     (if x = of_int \<lfloor>x\<rfloor> \<and> \<bar>x\<bar> \<le> 2 ^ 53 then fmt_int \<lfloor>x\<rfloor> else fmt x)"

definition float_field :: "(float64 \<Rightarrow> string) \<Rightarrow> string \<Rightarrow> float64 \<Rightarrow> (string \<times> json) list" where
  "float_field fmt k x = omitempty k (x = 0) (JNum (float_text fmt x))"

subsection \<open>Routes\<close>

text \<open>\<open>MarshalJSON\<close> of a pointer to \<open>Var\<close>.\<close>

definition Var_MarshalJSON :: "var \<Rightarrow> json" where
  "Var_MarshalJSON v = (case vVars v of None \<Rightarrow> JArr [] | Some xs \<Rightarrow> JArr (map JStr xs))"

definition status_json :: "RouteStatus \<Rightarrow> json" where
  "status_json st = JNum (fmt_int (if st = Route_Enable then 1 else 0))"

definition route_json :: "(any_msg \<Rightarrow> json) \<Rightarrow> route \<Rightarrow> json" where
  "route_json any r = JObj
     (list_field ''uris'' JStr (rUris r) @ str_field ''name'' (rName r) @ str_field ''id'' (rId r)
      @ str_field ''desc'' (rDesc r) @ int_field ''priority'' (rPriority r)
      @ list_field ''methods'' JStr (rMethods r) @ list_field ''hosts'' JStr (rHosts r)
      @ list_field ''remote_addrs'' JStr (rRemoteAddrs r) @ list_field ''vars'' Var_MarshalJSON (rVars r)
      @ ptr_field ''plugins'' any (rPlugins r) @ str_field ''service_id'' (rServiceId r)
      @ str_field ''upstream_id'' (rUpstreamId r)
      @ omitempty ''status'' (rStatus r = Route_Disable) (status_json (rStatus r)))"

subsection \<open>Upstreams\<close>

text \<open>A map is written in the order of its keys.\<close>

definition node_json :: "(any_msg \<Rightarrow> json) \<Rightarrow> node \<Rightarrow> json" where
  "node_json any n = JObj
     (str_field ''host'' (nHost n) @ int_field ''port'' (nPort n) @ int_field ''weight'' (nWeight n)
      @ omitempty ''metadata'' (nMetadata n = [])
          (JObj (map (\<lambda>(k, m). (k, any m)) (sort_key fst (nMetadata n)))))"

definition timeout_json :: "(float64 \<Rightarrow> string) \<Rightarrow> upstream_timeout \<Rightarrow> json" where
  "timeout_json fmt t = JObj
     (float_field fmt ''connect'' (tConnect t) @ float_field fmt ''send'' (tSend t)
      @ float_field fmt ''read'' (tRead t))"

definition active_healthy_json :: "active_healthy \<Rightarrow> json" where
  "active_healthy_json h = JObj
     (int_field ''interval'' (ahInterval h) @ list_field ''http_statuses'' int_json (ahHttpStatuses h)
      @ int_field ''successes'' (ahSuccesses h))"

definition active_unhealthy_json :: "active_unhealthy \<Rightarrow> json" where
  "active_unhealthy_json h = JObj
     (int_field ''interval'' (auInterval h) @ list_field ''http_statuses'' int_json (auHttpStatuses h)
      @ int_field ''http_failures'' (auHttpFailures h) @ int_field ''tcp_failures'' (auTcpFailures h)
      @ int_field ''timeouts'' (auTimeouts h))"

definition active_check_json :: "(float64 \<Rightarrow> string) \<Rightarrow> active_check \<Rightarrow> json" where
  "active_check_json fmt c = JObj
     (str_field ''type'' (acType c) @ float_field fmt ''timeout'' (acTimeout c)
      @ int_field ''concurrency'' (acConcurrency c) @ str_field ''host'' (acHost c)
      @ int_field ''port'' (acPort c) @ str_field ''http_path'' (acHttpPath c)
      @ omitempty ''https_verify_certificate'' (\<not> acHttpsVerifyCertificate c) (JBool (acHttpsVerifyCertificate c))
      @ ptr_field ''healthy'' active_healthy_json (acHealthy c)
      @ ptr_field ''unhealthy'' active_unhealthy_json (acUnhealthy c)
      @ list_field ''req_headers'' JStr (acReqHeaders c))"

definition passive_healthy_json :: "passive_healthy \<Rightarrow> json" where
  "passive_healthy_json h = JObj
     (list_field ''http_statuses'' int_json (phHttpStatuses h) @ int_field ''successes'' (phSuccesses h))"

definition passive_unhealthy_json :: "passive_unhealthy \<Rightarrow> json" where
  "passive_unhealthy_json h = JObj
     (list_field ''http_statuses'' int_json (puHttpStatuses h) @ int_field ''http_failures'' (puHttpFailures h)
      @ int_field ''tcp_failures'' (puTcpFailures h) @ int_field ''timeouts'' (puTimeouts h))"

definition passive_check_json :: "passive_check \<Rightarrow> json" where
  "passive_check_json c = JObj
     (str_field ''type'' (pcType c) @ ptr_field ''healthy'' passive_healthy_json (pcHealthy c)
      @ ptr_field ''unhealthy'' passive_unhealthy_json (pcUnhealthy c))"

definition health_check_json :: "(float64 \<Rightarrow> string) \<Rightarrow> health_check \<Rightarrow> json" where
  "health_check_json fmt c = JObj
     (ptr_field ''active'' (active_check_json fmt) (hcActive c)
      @ ptr_field ''passive'' passive_check_json (hcPassive c))"

text \<open>The field of the nodes is always there: \<open>null\<close> for a nil slice.\<close>

definition nodes_json :: "(any_msg \<Rightarrow> json) \<Rightarrow> node slice \<Rightarrow> json" where
  "nodes_json any ns = (case ns of None \<Rightarrow> JNull | Some xs \<Rightarrow> JArr (map (node_json any) xs))"

definition upstream_json :: "(float64 \<Rightarrow> string) \<Rightarrow> (any_msg \<Rightarrow> json) \<Rightarrow> upstream \<Rightarrow> json" where
  "upstream_json fmt any u = JObj
     (int_field ''retries'' (uRetries u) @ ptr_field ''timeout'' (timeout_json fmt) (uTimeout u)
      @ str_field ''type'' (uType u) @ str_field ''hash_on'' (uHashOn u) @ str_field ''key'' (uKey u)
      @ ptr_field ''check'' (health_check_json fmt) (uCheck u) @ str_field ''scheme'' (uScheme u)
      @ str_field ''pass_host'' (uPassHost u) @ str_field ''upstream_host'' (uUpstreamHost u)
      @ str_field ''name'' (uName u) @ str_field ''desc'' (uDesc u) @ str_field ''id'' (uId u)
      @ [(''nodes'', nodes_json any (uNodes u))])"

definition go_marshaller :: "(float64 \<Rightarrow> string) \<Rightarrow> (any_msg \<Rightarrow> json) \<Rightarrow> marshaller" where
  "go_marshaller fmt any =
     \<lparr>marshal_route = (\<lambda>r. Some (json_text (route_json any r))),
      marshal_upstream = (\<lambda>u. Some (json_text (upstream_json fmt any u)))\<rparr>"

subsection \<open>A client's view\<close>

definition field_at :: "'b \<Rightarrow> (json \<Rightarrow> 'b option) \<Rightarrow> (string \<times> json) list \<Rightarrow> string \<Rightarrow> 'b option" where
  "field_at zero dec ms k = (case map_of ms k of None \<Rightarrow> Some zero | Some j \<Rightarrow> dec j)"

definition as_str :: "json \<Rightarrow> string option" where
  "as_str j = (case j of JStr s \<Rightarrow> Some s | _ \<Rightarrow> None)"

definition as_bool :: "json \<Rightarrow> bool option" where
  "as_bool j = (case j of JBool b \<Rightarrow> Some b | _ \<Rightarrow> None)"

definition as_int :: "json \<Rightarrow> int option" where
  "as_int j = (case j of JNum lit \<Rightarrow> read_int lit | _ \<Rightarrow> None)"

definition as_i32 :: "json \<Rightarrow> i32 option" where
  "as_i32 j = map_option of_int (as_int j)"

definition as_float :: "json \<Rightarrow> float64 option" where
  "as_float j = map_option of_int (as_int j)"

definition as_list :: "(json \<Rightarrow> 'a option) \<Rightarrow> json \<Rightarrow> 'a list option" where
  "as_list dec j = (case j of JArr xs \<Rightarrow> those (map dec xs) | _ \<Rightarrow> None)"

definition as_obj :: "json \<Rightarrow> (string \<times> json) list option" where
  "as_obj j = (case j of JObj ms \<Rightarrow> Some ms | _ \<Rightarrow> None)"

definition as_status :: "json \<Rightarrow> RouteStatus option" where
  "as_status j = Option.bind (as_int j) (\<lambda>n.
     if n = 1 then Some Route_Enable else if n = 0 then Some Route_Disable else None)"

definition as_var :: "json \<Rightarrow> var option" where
  "as_var j = map_option (\<lambda>xs. \<lparr>vVars = Some xs\<rparr>) (as_list as_str j)"

text \<open>Plugins and metadata are not read: a text that has them is refused.\<close>

definition absent :: "(string \<times> json) list \<Rightarrow> string \<Rightarrow> unit option" where
  "absent ms k = (if map_of ms k = None then Some () else None)"

abbreviation "str_at \<equiv> field_at [] as_str"
abbreviation "i32_at \<equiv> field_at 0 as_i32"
abbreviation "float_at \<equiv> field_at 0 as_float"
abbreviation "list_at dec \<equiv> field_at [] (as_list dec)"
abbreviation "ptr_at dec \<equiv> field_at None (\<lambda>j. map_option Some (dec j))"

definition read_route :: "json \<Rightarrow> route option" where
  "read_route j = do {
     ms \<leftarrow> as_obj j;
     uris \<leftarrow> list_at as_str ms ''uris'';
     name \<leftarrow> str_at ms ''name'';
     i \<leftarrow> str_at ms ''id'';
     desc \<leftarrow> str_at ms ''desc'';
     priority \<leftarrow> i32_at ms ''priority'';
     methods \<leftarrow> list_at as_str ms ''methods'';
     hosts \<leftarrow> list_at as_str ms ''hosts'';
     addrs \<leftarrow> list_at as_str ms ''remote_addrs'';
     vars \<leftarrow> list_at as_var ms ''vars'';
     _ \<leftarrow> absent ms ''plugins'';
     service \<leftarrow> str_at ms ''service_id'';
     ups \<leftarrow> str_at ms ''upstream_id'';
     status \<leftarrow> field_at Route_Disable as_status ms ''status'';
     Some \<lparr>rUris = uris, rName = name, rId = i, rDesc = desc, rPriority = priority, rMethods = methods,
       rHosts = hosts, rRemoteAddrs = addrs, rVars = vars, rPlugins = None, rServiceId = service,
       rUpstreamId = ups, rStatus = status\<rparr>}"

definition read_node :: "json \<Rightarrow> node option" where
  "read_node j = do {
     ms \<leftarrow> as_obj j;
     host \<leftarrow> str_at ms ''host'';
     port \<leftarrow> i32_at ms ''port'';
     weight \<leftarrow> i32_at ms ''weight'';
     _ \<leftarrow> absent ms ''metadata'';
     Some \<lparr>nHost = host, nPort = port, nWeight = weight, nMetadata = []\<rparr>}"

definition read_timeout :: "json \<Rightarrow> upstream_timeout option" where
  "read_timeout j = do {
     ms \<leftarrow> as_obj j;
     connect \<leftarrow> float_at ms ''connect'';
     send \<leftarrow> float_at ms ''send'';
     rd \<leftarrow> float_at ms ''read'';
     Some \<lparr>tConnect = connect, tSend = send, tRead = rd\<rparr>}"

definition read_active_healthy :: "json \<Rightarrow> active_healthy option" where
  "read_active_healthy j = do {
     ms \<leftarrow> as_obj j;
     interval \<leftarrow> i32_at ms ''interval'';
     statuses \<leftarrow> list_at as_i32 ms ''http_statuses'';
     successes \<leftarrow> i32_at ms ''successes'';
     Some \<lparr>ahInterval = interval, ahHttpStatuses = statuses, ahSuccesses = successes\<rparr>}"

definition read_active_unhealthy :: "json \<Rightarrow> active_unhealthy option" where
  "read_active_unhealthy j = do {
     ms \<leftarrow> as_obj j;
     interval \<leftarrow> i32_at ms ''interval'';
     statuses \<leftarrow> list_at as_i32 ms ''http_statuses'';
     http \<leftarrow> i32_at ms ''http_failures'';
     tcp \<leftarrow> i32_at ms ''tcp_failures'';
     timeouts \<leftarrow> i32_at ms ''timeouts'';
     Some \<lparr>auInterval = interval, auHttpStatuses = statuses, auHttpFailures = http, auTcpFailures = tcp,
       auTimeouts = timeouts\<rparr>}"

definition read_active_check :: "json \<Rightarrow> active_check option" where
  "read_active_check j = do {
     ms \<leftarrow> as_obj j;
     ty \<leftarrow> str_at ms ''type'';
     timeout \<leftarrow> float_at ms ''timeout'';
     concurrency \<leftarrow> i32_at ms ''concurrency'';
     host \<leftarrow> str_at ms ''host'';
     port \<leftarrow> i32_at ms ''port'';
     path \<leftarrow> str_at ms ''http_path'';
     cert \<leftarrow> field_at False as_bool ms ''https_verify_certificate'';
     healthy \<leftarrow> ptr_at read_active_healthy ms ''healthy'';
     unhealthy \<leftarrow> ptr_at read_active_unhealthy ms ''unhealthy'';
     headers \<leftarrow> list_at as_str ms ''req_headers'';
     Some \<lparr>acType = ty, acTimeout = timeout, acConcurrency = concurrency, acHost = host, acPort = port,
       acHttpPath = path, acHttpsVerifyCertificate = cert, acHealthy = healthy, acUnhealthy = unhealthy,
       acReqHeaders = headers\<rparr>}"

definition read_passive_healthy :: "json \<Rightarrow> passive_healthy option" where
  "read_passive_healthy j = do {
     ms \<leftarrow> as_obj j;
     statuses \<leftarrow> list_at as_i32 ms ''http_statuses'';
     successes \<leftarrow> i32_at ms ''successes'';
     Some \<lparr>phHttpStatuses = statuses, phSuccesses = successes\<rparr>}"

definition read_passive_unhealthy :: "json \<Rightarrow> passive_unhealthy option" where
  "read_passive_unhealthy j = do {
     ms \<leftarrow> as_obj j;
     statuses \<leftarrow> list_at as_i32 ms ''http_statuses'';
     http \<leftarrow> i32_at ms ''http_failures'';
     tcp \<leftarrow> i32_at ms ''tcp_failures'';
     timeouts \<leftarrow> i32_at ms ''timeouts'';
     Some \<lparr>puHttpStatuses = statuses, puHttpFailures = http, puTcpFailures = tcp, puTimeouts = timeouts\<rparr>}"

definition read_passive_check :: "json \<Rightarrow> passive_check option" where
  "read_passive_check j = do {
     ms \<leftarrow> as_obj j;
     ty \<leftarrow> str_at ms ''type'';
     healthy \<leftarrow> ptr_at read_passive_healthy ms ''healthy'';
     unhealthy \<leftarrow> ptr_at read_passive_unhealthy ms ''unhealthy'';
     Some \<lparr>pcType = ty, pcHealthy = healthy, pcUnhealthy = unhealthy\<rparr>}"

definition read_health_check :: "json \<Rightarrow> health_check option" where
  "read_health_check j = do {
     ms \<leftarrow> as_obj j;
     active \<leftarrow> ptr_at read_active_check ms ''active'';
     passive \<leftarrow> ptr_at read_passive_check ms ''passive'';
     Some \<lparr>hcActive = active, hcPassive = passive\<rparr>}"

definition read_nodes :: "json \<Rightarrow> node slice option" where
  "read_nodes j = (if j = JNull then Some None else map_option Some (as_list read_node j))"

definition read_upstream :: "json \<Rightarrow> upstream option" where
  "read_upstream j = do {
     ms \<leftarrow> as_obj j;
     retries \<leftarrow> i32_at ms ''retries'';
     timeout \<leftarrow> ptr_at read_timeout ms ''timeout'';
     ty \<leftarrow> str_at ms ''type'';
     hash \<leftarrow> str_at ms ''hash_on'';
     key \<leftarrow> str_at ms ''key'';
     check \<leftarrow> ptr_at read_health_check ms ''check'';
     scheme \<leftarrow> str_at ms ''scheme'';
     pass \<leftarrow> str_at ms ''pass_host'';
     uhost \<leftarrow> str_at ms ''upstream_host'';
     name \<leftarrow> str_at ms ''name'';
     desc \<leftarrow> str_at ms ''desc'';
     i \<leftarrow> str_at ms ''id'';
     nodes \<leftarrow> field_at None read_nodes ms ''nodes'';
     Some \<lparr>uRetries = retries, uTimeout = timeout, uType = ty, uHashOn = hash, uKey = key, uCheck = check,
       uScheme = scheme, uPassHost = pass, uUpstreamHost = uhost, uName = name, uDesc = desc, uId = i,
       uNodes = nodes\<rparr>}"

subsection \<open>Specification\<close>

text \<open>A resource with its strings cleaned.\<close>

definition clean_var :: "var \<Rightarrow> var" where
  "clean_var v = v\<lparr>vVars := Some (map clean (elems (vVars v)))\<rparr>"

definition clean_route :: "route \<Rightarrow> route" where
  "clean_route r = r\<lparr>rUris := map clean (rUris r), rName := clean (rName r), rId := clean (rId r),
     rDesc := clean (rDesc r), rMethods := map clean (rMethods r), rHosts := map clean (rHosts r),
     rRemoteAddrs := map clean (rRemoteAddrs r), rVars := map clean_var (rVars r),
     rServiceId := clean (rServiceId r), rUpstreamId := clean (rUpstreamId r)\<rparr>"

definition clean_node :: "node \<Rightarrow> node" where
  "clean_node n = n\<lparr>nHost := clean (nHost n)\<rparr>"

definition clean_active :: "active_check \<Rightarrow> active_check" where
  "clean_active c = c\<lparr>acType := clean (acType c), acHost := clean (acHost c), acHttpPath := clean (acHttpPath c),
     acReqHeaders := map clean (acReqHeaders c)\<rparr>"

definition clean_check :: "health_check \<Rightarrow> health_check" where
  "clean_check h = h\<lparr>hcActive := map_option clean_active (hcActive h),
     hcPassive := map_option (\<lambda>c. c\<lparr>pcType := clean (pcType c)\<rparr>) (hcPassive h)\<rparr>"

definition clean_upstream :: "upstream \<Rightarrow> upstream" where
  "clean_upstream u = u\<lparr>uType := clean (uType u), uHashOn := clean (uHashOn u), uKey := clean (uKey u),
     uCheck := map_option clean_check (uCheck u), uScheme := clean (uScheme u), uPassHost := clean (uPassHost u),
     uUpstreamHost := clean (uUpstreamHost u), uName := clean (uName u), uDesc := clean (uDesc u),
     uId := clean (uId u), uNodes := map_option (map clean_node) (uNodes u)\<rparr>"

text \<open>The numbers that are written as integers, and resources of such numbers without third-party messages.\<close>

definition whole :: "float64 \<Rightarrow> bool" where
  "whole x \<longleftrightarrow> x = of_int \<lfloor>x\<rfloor> \<and> \<bar>x\<bar> \<le> 2 ^ 53"

definition whole_timeout :: "upstream_timeout \<Rightarrow> bool" where
  "whole_timeout t \<longleftrightarrow> whole (tConnect t) \<and> whole (tSend t) \<and> whole (tRead t)"

definition plain_upstream :: "upstream \<Rightarrow> bool" where
  "plain_upstream u \<longleftrightarrow>
     pred_option whole_timeout (uTimeout u)
     \<and> pred_option (\<lambda>h. pred_option (\<lambda>c. whole (acTimeout c)) (hcActive h)) (uCheck u)
     \<and> (\<forall>n \<in> set (elems (uNodes u)). nMetadata n = [])"

section \<open>Lemmas\<close>

subsection \<open>Fields\<close>

text \<open>Looking up a field, written or left out, after the cleaning of its object.\<close>

abbreviation clean_members :: "(string \<times> json) list \<Rightarrow> (string \<times> json) list" where
  "clean_members ms \<equiv> map (\<lambda>(k, v). (clean k, clean_json v)) ms"

named_theorems field_simps "what is read of a written field"

lemma clean_ascii: "\<forall>c \<in> set s. (of_char c :: nat) < 128 \<Longrightarrow> clean s = s"
  using valid_ascii by (simp add: valid_utf8_def)

lemma clean_Nil [simp]: "clean [] = []"
  by (simp add: clean_ascii)

lemma field_at_Nil [field_simps]: "field_at zero dec [] k = Some zero"
  by (simp add: field_at_def)

lemma omitempty_at:
  "field_at zero dec (clean_members (omitempty k z v) @ ms) k' =
     (if k' = clean k \<and> \<not> z then dec (clean_json v) else field_at zero dec ms k')"
  by (simp add: field_at_def omitempty_def)

text \<open>A lookup skips the fields of other names.\<close>

lemma skip_omitempty:
  "clean k \<noteq> k' \<Longrightarrow> field_at zero dec (clean_members (omitempty k z v) @ ms) k' = field_at zero dec ms k'"
  by (auto simp: omitempty_at)

lemma skip_field [field_simps]:
  assumes "clean k \<noteq> k'"
  shows "field_at zero dec (clean_members (omitempty k z v) @ ms) k' = field_at zero dec ms k'"
    "field_at zero dec (clean_members (str_field k str) @ ms) k' = field_at zero dec ms k'"
    "field_at zero dec (clean_members (int_field k n) @ ms) k' = field_at zero dec ms k'"
    "field_at zero dec (clean_members (list_field k enc xs) @ ms) k' = field_at zero dec ms k'"
    "field_at zero dec (clean_members (float_field fmt k x) @ ms) k' = field_at zero dec ms k'"
    "field_at zero dec (clean_members (ptr_field k enc' p) @ ms) k' = field_at zero dec ms k'"
  unfolding str_field_def int_field_def list_field_def float_field_def
  by (rule skip_omitempty [OF assms])+ (use assms in \<open>auto simp: ptr_field_def field_at_def split: option.splits\<close>)

text \<open>It finds what was written, or the zero value that was left out.\<close>

lemma str_hit [field_simps]:
  "clean k = k' \<Longrightarrow> str_at ms k' = Some [] \<Longrightarrow>
     str_at (clean_members (str_field k str) @ ms) k' = Some (clean str)"
  by (auto simp: str_field_def omitempty_at as_str_def)

lemma int_dec: "as_int (clean_json (JNum (fmt_int n))) = Some n"
  by (simp add: as_int_def)

lemma i32_dec: "as_i32 (clean_json (int_json n)) = Some n"
  by (simp add: as_i32_def int_json_def as_int_def)

lemma int_hit [field_simps]:
  "clean k = k' \<Longrightarrow> i32_at ms k' = Some 0 \<Longrightarrow> i32_at (clean_members (int_field k n) @ ms) k' = Some n"
  by (auto simp: int_field_def omitempty_at i32_dec)

lemma float_hit [field_simps]:
  "clean k = k' \<Longrightarrow> float_at ms k' = Some 0 \<Longrightarrow> whole x \<Longrightarrow>
     float_at (clean_members (float_field fmt k x) @ ms) k' = Some x"
  by (auto simp: float_field_def omitempty_at as_float_def float_text_def whole_def as_int_def)

lemma those_map: "(\<And>x. x \<in> set xs \<Longrightarrow> dec x = Some (f x)) \<Longrightarrow> those (map dec xs) = Some (map f xs)"
  by (induction xs) simp_all

lemma list_dec:
  assumes "\<And>x. x \<in> set xs \<Longrightarrow> dec (clean_json (enc x)) = Some (f x)"
  shows "as_list dec (clean_json (JArr (map enc xs))) = Some (map f xs)"
  using those_map [of xs "\<lambda>x. dec (clean_json (enc x))" f] assms by (simp add: as_list_def comp_def)

lemma list_hit:
  assumes "clean k = k'" "list_at dec ms k' = Some []" "\<And>x. x \<in> set xs \<Longrightarrow> dec (clean_json (enc x)) = Some (f x)"
  shows "list_at dec (clean_members (list_field k enc xs) @ ms) k' = Some (map f xs)"
  using assms(1,2) list_dec [of xs dec enc f] assms(3) by (auto simp: list_field_def omitempty_at)

lemma str_dec: "as_str (clean_json (JStr x)) = Some (clean x)"
  by (simp add: as_str_def)

lemma var_dec: "as_var (clean_json (Var_MarshalJSON v)) = Some (clean_var v)"
proof -
  have v: "Var_MarshalJSON v = JArr (map JStr (elems (vVars v)))"
    by (cases "vVars v") (simp_all add: Var_MarshalJSON_def)
  have "as_list as_str (clean_json (JArr (map JStr (elems (vVars v))))) = Some (map clean (elems (vVars v)))"
    by (rule list_dec) (rule str_dec)
  then show ?thesis unfolding v as_var_def by (simp add: clean_var_def)
qed

lemmas list_hits [field_simps] =
  list_hit [where enc = JStr and dec = as_str and f = clean, OF _ _ str_dec]
  list_hit [where enc = int_json and dec = as_i32 and f = "\<lambda>n. n", OF _ _ i32_dec, unfolded list.map_ident]
  list_hit [where enc = Var_MarshalJSON and dec = as_var and f = clean_var, OF _ _ var_dec]

lemma ptr_hit:
  assumes "clean k = k'" "ptr_at dec ms k' = Some None" "\<And>m. p = Some m \<Longrightarrow> dec (clean_json (enc m)) = Some (f m)"
  shows "ptr_at dec (clean_members (ptr_field k enc p) @ ms) k' = Some (map_option f p)"
  using assms by (cases p) (auto simp: ptr_field_def field_at_def)

lemma absent_skip [field_simps]:
  assumes "clean k \<noteq> k'"
  shows "absent (clean_members (omitempty k z v) @ ms) k' = absent ms k'"
    "absent (clean_members (str_field k str) @ ms) k' = absent ms k'"
    "absent (clean_members (int_field k n) @ ms) k' = absent ms k'"
    "absent (clean_members (list_field k enc xs) @ ms) k' = absent ms k'"
  using assms by (simp_all add: str_field_def int_field_def list_field_def omitempty_def absent_def)

lemma absent_Nil [field_simps]: "absent [] k = Some ()"
  by (simp add: absent_def)

text \<open>The last field of an object.\<close>

lemmas written_fields = skip_field str_hit int_hit float_hit list_hits absent_skip

lemmas last_field_simps [field_simps] = written_fields [where ms = "[]", unfolded append_Nil2]

subsection \<open>Structs\<close>

lemmas obj_simps = field_simps clean_ascii as_obj_def

lemma node_dec: "nMetadata n = [] \<Longrightarrow> read_node (clean_json (node_json any n)) = Some (clean_node n)"
  by (simp add: read_node_def node_json_def obj_simps omitempty_def [of _ True] clean_node_def)

lemma timeout_dec: "whole_timeout t \<Longrightarrow> read_timeout (clean_json (timeout_json fmt t)) = Some t"
  by (simp add: read_timeout_def timeout_json_def obj_simps whole_timeout_def)

lemma active_healthy_dec: "read_active_healthy (clean_json (active_healthy_json h)) = Some h"
  by (simp add: read_active_healthy_def active_healthy_json_def obj_simps)

lemma active_unhealthy_dec: "read_active_unhealthy (clean_json (active_unhealthy_json h)) = Some h"
  by (simp add: read_active_unhealthy_def active_unhealthy_json_def obj_simps)

lemma passive_healthy_dec: "read_passive_healthy (clean_json (passive_healthy_json h)) = Some h"
  by (simp add: read_passive_healthy_def passive_healthy_json_def obj_simps)

lemma passive_unhealthy_dec: "read_passive_unhealthy (clean_json (passive_unhealthy_json h)) = Some h"
  by (simp add: read_passive_unhealthy_def passive_unhealthy_json_def obj_simps)

lemmas ptr_hits =
  ptr_hit [where enc = active_healthy_json and dec = read_active_healthy and f = "\<lambda>h. h",
    OF _ _ active_healthy_dec, unfolded option.map_ident]
  ptr_hit [where enc = active_unhealthy_json and dec = read_active_unhealthy and f = "\<lambda>h. h",
    OF _ _ active_unhealthy_dec, unfolded option.map_ident]
  ptr_hit [where enc = passive_healthy_json and dec = read_passive_healthy and f = "\<lambda>h. h",
    OF _ _ passive_healthy_dec, unfolded option.map_ident]
  ptr_hit [where enc = passive_unhealthy_json and dec = read_passive_unhealthy and f = "\<lambda>h. h",
    OF _ _ passive_unhealthy_dec, unfolded option.map_ident]

lemmas last_ptr_hits = ptr_hits [where ms = "[]", unfolded append_Nil2]

lemma bool_hit:
  "clean k = k' \<Longrightarrow> field_at False as_bool ms k' = Some False \<Longrightarrow>
     field_at False as_bool (clean_members (omitempty k (\<not> b) (JBool b)) @ ms) k' = Some b"
  by (auto simp: omitempty_at as_bool_def)

lemma status_hit:
  "clean k = k' \<Longrightarrow>
     field_at Route_Disable as_status (clean_members (omitempty k (st = Route_Disable) (status_json st))) k' = Some st"
  using omitempty_at [of Route_Disable as_status k _ _ "[]"]
  by (cases st) (auto simp: field_at_Nil as_status_def status_json_def as_int_def)

lemma active_check_dec:
  "whole (acTimeout c) \<Longrightarrow> read_active_check (clean_json (active_check_json fmt c)) = Some (clean_active c)"
  by (simp add: read_active_check_def active_check_json_def obj_simps ptr_hits bool_hit clean_active_def)

lemma passive_check_dec:
  "read_passive_check (clean_json (passive_check_json c)) = Some (c\<lparr>pcType := clean (pcType c)\<rparr>)"
  by (simp add: read_passive_check_def passive_check_json_def obj_simps ptr_hits last_ptr_hits)

lemma health_check_dec:
  assumes "pred_option (\<lambda>c. whole (acTimeout c)) (hcActive h)"
  shows "read_health_check (clean_json (health_check_json fmt h)) = Some (clean_check h)"
proof -
  have "ptr_at read_active_check (clean_members (ptr_field ''active'' (active_check_json fmt) (hcActive h)) @ ms) ''active''
      = Some (map_option clean_active (hcActive h))" if "ptr_at read_active_check ms ''active'' = Some None" for ms
    using assms that by (intro ptr_hit active_check_dec) (auto simp: clean_ascii)
  moreover have "ptr_at read_passive_check (clean_members (ptr_field ''passive'' passive_check_json (hcPassive h))) ''passive''
      = Some (map_option (\<lambda>c. c\<lparr>pcType := clean (pcType c)\<rparr>) (hcPassive h))"
    using ptr_hit [where ms = "[]" and enc = passive_check_json and dec = read_passive_check,
        unfolded append_Nil2, OF _ _ passive_check_dec] by (simp add: obj_simps)
  ultimately show ?thesis
    by (simp add: read_health_check_def health_check_json_def obj_simps clean_check_def)
qed

lemma absent_plugins: "absent (clean_members (ptr_field k enc None) @ ms) k' = absent ms k'"
  by (simp add: ptr_field_def)

lemma route_dec:
  "rPlugins r = None \<Longrightarrow> read_route (clean_json (route_json any r)) = Some (clean_route r)"
  by (simp add: read_route_def route_json_def obj_simps status_hit absent_plugins clean_route_def)

lemma nodes_dec:
  assumes "\<forall>n \<in> set (elems ns). nMetadata n = []"
  shows "read_nodes (clean_json (nodes_json any ns)) = Some (map_option (map clean_node) ns)"
proof (cases ns)
  case None
  then show ?thesis by (simp add: read_nodes_def nodes_json_def)
next
  case (Some xs)
  have "as_list read_node (clean_json (JArr (map (node_json any) xs))) = Some (map clean_node xs)"
    using assms by (intro list_dec node_dec) (simp add: Some)
  with Some show ?thesis by (simp add: read_nodes_def nodes_json_def)
qed

lemma nodes_skip: "k \<noteq> ''nodes'' \<Longrightarrow> field_at zero dec [(''nodes'', v)] k = Some zero"
  by (simp add: field_at_def)

lemma upstream_dec:
  assumes "plain_upstream u"
  shows "read_upstream (clean_json (upstream_json fmt any u)) = Some (clean_upstream u)"
proof -
  have t: "read_timeout (clean_json (timeout_json fmt m)) = Some m" if "uTimeout u = Some m" for m
    using assms that by (simp add: plain_upstream_def timeout_dec)
  have "ptr_at read_timeout (clean_members (ptr_field ''timeout'' (timeout_json fmt) (uTimeout u)) @ ms) ''timeout''
      = Some (uTimeout u)" if "ptr_at read_timeout ms ''timeout'' = Some None" for ms
    using ptr_hit [where f = "\<lambda>t. t", unfolded option.map_ident, OF _ that t] by (simp add: clean_ascii)
  moreover have "ptr_at read_health_check (clean_members (ptr_field ''check'' (health_check_json fmt) (uCheck u)) @ ms) ''check''
      = Some (map_option clean_check (uCheck u))" if "ptr_at read_health_check ms ''check'' = Some None" for ms
    using assms that by (intro ptr_hit health_check_dec) (auto simp: clean_ascii plain_upstream_def)
  moreover have "field_at None read_nodes [(''nodes'', clean_json (nodes_json any (uNodes u)))] ''nodes''
      = Some (map_option (map clean_node) (uNodes u))"
    using assms by (simp add: field_at_def nodes_dec plain_upstream_def)
  ultimately show ?thesis
    by (simp add: read_upstream_def upstream_json_def obj_simps nodes_skip clean_upstream_def)
qed

subsection \<open>Texts\<close>

definition members_ok :: "(string \<times> json) list \<Rightarrow> bool" where
  "members_ok ms \<longleftrightarrow> (\<forall>m \<in> set ms. literals_ok (snd m))"

lemma members_ok_simps:
  "members_ok [] \<longleftrightarrow> True" "members_ok (m # ms) \<longleftrightarrow> literals_ok (snd m) \<and> members_ok ms"
  "members_ok (ms @ ns) \<longleftrightarrow> members_ok ms \<and> members_ok ns" "literals_ok (JObj ms) \<longleftrightarrow> members_ok ms"
  by (auto simp: members_ok_def)

lemma field_literals [simp]:
  "members_ok (str_field k str)"
  "members_ok (int_field k n)"
  "members_ok (list_field k JStr strs)"
  "members_ok (list_field k int_json ns)"
  "members_ok (list_field k Var_MarshalJSON vs)"
  "members_ok (omitempty k z (status_json st))"
  "members_ok (omitempty k z (JBool b))"
  "members_ok (ptr_field k enc None)"
  by (auto simp: members_ok_def str_field_def int_field_def list_field_def omitempty_def int_json_def status_json_def
      Var_MarshalJSON_def ptr_field_def split: option.splits)

lemma ptr_literals:
  "(\<And>m. p = Some m \<Longrightarrow> literals_ok (enc m)) \<Longrightarrow> members_ok (ptr_field k enc p)"
  by (auto simp: members_ok_def ptr_field_def split: option.splits)

lemma float_literals: "whole x \<Longrightarrow> members_ok (float_field fmt k x)"
  by (auto simp: members_ok_def float_field_def omitempty_def float_text_def whole_def)

lemmas literal_simps = members_ok_simps field_literals simp_thms

lemma route_literals: "rPlugins r = None \<Longrightarrow> literals_ok (route_json any r)"
  by (simp only: route_json_def literal_simps)

lemma timeout_literals: "whole_timeout t \<Longrightarrow> literals_ok (timeout_json fmt t)"
  by (simp only: timeout_json_def literal_simps float_literals whole_timeout_def)

lemma node_literals: "nMetadata n = [] \<Longrightarrow> literals_ok (node_json any n)"
  by (simp only: node_json_def literal_simps)
    (simp add: omitempty_def members_ok_simps)

lemma healthiness_literals:
  "literals_ok (active_healthy_json ah)" "literals_ok (active_unhealthy_json au)"
  "literals_ok (passive_healthy_json ph)" "literals_ok (passive_unhealthy_json pu)"
  by (simp_all only: active_healthy_json_def active_unhealthy_json_def passive_healthy_json_def
      passive_unhealthy_json_def literal_simps)

lemma check_literals:
  assumes "pred_option (\<lambda>c. whole (acTimeout c)) (hcActive h)"
  shows "literals_ok (health_check_json fmt h)"
proof -
  have "literals_ok (active_check_json fmt c)" if "whole (acTimeout c)" for c
    by (simp only: active_check_json_def literal_simps
        float_literals [OF that] ptr_literals healthiness_literals)
  moreover have "literals_ok (passive_check_json c)" for c
    by (simp only: passive_check_json_def literal_simps
        ptr_literals healthiness_literals)
  ultimately show ?thesis
    using assms by (auto simp: health_check_json_def members_ok_simps simp del: literals_ok.simps intro!: ptr_literals)
qed

lemma upstream_literals:
  assumes "plain_upstream u"
  shows "literals_ok (upstream_json fmt any u)"
proof -
  have "literals_ok (nodes_json any (uNodes u))"
    using assms by (cases "uNodes u") (auto simp: nodes_json_def plain_upstream_def node_literals)
  moreover have "members_ok (ptr_field ''timeout'' (timeout_json fmt) (uTimeout u))"
    using assms by (intro ptr_literals timeout_literals) (auto simp: plain_upstream_def)
  moreover have "members_ok (ptr_field ''check'' (health_check_json fmt) (uCheck u))"
    using assms by (intro ptr_literals check_literals) (auto simp: plain_upstream_def)
  ultimately show ?thesis
    by (simp only: upstream_json_def literal_simps snd_conv)
qed

lemma marshals_go [simp]: "marshals (go_marshaller fmt any)"
  by (simp add: marshals_def go_marshaller_def)

lemma marshal_route_go: "marshal_route (go_marshaller fmt any) r = Some (json_text (route_json any r))"
  by (simp add: go_marshaller_def)

lemma marshal_upstream_go: "marshal_upstream (go_marshaller fmt any) u = Some (json_text (upstream_json fmt any u))"
  by (simp add: go_marshaller_def)

text \<open>A client's reading of a text.\<close>

definition client_route :: "string \<Rightarrow> route option" where
  "client_route s = Option.bind (read_json s) read_route"

definition client_upstream :: "string \<Rightarrow> upstream option" where
  "client_upstream s = Option.bind (read_json s) read_upstream"

lemma client_route_text: "rPlugins r = None \<Longrightarrow> client_route (json_text (route_json any r)) = Some (clean_route r)"
  by (simp add: client_route_def read_json_text route_literals route_dec)

lemma client_upstream_text:
  "plain_upstream u \<Longrightarrow> client_upstream (json_text (upstream_json fmt any u)) = Some (clean_upstream u)"
  by (simp add: client_upstream_def read_json_text upstream_literals upstream_dec)

section \<open>Properties\<close>

text \<open>What the server writes for a resource is JSON that a client reads back as that resource: every field
  is under its name, what is left out is the zero value, and only bytes that are no UTF-8 are lost.
  (Routes without plugins, upstreams without metadata whose timeouts are whole seconds: all the adaptor
  makes.) Encoding never fails.\<close>

theorem resource_round_trip:
  "marshals (go_marshaller fmt any)
   \<and> (rPlugins r = None \<longrightarrow> (\<exists>text. marshal_route (go_marshaller fmt any) r = Some text
        \<and> client_route text = Some (clean_route r)))
   \<and> (plain_upstream u \<longrightarrow> (\<exists>text. marshal_upstream (go_marshaller fmt any) u = Some text
        \<and> client_upstream text = Some (clean_upstream u)))"
  by (simp add: marshal_route_go marshal_upstream_go client_route_text client_upstream_text)

end
