(* ===== verification/Served_Resources.thy ===== *)
theory Served_Resources
  imports Resource_Json Etcd_KV Etcd_Push
begin

text \<open>
  The etcd server (\<open>kv.go\<close>, \<open>etcd.go\<close> of \<open>pkg/etcdv3\<close>) with the encoding of \<open>encoding/json\<close>: what a
  client that reads a key or the directory of routes, or is pushed an event, decodes from the values.
\<close>

section \<open>Definitions\<close>

text \<open>The values of a response, decoded.\<close>

definition client_routes :: "range_response \<Rightarrow> route option list" where
  "client_routes resp = map (\<lambda>kv. Option.bind (kvValue kv) client_route) (rsKvs resp)"

definition client_upstreams :: "range_response \<Rightarrow> upstream option list" where
  "client_upstreams resp = map (\<lambda>kv. Option.bind (kvValue kv) client_upstream) (rsKvs resp)"

section \<open>Lemmas\<close>

lemma client_route_kv:
  "rPlugins x = None \<Longrightarrow>
     Option.bind (kvValue (kv_at rv e k (the (marshal_route (go_marshaller fmt any) x)))) client_route = Some (clean_route x)"
  by (simp add: kv_at_def marshal_route_go client_route_text)

lemma client_upstream_kv:
  "plain_upstream u \<Longrightarrow>
     Option.bind (kvValue (kv_at rv e k (the (marshal_upstream (go_marshaller fmt any) u)))) client_upstream
       = Some (clean_upstream u)"
  by (simp add: kv_at_def marshal_upstream_go client_upstream_text)

lemma Range_route_kvs:
  assumes "marshals js" "plain_request r" "rqKey r = keyPrefix e @ ''/routes''"
    "rqRangeEnd r = Some (keyPrefix e @ ''/routet'')" "\<not> rqKeysOnly r"
  shows "\<exists>e' resp. Range pl js ordr ordu c rv e r = (e', Inr resp) \<and> rsKvs resp =
      map (\<lambda>x. kv_at rv e (route_key (keyPrefix e) (rId x)) (the (marshal_route js x)))
        (route_List pl ordr (cRoute c))"
  using Range_routes [OF assms, of pl ordr ordu c rv] by (elim exE conjE) simp

lemma Range_upstreams:
  assumes "marshals js" "plain_request r" "rqKey r = keyPrefix e @ ''/upstreams''"
    "rqRangeEnd r = Some (keyPrefix e @ ''/upstreamt'')" "\<not> rqKeysOnly r"
  shows "\<exists>e' resp. Range pl js ordr ordu c rv e r = (e', Inr resp) \<and> rsKvs resp =
      map (\<lambda>u. kv_at rv e (upstream_key (keyPrefix e) (uId u)) (the (marshal_upstream js u)))
        (upstream_List pl ordu (cUpstream c))"
proof -
  have "checkRangeRequestConformance (keyPrefix e) r = None"
    using assms by (simp add: check_range_accepts readdir_def)
  with findAllKeys_upstreams [OF assms(1), of pl ordr ordu c rv e] assms(3-5) show ?thesis
    by (auto simp: Range_def)
qed

lemma clean_upstream_nodes: "uNodes (clean_upstream u) = None \<longleftrightarrow> uNodes u = None"
  by (simp add: clean_upstream_def)

section \<open>Properties\<close>

text \<open>C6: a client reads the cached configuration. The values of a response for the directory of routes
  decode, in the order of the listing, to the cached routes, those for the directory of upstreams to the
  cached upstreams, strings cleaned: nothing of a resource is lost on the way.\<close>

theorem client_reads_configuration:
  assumes "plain_request r" "\<not> rqKeysOnly r"
    and "\<forall>x \<in> set (route_List pl ordr (cRoute c)). rPlugins x = None"
    and "\<forall>u \<in> set (upstream_List pl ordu (cUpstream c)). plain_upstream u"
  shows "(rqKey r = keyPrefix e @ ''/routes'' \<longrightarrow> rqRangeEnd r = Some (keyPrefix e @ ''/routet'') \<longrightarrow>
      (\<exists>e' resp. Range pl (go_marshaller fmt any) ordr ordu c rv e r = (e', Inr resp)
        \<and> client_routes resp = map (Some \<circ> clean_route) (route_List pl ordr (cRoute c))))
    \<and> (rqKey r = keyPrefix e @ ''/upstreams'' \<longrightarrow> rqRangeEnd r = Some (keyPrefix e @ ''/upstreamt'') \<longrightarrow>
      (\<exists>e' resp. Range pl (go_marshaller fmt any) ordr ordu c rv e r = (e', Inr resp)
        \<and> client_upstreams resp = map (Some \<circ> clean_upstream) (upstream_List pl ordu (cUpstream c))))"
proof (intro conjI impI)
  assume k: "rqKey r = keyPrefix e @ ''/routes''" "rqRangeEnd r = Some (keyPrefix e @ ''/routet'')"
  from Range_route_kvs [OF marshals_go assms(1) k assms(2)] obtain e' resp where
    "Range pl (go_marshaller fmt any) ordr ordu c rv e r = (e', Inr resp)"
    "rsKvs resp = map (\<lambda>x. kv_at rv e (route_key (keyPrefix e) (rId x)) (the (marshal_route (go_marshaller fmt any) x)))
      (route_List pl ordr (cRoute c))"
    by blast
  then show "\<exists>e' resp. Range pl (go_marshaller fmt any) ordr ordu c rv e r = (e', Inr resp)
      \<and> client_routes resp = map (Some \<circ> clean_route) (route_List pl ordr (cRoute c))"
    using assms(3) by (simp add: client_routes_def client_route_kv)
next
  assume k: "rqKey r = keyPrefix e @ ''/upstreams''" "rqRangeEnd r = Some (keyPrefix e @ ''/upstreamt'')"
  from Range_upstreams [OF marshals_go assms(1) k assms(2)] obtain e' resp where
    "Range pl (go_marshaller fmt any) ordr ordu c rv e r = (e', Inr resp)"
    "rsKvs resp = map (\<lambda>u. kv_at rv e (upstream_key (keyPrefix e) (uId u)) (the (marshal_upstream (go_marshaller fmt any) u)))
      (upstream_List pl ordu (cUpstream c))" by blast
  then show "\<exists>e' resp. Range pl (go_marshaller fmt any) ordr ordu c rv e r = (e', Inr resp)
      \<and> client_upstreams resp = map (Some \<circ> clean_upstream) (upstream_List pl ordu (cUpstream c))"
    using assms(4) by (simp add: client_upstreams_def client_upstream_kv)
qed

text \<open>A client that watches and one that reads do not see the same upstream when its nodes are nil, as those
  of a new cluster are until its load assignment arrives: the pushed value has the nodes \<open>null\<close>, the read
  one, out of the cache, an empty list.\<close>

theorem pushed_nodes_differ:
  assumes "plain_upstream u" "uNodes u = None" "event_object ev = OUpstream u" "eType ev \<noteq> EventDelete"
    and "pushEvent (go_marshaller fmt any) ordw ordi e ev = (e', ps)"
    and "(w, resps) \<in> set ps" "resp \<in> set resps" "event \<in> set (wrEvents resp)"
    and "upstream_Get pl s i = Inr v" "plain_upstream v"
  shows "(\<exists>x. Option.bind (kvValue (evKv event)) client_upstream = Some x \<and> uNodes x = None)
    \<and> (\<exists>x. client_upstream (the (marshal_upstream (go_marshaller fmt any) v)) = Some x \<and> uNodes x \<noteq> None)"
proof
  have "kvValue (evKv event) = marshal_upstream (go_marshaller fmt any) u"
    using assms(3,5-8) by (auto simp: pushEvent_def Let_def marshal_object_def split: option.splits)
  then show "\<exists>x. Option.bind (kvValue (evKv event)) client_upstream = Some x \<and> uNodes x = None"
    using assms(1,2) by (simp add: marshal_upstream_go client_upstream_text clean_upstream_nodes)
  show "\<exists>x. client_upstream (the (marshal_upstream (go_marshaller fmt any) v)) = Some x \<and> uNodes x \<noteq> None"
    using upstream_Get_nodes [OF assms(9)] assms(10)
    by (simp add: marshal_upstream_go client_upstream_text clean_upstream_nodes del: not_None_eq)
qed

lemma client_reads_configuration_witness:
  "\<exists>e' resp. Range std_lib (go_marshaller (\<lambda>_. ''0.5'') (\<lambda>_. JNull)) rev rev
      (NewInMemoryCache\<lparr>cRoute := route_Insert std_lib [] (zero_route\<lparr>rId := ''7''\<rparr>)\<rparr>) 3
      (NewEtcdV3Server ''/a'') (plain_range ''/a/routes'' (Some ''/a/routet'')) = (e', Inr resp)
     \<and> client_routes resp = [Some (clean_route (zero_route\<lparr>rId := ''7''\<rparr>))]"
proof -
  let ?c = "NewInMemoryCache\<lparr>cRoute := route_Insert std_lib [] (zero_route\<lparr>rId := ''7''\<rparr>)\<rparr>"
  let ?e = "NewEtcdV3Server ''/a''"
  have l: "route_List std_lib rev (cRoute ?c) = [zero_route\<lparr>rId := ''7''\<rparr>]"
    by (simp add: route_List_def route_Insert_def Let_def std_lib_def std_clone_route_def zero_route_def)
  have u: "upstream_List std_lib rev (cUpstream ?c) = []"
    by (simp add: upstream_List_def NewInMemoryCache_def newUpstream_def)
  have p: "keyPrefix ?e = ''/a''" by (simp add: NewEtcdV3Server_def)
  have "\<forall>x \<in> set (route_List std_lib rev (cRoute ?c)). rPlugins x = None"
    unfolding l by (simp add: zero_route_def)
  moreover have "\<forall>u \<in> set (upstream_List std_lib rev (cUpstream ?c)). plain_upstream u"
    unfolding u by simp
  ultimately show ?thesis
    using client_reads_configuration [of "plain_range ''/a/routes'' (Some ''/a/routet'')" std_lib rev ?c rev ?e "\<lambda>_. ''0.5''" "\<lambda>_. JNull" 3]
    unfolding l p by simp
qed

end
