(* ===== verification/Agent_Log.thy ===== *)
theory Agent_Log
  imports Go_Strings
begin

text \<open>
  \<open>pkg/log\<close>: the agent's logger, over the core of zap (a third-party package). The core encodes an
  entry and appends it to its writer; what is written so far is the list of entries, each with its
  writer and encoder. Levels are zap's, by name and order. A call stack is the list of the files of its
  frames, innermost first, as far as \<open>runtime.Caller\<close> reads it; the time of an entry is left out.
\<close>

section \<open>Definitions\<close>

subsection \<open>Levels\<close>

datatype level = DebugLevel | InfoLevel | WarnLevel | ErrorLevel | DPanicLevel | PanicLevel | FatalLevel

fun level_value :: "level \<Rightarrow> int" where
  "level_value DebugLevel = -1"
| "level_value InfoLevel = 0"
| "level_value WarnLevel = 1"
| "level_value ErrorLevel = 2"
| "level_value DPanicLevel = 3"
| "level_value PanicLevel = 4"
| "level_value FatalLevel = 5"

fun level_String :: "level \<Rightarrow> string" where
  "level_String DebugLevel = ''debug''"
| "level_String InfoLevel = ''info''"
| "level_String WarnLevel = ''warn''"
| "level_String ErrorLevel = ''error''"
| "level_String DPanicLevel = ''dpanic''"
| "level_String PanicLevel = ''panic''"
| "level_String FatalLevel = ''fatal''"

instantiation level :: linorder
begin

definition less_eq_level :: "level \<Rightarrow> level \<Rightarrow> bool" where
  "l \<le> l' \<longleftrightarrow> level_value l \<le> level_value l'"

definition less_level :: "level \<Rightarrow> level \<Rightarrow> bool" where
  "l < l' \<longleftrightarrow> level_value l < level_value l'"

instance
proof
  fix x y z :: level
  show "x < y \<longleftrightarrow> x \<le> y \<and> \<not> y \<le> x" "x \<le> x" "x \<le> y \<or> y \<le> x"
    by (auto simp: less_eq_level_def less_level_def)
  show "x \<le> z" if "x \<le> y" "y \<le> z" using that by (simp add: less_eq_level_def)
  show "x = y" if "x \<le> y" "y \<le> x" using that by (cases x; cases y) (simp_all add: less_eq_level_def)
qed

end

definition levelMap :: "(string \<times> level) list" where
  "levelMap = map (\<lambda>l. (level_String l, l))
     [DebugLevel, InfoLevel, WarnLevel, ErrorLevel, PanicLevel, FatalLevel]"

subsection \<open>Messages\<close>

text \<open>
  Arguments of a message, \<open>fmt.Sprint\<close> of them, and \<open>fmt.Sprintf\<close> for the verbs \<open>%s\<close>, \<open>%d\<close> and \<open>%v\<close>
  without flags, the ones the program's messages use.
\<close>

datatype log_arg = AString string | AInt int

fun arg_text :: "log_arg \<Rightarrow> string" where
  "arg_text (AString s) = s"
| "arg_text (AInt i) = fmt_int i"

fun arg_type :: "log_arg \<Rightarrow> string" where
  "arg_type (AString s) = ''string''"
| "arg_type (AInt i) = ''int''"

fun Sprint :: "log_arg list \<Rightarrow> string" where
  "Sprint [] = ''''"
| "Sprint [a] = arg_text a"
| "Sprint (AInt i # AInt j # args) = fmt_int i @ '' '' @ Sprint (AInt j # args)"
| "Sprint (a # b # args) = arg_text a @ Sprint (b # args)"

fun extra_args :: "log_arg list \<Rightarrow> string" where
  "extra_args [] = ''''"
| "extra_args [a] = arg_type a @ ''='' @ arg_text a"
| "extra_args (a # args) = arg_type a @ ''='' @ arg_text a @ '', '' @ extra_args args"

fun verb_ok :: "char \<Rightarrow> log_arg \<Rightarrow> bool" where
  "verb_ok v (AString _) \<longleftrightarrow> v \<in> {CHR ''s'', CHR ''v''}"
| "verb_ok v (AInt _) \<longleftrightarrow> v \<in> {CHR ''d'', CHR ''v''}"

fun Sprintf :: "string \<Rightarrow> log_arg list \<Rightarrow> string" where
  "Sprintf [] args = (if args = [] then '''' else ''%!(EXTRA '' @ extra_args args @ '')'')"
| "Sprintf [c] args =
     (if c = CHR ''%'' then ''%!(NOVERB)'' @ Sprintf [] args else c # Sprintf [] args)"
| "Sprintf (c # v # template) args =
     (if c \<noteq> CHR ''%'' then c # Sprintf (v # template) args
      else if v = CHR ''%'' then ''%'' @ Sprintf template args
      else
        (case args of
           [] \<Rightarrow> ''%!'' @ [v] @ ''(MISSING)'' @ Sprintf template []
         | a # rest \<Rightarrow>
             (if verb_ok v a then arg_text a
              else ''%!'' @ [v] @ ''('' @ arg_type a @ ''='' @ arg_text a @ '')'') @ Sprintf template rest))"

text \<open>The three forms of a log call: \<open>Debug\<close>, \<open>Debugf\<close> and \<open>Debugw\<close>, and so on for every level.\<close>

type_synonym field = "string \<times> string"

datatype log_call =
    Plain "log_arg list" | Templated string "log_arg list" | Structured string "field list"

subsection \<open>Writers and loggers\<close>

datatype writer = Stdout | Stderr | LogFile string | WriteSyncer nat

datatype encoder = ConsoleEncoder | JSONEncoder

record logger =
  lgWriter :: writer
  lgEncoder :: encoder
  lgLevel :: level
  lgContext :: string

record entry =
  enLevel :: level
  enMessage :: string
  enLoggerName :: string
  enCaller :: "string option"
  enFields :: "field list"

type_synonym written = "(writer \<times> encoder \<times> entry) list"

definition runtime_Caller :: "nat \<Rightarrow> string list \<Rightarrow> string option" where
  "runtime_Caller skip stack = (if skip < length stack then Some (stack ! skip) else None)"

definition log_write :: "string list \<Rightarrow> logger \<Rightarrow> level \<Rightarrow> string \<Rightarrow> field list \<Rightarrow> written \<Rightarrow> written" where
  "log_write stack lg l message fs out =
     (let e = \<lparr>enLevel = l, enMessage = message, enLoggerName = lgContext lg,
               enCaller = runtime_Caller 2 (''logger.go'' # stack), enFields = fs\<rparr>
      in out @ [(lgWriter lg, lgEncoder lg, e)])"

text \<open>The eighteen methods of a logger: six levels, three forms each.\<close>

definition log_at :: "level \<Rightarrow> string list \<Rightarrow> logger \<Rightarrow> log_call \<Rightarrow> written \<Rightarrow> written" where
  "log_at l stack lg call out =
     (case call of
        Plain args \<Rightarrow>
          (if lgLevel lg \<le> l then log_write (''logger.go'' # stack) lg l (Sprint args) [] out else out)
      | Templated template args \<Rightarrow>
          (if lgLevel lg \<le> l then log_write (''logger.go'' # stack) lg l (Sprintf template args) [] out else out)
      | Structured message fs \<Rightarrow>
          (if lgLevel lg \<le> l then log_write (''logger.go'' # stack) lg l message fs out else out))"

text \<open>\<open>Sync\<close>: \<open>sync\<close> is the core's. \<open>Close\<close>: \<open>close\<close> closes a writer, if it can be closed.\<close>

definition log_Sync :: "(writer \<Rightarrow> string option) \<Rightarrow> logger \<Rightarrow> string option" where
  "log_Sync sync lg =
     (case lgWriter lg of
        LogFile f \<Rightarrow> sync (LogFile f)
      | _ \<Rightarrow> None)"

definition log_Close :: "(writer \<Rightarrow> (string option) option) \<Rightarrow> logger \<Rightarrow> string option" where
  "log_Close closer lg = (case closer (lgWriter lg) of Some result \<Rightarrow> result | None \<Rightarrow> None)"

subsection \<open>Options\<close>

record log_options =
  loWriteSyncer :: "writer option"
  loOutputFile :: string
  loLogLevel :: string
  loContext :: string

type_synonym log_option = "log_options \<Rightarrow> log_options"

definition WithLogLevel :: "string \<Rightarrow> log_option" where
  "WithLogLevel l o' = o'\<lparr>loLogLevel := l\<rparr>"

definition WithOutputFile :: "string \<Rightarrow> log_option" where
  "WithOutputFile file o' = o'\<lparr>loOutputFile := file\<rparr>"

definition WithContext :: "string \<Rightarrow> log_option" where
  "WithContext ctx o' = o'\<lparr>loContext := ctx\<rparr>"

definition WithWriteSyncer :: "writer \<Rightarrow> log_option" where
  "WithWriteSyncer ws o' = o'\<lparr>loWriteSyncer := Some ws\<rparr>"

definition default_options :: log_options where
  "default_options = \<lparr>loWriteSyncer = None, loOutputFile = ''stderr'', loLogLevel = ''warn'', loContext = ''''\<rparr>"

definition apply_options :: "log_option list \<Rightarrow> log_options" where
  "apply_options opts = fold (\<lambda>opt. opt) opts default_options"

text \<open>\<open>openf\<close> is \<open>os.OpenFile\<close>: the text of its error, if it fails.\<close>

definition NewLogger :: "(string \<Rightarrow> string option) \<Rightarrow> log_option list \<Rightarrow> string + logger" where
  "NewLogger openf opts =
     (let o' = apply_options opts
      in case map_of levelMap (loLogLevel o') of
           None \<Rightarrow> Inl (''unknown log level '' @ loLogLevel o')
         | Some l \<Rightarrow>
             (let w = (case loWriteSyncer o' of
                         Some ws \<Rightarrow> Inr ws
                       | None \<Rightarrow>
                           if loOutputFile o' = ''stdout'' then Inr Stdout
                           else if loOutputFile o' = ''stderr'' then Inr Stderr
                           else (case openf (loOutputFile o') of
                                   Some err \<Rightarrow> Inl err
                                 | None \<Rightarrow> Inr (LogFile (loOutputFile o'))))
              in case w of
                   Inl err \<Rightarrow> Inl err
                 | Inr w \<Rightarrow>
                     Inr \<lparr>lgWriter = w,
                          lgEncoder = (if w = Stdout \<or> w = Stderr then ConsoleEncoder else JSONEncoder),
                          lgLevel = l, lgContext = loContext o'\<rparr>))"

subsection \<open>The default logger\<close>

definition DefaultLogger_init :: "(string \<Rightarrow> string option) \<Rightarrow> logger go" where
  "DefaultLogger_init openf =
     (case NewLogger openf [WithOutputFile ''stderr'', WithLogLevel ''warn''] of
        Inl err \<Rightarrow> Panic
      | Inr lg \<Rightarrow> Ret lg)"

text \<open>The eighteen functions of the package, each a call of the default logger's method.\<close>

definition default_log_at :: "level \<Rightarrow> string list \<Rightarrow> logger \<Rightarrow> log_call \<Rightarrow> written \<Rightarrow> written" where
  "default_log_at l stack lg call out = log_at l (''default_logger.go'' # stack) lg call out"

subsection \<open>Specification\<close>

fun call_text :: "log_call \<Rightarrow> string" where
  "call_text (Plain args) = Sprint args"
| "call_text (Templated template args) = Sprintf template args"
| "call_text (Structured message _) = message"

fun call_fields :: "log_call \<Rightarrow> field list" where
  "call_fields (Structured _ fs) = fs"
| "call_fields _ = []"

section \<open>Lemmas\<close>

lemma log_at_eq:
  "log_at l (frame # stack) lg call out =
     (if lgLevel lg \<le> l
      then out @ [(lgWriter lg, lgEncoder lg, \<lparr>enLevel = l, enMessage = call_text call,
             enLoggerName = lgContext lg, enCaller = Some frame, enFields = call_fields call\<rparr>)]
      else out)"
  by (simp add: log_at_def log_write_def runtime_Caller_def split: log_call.split)

lemma level_String_inj: "level_String l = level_String l' \<longleftrightarrow> l = l'"
  by (cases l; cases l') simp_all

lemma levelMap_iff: "map_of levelMap s = Some l \<longleftrightarrow> s = level_String l \<and> l \<noteq> DPanicLevel"
  by (cases l) (auto simp: levelMap_def split: if_splits)

lemma NewLogger_Inr:
  assumes "NewLogger openf opts = Inr lg"
  shows "loLogLevel (apply_options opts) = level_String (lgLevel lg)" "lgLevel lg \<noteq> DPanicLevel"
    "lgContext lg = loContext (apply_options opts)"
    "lgEncoder lg = (if lgWriter lg \<in> {Stdout, Stderr} then ConsoleEncoder else JSONEncoder)"
proof -
  let ?o = "apply_options opts"
  obtain l where "map_of levelMap (loLogLevel ?o) = Some l" and l: "lgLevel lg = l"
    and rest: "lgContext lg = loContext ?o"
      "lgEncoder lg = (if lgWriter lg \<in> {Stdout, Stderr} then ConsoleEncoder else JSONEncoder)"
    using assms by (auto simp: NewLogger_def Let_def split: option.splits sum.splits if_splits)
  with levelMap_iff rest show "loLogLevel ?o = level_String (lgLevel lg)" "lgLevel lg \<noteq> DPanicLevel"
    "lgContext lg = loContext ?o"
    "lgEncoder lg = (if lgWriter lg \<in> {Stdout, Stderr} then ConsoleEncoder else JSONEncoder)"
    by auto
qed

lemma DefaultLogger_eq:
  "DefaultLogger_init openf = Ret \<lparr>lgWriter = Stderr, lgEncoder = ConsoleEncoder, lgLevel = WarnLevel, lgContext = ''''\<rparr>"
  by (simp add: DefaultLogger_init_def NewLogger_def apply_options_def default_options_def WithOutputFile_def
      WithLogLevel_def levelMap_def)

section \<open>Properties\<close>

text \<open>What a logger writes. Its level is the one its options name, one of six, and a call at some
  level adds one entry when the logger's level is not above it and nothing otherwise, with the text and
  the fields of the call, the logger's context and the file of the caller, encoded for a console
  on the standard streams and as JSON elsewhere. A call at the levels \<open>panic\<close> and \<open>fatal\<close> does no more:
  it neither panics nor ends the process.\<close>

theorem logger_writes:
  assumes "NewLogger openf opts = Inr lg"
  shows "level_String (lgLevel lg) = loLogLevel (apply_options opts)
    \<and> lgLevel lg \<noteq> DPanicLevel
    \<and> log_at l (frame # stack) lg call out =
        out @ (if lgLevel lg \<le> l
          then [(lgWriter lg, if lgWriter lg \<in> {Stdout, Stderr} then ConsoleEncoder else JSONEncoder,
                 \<lparr>enLevel = l, enMessage = call_text call, enLoggerName = loContext (apply_options opts),
                  enCaller = Some frame, enFields = call_fields call\<rparr>)]
          else [])"
  using NewLogger_Inr [OF assms] by (simp add: log_at_eq)

definition sidecar_options :: "log_option list" where
  "sidecar_options = [WithContext ''sidecar'', WithLogLevel ''info'', WithOutputFile ''agent.log'']"

lemma logger_writes_witness:
  "\<exists>lg. NewLogger (\<lambda>_. None) sidecar_options = Inr lg
     \<and> log_at FatalLevel [''types.go''] lg (Structured ''provisioner run failed'' []) [] =
         [(LogFile ''agent.log'', JSONEncoder, \<lparr>enLevel = FatalLevel, enMessage = ''provisioner run failed'',
           enLoggerName = ''sidecar'', enCaller = Some ''types.go'', enFields = []\<rparr>)]"
proof -
  let ?lg = "\<lparr>lgWriter = LogFile ''agent.log'', lgEncoder = JSONEncoder, lgLevel = InfoLevel, lgContext = ''sidecar''\<rparr>"
  have "NewLogger (\<lambda>_. None) sidecar_options = Inr ?lg"
    by (simp add: NewLogger_def sidecar_options_def apply_options_def default_options_def WithOutputFile_def
      WithLogLevel_def WithContext_def levelMap_def)
  with logger_writes [OF this, of FatalLevel "''types.go''" "[]"] show ?thesis
    by (simp add: less_eq_level_def sidecar_options_def apply_options_def default_options_def WithOutputFile_def
      WithLogLevel_def WithContext_def)
qed

text \<open>The functions of the package log to the default logger, from level \<open>warn\<close> on and to the
  standard error stream as long as nothing else is configured. Whoever calls them, the entries name the
  file of the package itself as their caller: the frame of the function is one more than the methods
  are called through.\<close>

theorem default_logger_caller:
  "\<exists>lg. DefaultLogger_init openf = Ret lg
    \<and> default_log_at l stack lg call out =
        out @ (if WarnLevel \<le> l
          then [(Stderr, ConsoleEncoder, \<lparr>enLevel = l, enMessage = call_text call, enLoggerName = '''',
                 enCaller = Some ''default_logger.go'', enFields = call_fields call\<rparr>)]
          else [])"
  by (simp add: DefaultLogger_eq default_log_at_def log_at_eq)

end
