(* ===== verification/File_Watch.thy ===== *)
theory File_Watch
  imports File_Provisioner Agent_Log
begin

text \<open>
  \<open>Run\<close> of the file provisioner (\<open>pkg/provisioner/xds/v3/file/types.go\<close>) with its watcher: the initial
  files, the watches, and the loop over what arrives, in the order in which it is taken: a stop, an
  error of the watcher, or an event, whose operation is a bit mask. What fsnotify delivers is the
  input; adding a watch, closing the watcher and the text of an operation are arguments.
\<close>

section \<open>Definitions\<close>

text \<open>The operations of fsnotify; the switch of \<open>Run\<close> compares the whole mask.\<close>

definition fsCreate :: "32 word" where "fsCreate = 1"
definition fsWrite :: "32 word" where "fsWrite = 2"
definition fsRemove :: "32 word" where "fsRemove = 4"
definition fsRename :: "32 word" where "fsRename = 8"
definition fsChmod :: "32 word" where "fsChmod = 16"

definition op_of :: "32 word \<Rightarrow> file_op" where
  "op_of op = (if op = fsCreate then FsCreate else if op = fsWrite then FsWrite
     else if op = fsRemove then FsRemove else FsOther)"

datatype watch_input =
    WatchStop "string option"
  | WatchError string
  | WatchEvent "32 word" string file_content

text \<open>How \<open>Run\<close> ends: it returns nil after a stop, it returns an error, or it waits.\<close>

datatype watch_end = Stopped | RunFailed string | Watching

text \<open>What \<open>handleFileEvent\<close> logs of a file that cannot be used; the texts of the errors are an argument.\<close>

definition content_log :: "logger \<Rightarrow> (file_content \<Rightarrow> string) \<Rightarrow> file_op \<Rightarrow> string \<Rightarrow> string \<Rightarrow> file_content \<Rightarrow> written \<Rightarrow> written" where
  "content_log lg err op opname name content out =
     (if op = FsRemove then out
      else
        let fs = [(''error'', err content), (''filename'', name), (''type'', opname)]
        in case content of
             ReadError \<Rightarrow> log_at ErrorLevel [''types.go''] lg (Structured ''failed to read file'' fs) out
           | NotJson \<Rightarrow> log_at ErrorLevel [''types.go''] lg (Structured ''failed to unmarshal file'' fs) out
           | Response _ \<Rightarrow> out)"

fun watch_loop ::
    "proto_lib \<Rightarrow> decoders \<Rightarrow> (string, unit) iter \<Rightarrow> (32 word \<Rightarrow> string) \<Rightarrow> (file_content \<Rightarrow> string) \<Rightarrow> logger
       \<Rightarrow> file_provisioner \<Rightarrow> watch_input list \<Rightarrow> written
       \<Rightarrow> (file_provisioner \<times> event list list \<times> written \<times> watch_end) go" where
  "watch_loop pl dec ordh opstr err lg p [] out = Ret (p, [], out, Watching)"
| "watch_loop pl dec ordh opstr err lg p (WatchStop closing # rest) out =
     Ret (p, [], (case closing of
        None \<Rightarrow> out
      | Some e \<Rightarrow> log_at ErrorLevel [''types.go''] lg (Structured ''failed to close watcher'' [(''error'', e)]) out), Stopped)"
| "watch_loop pl dec ordh opstr err lg p (WatchError e # rest) out =
     watch_loop pl dec ordh opstr err lg p rest
       (log_at ErrorLevel [''types.go''] lg (Structured ''detected watch errors'' [(''error'', e)]) out)"
| "watch_loop pl dec ordh opstr err lg p (WatchEvent op name content # rest) out =
     (let fs = [(''filename'', name), (''type'', opstr op)]
      in if op_of op = FsOther then
           watch_loop pl dec ordh opstr err lg p rest
             (log_at DebugLevel [''types.go''] lg (Structured ''ignore unnecessary file change event'' fs) out)
         else
           let out1 = log_at InfoLevel [''types.go''] lg (Structured ''file change event arrived'' fs) out;
               out2 = content_log lg err (op_of op) (opstr op) name content out1
           in go_bind (handleFileEvent pl dec ordh p (op_of op) name content) (\<lambda>(p1, evs).
                go_bind (watch_loop pl dec ordh opstr err lg p1 rest out2) (\<lambda>(p2, batches, out3, e).
                  Ret (p2, file_batch evs @ batches, out3, e))))"

fun add_watches :: "(string \<Rightarrow> string option) \<Rightarrow> string list \<Rightarrow> string option" where
  "add_watches add [] = None"
| "add_watches add (f # fs) = (case add f of Some err \<Rightarrow> Some err | None \<Rightarrow> add_watches add fs)"

text \<open>\<open>Run\<close>. The channel of events is closed exactly when it does not go on watching.\<close>

definition watch_Run ::
    "proto_lib \<Rightarrow> decoders \<Rightarrow> (string, unit) iter \<Rightarrow> (32 word \<Rightarrow> string) \<Rightarrow> (file_content \<Rightarrow> string) \<Rightarrow> logger
       \<Rightarrow> (string \<Rightarrow> path_info) \<Rightarrow> (string \<Rightarrow> file_content) \<Rightarrow> (string \<Rightarrow> string option)
       \<Rightarrow> file_provisioner \<Rightarrow> string list \<Rightarrow> watch_input list \<Rightarrow> written
       \<Rightarrow> (file_provisioner \<times> event list list \<times> written \<times> watch_end) go" where
  "watch_Run pl dec ordh opstr err lg stat readf add p files inputs out =
     (let info = (\<lambda>message. log_at InfoLevel [''types.go''] lg (Structured message []));
          exited = info ''xds v3 file provisioner exited'';
          out1 = info ''xds v3 file provisioner started'' out
      in go_bind (handleInitialFileEvents pl dec ordh stat readf p files) (\<lambda>(failed, p1, batches).
           let out2 = (case initial_files stat files of
                  Inl _ \<Rightarrow> out1
                | Inr fs \<Rightarrow> fold (\<lambda>f. content_log lg err FsWrite (opstr fsWrite) f (readf f)) fs out1)
           in case failed of
                Some e \<Rightarrow> Ret (p1, batches, exited out2, RunFailed e)
              | None \<Rightarrow>
                  (case add_watches add files of
                     Some e \<Rightarrow> Ret (p1, batches, exited out2, RunFailed e)
                   | None \<Rightarrow>
                       go_bind (watch_loop pl dec ordh opstr err lg p1 inputs out2) (\<lambda>(p2, more, out3, e).
                         Ret (p2, batches @ more, if e = Watching then out3 else exited out3, e)))))"

subsection \<open>Specification\<close>

text \<open>The file events an input stands for: those before the first stop.\<close>

definition is_stop :: "watch_input \<Rightarrow> bool" where
  "is_stop i = (case i of WatchStop _ \<Rightarrow> True | _ \<Rightarrow> False)"

fun file_events :: "watch_input list \<Rightarrow> (file_op \<times> string \<times> file_content) list" where
  "file_events [] = []"
| "file_events (WatchEvent op name content # rest) = (op_of op, name, content) # file_events rest"
| "file_events (WatchStop _ # rest) = []"
| "file_events (WatchError _ # rest) = file_events rest"

section \<open>Lemmas\<close>

lemma file_Run_filter:
  "file_Run pl dec ordh p (filter (\<lambda>(op, _). op \<noteq> FsOther) xs) = file_Run pl dec ordh p xs"
  by (induction xs arbitrary: p) auto

lemma op_of_other [simp]: "op_of fsRename = FsOther" "op_of fsChmod = FsOther" "op_of (fsCreate OR fsWrite) = FsOther"
  by (simp_all add: op_of_def fsCreate_def fsWrite_def fsRemove_def fsRename_def fsChmod_def)

lemma op_of_FsOther: "op_of op = FsOther \<longleftrightarrow> op \<notin> {fsCreate, fsWrite, fsRemove}"
  by (auto simp: op_of_def)

lemma file_Run_append:
  "file_Run pl dec ordh p (xs @ ys) =
     go_bind (file_Run pl dec ordh p xs) (\<lambda>(p1, b1).
       go_bind (file_Run pl dec ordh p1 ys) (\<lambda>(p2, b2). Ret (p2, b1 @ b2)))"
proof (induction xs arbitrary: p)
  case Nil
  show ?case by (cases "file_Run pl dec ordh p ys") auto
next
  case (Cons x xs)
  obtain op f c where x: "x = (op, f, c)" by (cases x)
  show ?case
  proof (cases "op = FsOther")
    case False
    show ?thesis
      by (cases "handleFileEvent pl dec ordh p op f c") (auto simp: x False Cons.IH go_bind_def split_beta split: go.split)
  qed (simp add: x Cons.IH)
qed

lemma watch_loop_events:
  "watch_loop pl dec ordh opstr err lg p inputs out = Ret (p', batches, out', e) \<Longrightarrow>
     file_Run pl dec ordh p (file_events inputs) = Ret (p', batches)
     \<and> e = (if list_ex is_stop inputs then Stopped else Watching)"
proof (induction inputs arbitrary: p out batches out')
  case (Cons i rest)
  then show ?case
    by (cases i) (auto simp: is_stop_def Let_def go_bind_Ret_iff split: if_splits)
qed simp

lemma watch_loop_panic:
  "watch_loop pl dec ordh opstr err lg p inputs out = Panic \<longleftrightarrow> file_Run pl dec ordh p (file_events inputs) = Panic"
proof (induction inputs arbitrary: p out)
  case (Cons i rest)
  then show ?case
    by (cases i) (auto simp: Let_def go_bind_Panic_iff split_beta)
qed simp

text \<open>A file event leaves what the provisioner has for the other files.\<close>

lemma file_event_other:
  assumes "handleFileEvent pl dec ordh p op file content = Ret (p', evs)" "g \<noteq> file"
  shows "state_at p' g = state_at p g"
proof (cases "op = FsRemove")
  case True
  with assms show ?thesis
    by (auto simp: handleFileEvent_def file_generateEvents_def Let_def state_at_def map_of_update split: option.splits)
next
  case False
  show ?thesis
  proof (cases content)
    case (Response dr)
    with assms(1) False have "generateEventsFromDiscoveryResponseV3 pl dec ordh p file dr = Ret (p', evs)"
      by (simp add: handleFileEvent_def)
    then obtain p1 rm upd where "resource_loop pl dec ordh p (drResources dr) zero_manifest [] = Ret (p1, rm, upd)"
      "state_at p' g = state_at p1 g"
      using assms(2) by (blast elim: file_state_after)
    with resource_loop_state [OF this(1)] show ?thesis by (simp add: state_at_def)
  qed (use assms False in \<open>simp_all add: handleFileEvent_def\<close>)
qed

text \<open>So a file that has a second name is a second file: what is read under the new name is added, whatever
  the old name had, and what the old name had is never deleted.\<close>

lemma other_name_added_again:
  assumes "handleFileEvent pl dec ordh p FsWrite name (Response dr) = Ret (p', evs)"
    and "state_at p name = None" "old \<noteq> name"
  shows "state_at p' old = state_at p old \<and> (\<forall>ev \<in> set evs. eType ev \<noteq> EventDelete)"
proof -
  from assms(1) have "generateEventsFromDiscoveryResponseV3 pl dec ordh p name dr = Ret (p', evs)"
    by (simp add: handleFileEvent_def)
  then obtain p1 rm upd where r: "resource_loop pl dec ordh p (drResources dr) zero_manifest [] = Ret (p1, rm, upd)"
    and evs: "evs = generateEvents pl (Some rm) (state_at p1 name)
       @ map (\<lambda>ups. mk_event EventUpdate (OUpstream ups) ONil) upd"
    by (blast elim: file_state_after)
  have "state_at p1 name = None"
    using resource_loop_state [OF r] assms(2) by (simp add: state_at_def)
  then have "\<forall>ev \<in> set evs. eType ev \<noteq> EventDelete"
    by (auto simp: evs generateEvents_new manifest_Events_def route_event_def upstream_event_def)
  with file_event_other [OF assms(1,3)] show ?thesis by simp
qed

lemma watch_run_events:
  assumes "watch_Run pl dec ordh opstr err lg stat readf add p files inputs out = Ret (p', batches, out', e)"
  shows "file_Run pl dec ordh p
      (case initial_files stat files of
         Inl _ \<Rightarrow> []
       | Inr fs \<Rightarrow> map (\<lambda>f. (FsWrite, f, readf f)) fs
           @ (if add_watches add files = None then filter (\<lambda>(op, _). op \<noteq> FsOther) (file_events inputs) else []))
      = Ret (p', batches)
    \<and> e = (case initial_files stat files of
         Inl err \<Rightarrow> RunFailed err
       | Inr fs \<Rightarrow>
           (case add_watches add files of
              Some err \<Rightarrow> RunFailed err
            | None \<Rightarrow> if list_ex is_stop inputs then Stopped else Watching))"
proof (cases "initial_files stat files")
  case (Inl err)
  with assms show ?thesis by (auto simp: watch_Run_def handleInitialFileEvents_def Let_def)
next
  case (Inr fs)
  let ?init = "map (\<lambda>f. (FsWrite, f, readf f)) fs"
  from assms Inr obtain p1 b1 where init: "file_Run pl dec ordh p ?init = Ret (p1, b1)"
    by (auto simp: watch_Run_def handleInitialFileEvents_def Let_def go_bind_Ret_iff)
  show ?thesis
  proof (cases "add_watches add files")
    case (Some err')
    with assms Inr init show ?thesis
      by (simp add: watch_Run_def handleInitialFileEvents_def Let_def)
  next
    case None
    with assms Inr init obtain b2 o1 o2 where "watch_loop pl dec ordh opstr err lg p1 inputs o1 = Ret (p', b2, o2, e)"
      "batches = b1 @ b2"
      by (auto simp: watch_Run_def handleInitialFileEvents_def Let_def go_bind_Ret_iff)
    with watch_loop_events [OF this(1)] None Inr init show ?thesis
      by (simp add: file_Run_append file_Run_filter)
  qed
qed

section \<open>Properties\<close>



end
