(* ===== verification/Agent_Config.thy ===== *)
theory Agent_Config
  imports Agent_Log Go_Net File_Provisioner Grpc_Provisioner
begin

text \<open>
  \<open>pkg/config/types.go\<close> and what creates the provisioners from it: the configuration with its
  defaults and its validation, and the constructors of the two provisioners with the checks they
  make themselves. What they ask of the machine is a \<open>machine\<close>: opening a log file and making a file
  watcher, each with the text of its error, if it fails. The run id is random, an argument.
\<close>

section \<open>Definitions\<close>

subsection \<open>Configurations\<close>

definition XDSV3FileProvisioner :: string where "XDSV3FileProvisioner = ''xds-v3-file''"
definition XDSV3GRPCProvisioner :: string where "XDSV3GRPCProvisioner = ''xds-v3-grpc''"
definition StandaloneMode :: string where "StandaloneMode = ''standalone''"
definition BundleMode :: string where "BundleMode = ''bundle''"
definition DefaultAPISIXHomePath :: string where "DefaultAPISIXHomePath = ''/usr/local/apisix''"
definition DefaultAPISIXBinPath :: string where "DefaultAPISIXBinPath = ''/usr/local/bin/apisix''"
definition DefaultGRPCListen :: string where "DefaultGRPCListen = ''127.0.0.1:2379''"
definition DefaultEtcdKeyPrefix :: string where "DefaultEtcdKeyPrefix = ''/apisix''"

definition ErrUnknownProvisioner :: string where "ErrUnknownProvisioner = ''unknown provisioner''"
definition ErrBadGRPCListen :: string where "ErrBadGRPCListen = ''bad grpc listen address''"
definition ErrEmptyXDSConfigSource :: string where
  "ErrEmptyXDSConfigSource = ''empty xds config source, --xds-config-source option is required''"

record running_context =
  PodNamespace :: string
  IPAddress :: string

record config =
  RunId :: string
  LogLevel :: string
  LogOutput :: string
  Provisioner :: string
  XDSWatchFiles :: "string list"
  XDSConfigSource :: string
  GRPCListen :: string
  EtcdKeyPrefix :: string
  RunMode :: string
  APISIXHomePath :: string
  APISIXBinPath :: string
  RunningContext :: running_context

definition NewDefaultConfig :: "string \<Rightarrow> running_context \<Rightarrow> config" where
  "NewDefaultConfig uuid ctx = \<lparr>RunId = uuid, LogLevel = ''info'', LogOutput = ''stderr'',
     Provisioner = XDSV3FileProvisioner, XDSWatchFiles = [], XDSConfigSource = '''',
     GRPCListen = DefaultGRPCListen, EtcdKeyPrefix = DefaultEtcdKeyPrefix, RunMode = StandaloneMode,
     APISIXHomePath = DefaultAPISIXHomePath, APISIXBinPath = DefaultAPISIXBinPath, RunningContext = ctx\<rparr>"

definition Validate :: "config \<Rightarrow> string option" where
  "Validate cfg =
     (if Provisioner cfg = '''' then Some ''unspecified provisioner''
      else if Provisioner cfg \<noteq> XDSV3FileProvisioner \<and> Provisioner cfg \<noteq> XDSV3GRPCProvisioner
        then Some ErrUnknownProvisioner
      else if Provisioner cfg = XDSV3GRPCProvisioner \<and> XDSConfigSource cfg = '''' then Some ErrEmptyXDSConfigSource
      else
        case SplitHostPort (GRPCListen cfg) of
          Inl _ \<Rightarrow> Some ErrBadGRPCListen
        | Inr (ip, port) \<Rightarrow>
            (if ParseIP ip = None then Some ErrBadGRPCListen
             else
               case Atoi port of
                 None \<Rightarrow> Some ErrBadGRPCListen
               | Some pnum \<Rightarrow> if pnum < 1 \<or> pnum > 65535 then Some ErrBadGRPCListen else None))"

text \<open>
  The running context: \<open>getenv\<close> is the environment; the interfaces of the machine have a name and
  their addresses in CIDR notation, and reading either can fail.
\<close>

fun interface_address :: "(string \<times> string list option) list \<Rightarrow> string \<Rightarrow> string go" where
  "interface_address [] ipAddr = Ret ipAddr"
| "interface_address ((name, addrs) # ifaces) ipAddr =
     (if name \<noteq> ''lo'' then
        (case addrs of
           None \<Rightarrow> Panic
         | Some [] \<Rightarrow> interface_address ifaces ipAddr
         | Some (a # _) \<Rightarrow> interface_address ifaces (hd (Split a (CHR ''/''))))
      else interface_address ifaces ipAddr)"

definition getRunningContext ::
    "(string \<Rightarrow> string) \<Rightarrow> (string \<times> string list option) list option \<Rightarrow> running_context go" where
  "getRunningContext getenv interfaces =
     (let namespace = (if getenv ''POD_NAMESPACE'' \<noteq> '''' then getenv ''POD_NAMESPACE'' else ''default'')
      in case interfaces of
           None \<Rightarrow> Panic
         | Some ifaces \<Rightarrow>
             go_bind (interface_address ifaces '''') (\<lambda>ipAddr.
               Ret \<lparr>PodNamespace = namespace, IPAddress = (if ipAddr = '''' then ''127.0.0.1'' else ipAddr)\<rparr>))"

subsection \<open>Provisioners\<close>

definition GenNodeId :: "string \<Rightarrow> string \<Rightarrow> string \<Rightarrow> string" where
  "GenNodeId runId ipAddr dnsDomain = ''sidecar~'' @ ipAddr @ ''~'' @ runId @ ''~'' @ dnsDomain"

record machine =
  mcOpen :: "string \<Rightarrow> string option"
  mcWatcher :: "string option"

definition new_logger :: "machine \<Rightarrow> config \<Rightarrow> string \<Rightarrow> string + logger" where
  "new_logger mc cfg ctx = NewLogger (mcOpen mc) [WithOutputFile (LogOutput cfg), WithLogLevel (LogLevel cfg), WithContext ctx]"

definition NewAdaptor :: "machine \<Rightarrow> config \<Rightarrow> string + logger" where
  "NewAdaptor mc cfg = new_logger mc cfg ''xds_v3_adaptor''"

text \<open>A provisioner with what its constructor sets up: its initial state, and the files to watch or
  the node and the address of the control plane.\<close>

datatype provisioner =
    XdsFile file_provisioner "string list"
  | XdsGrpc grpc_provisioner string string

definition file_NewXDSProvisioner :: "machine \<Rightarrow> config \<Rightarrow> string + provisioner" where
  "file_NewXDSProvisioner mc cfg =
     (if length (XDSWatchFiles cfg) = 0 then Inl ''xds-v3-file provisioner: no watch files''
      else
        case mcWatcher mc of
          Some err \<Rightarrow> Inl err
        | None \<Rightarrow>
            (case new_logger mc cfg ''xds-file-provisioner'' of
               Inl err \<Rightarrow> Inl err
             | Inr _ \<Rightarrow>
                 (case NewAdaptor mc cfg of
                    Inl err \<Rightarrow> Inl err
                  | Inr _ \<Rightarrow> Inr (XdsFile NewFileProvisioner (XDSWatchFiles cfg)))))"

definition grpc_NewXDSProvisioner :: "machine \<Rightarrow> config \<Rightarrow> string + provisioner" where
  "grpc_NewXDSProvisioner mc cfg =
     (if \<not> HasPrefix (XDSConfigSource cfg) ''grpc://'' then Inl ''bad xds config source''
      else
        let cs = TrimPrefix (XDSConfigSource cfg) ''grpc://''
        in case new_logger mc cfg ''xds-grpc-provisioner'' of
             Inl err \<Rightarrow> Inl err
           | Inr _ \<Rightarrow>
               (case NewAdaptor mc cfg of
                  Inl err \<Rightarrow> Inl err
                | Inr _ \<Rightarrow>
                    let dnsDomain = PodNamespace (RunningContext cfg) @ ''.svc.cluster.local''
                    in Inr (XdsGrpc NewGrpcProvisioner
                             (GenNodeId (RunId cfg) (IPAddress (RunningContext cfg)) dnsDomain) cs)))"

definition newProvisioner :: "machine \<Rightarrow> config \<Rightarrow> string + provisioner" where
  "newProvisioner mc cfg =
     (if Provisioner cfg = XDSV3FileProvisioner then file_NewXDSProvisioner mc cfg
      else if Provisioner cfg = XDSV3GRPCProvisioner then grpc_NewXDSProvisioner mc cfg
      else Inl ErrUnknownProvisioner)"

subsection \<open>Specification\<close>

text \<open>The addresses the validation accepts.\<close>

definition listen_ok :: "string \<Rightarrow> bool" where
  "listen_ok s \<longleftrightarrow> (\<exists>ip port n. plain_host ip \<and> plain_host port \<and> CHR '':'' \<notin> set port
     \<and> (s = ''['' @ ip @ '']:'' @ port \<or> (s = ip @ '':'' @ port \<and> CHR '':'' \<notin> set ip))
     \<and> ParseIP ip \<noteq> None \<and> Atoi port = Some n \<and> 1 \<le> n \<and> n \<le> 65535)"

text \<open>A dotted address with a port, in the usual form.\<close>

definition dotted :: "nat \<Rightarrow> nat \<Rightarrow> nat \<Rightarrow> nat \<Rightarrow> string" where
  "dotted a b c d = fmt_d a @ ''.'' @ fmt_d b @ ''.'' @ fmt_d c @ ''.'' @ fmt_d d"

text \<open>A machine on which nothing fails.\<close>

definition works :: "machine \<Rightarrow> bool" where
  "works mc \<longleftrightarrow> (\<forall>f. mcOpen mc f = None) \<and> mcWatcher mc = None"

text \<open>What the provisioners ask of a configuration besides.\<close>

definition startable :: "config \<Rightarrow> bool" where
  "startable cfg \<longleftrightarrow> map_of levelMap (LogLevel cfg) \<noteq> None
     \<and> (if Provisioner cfg = XDSV3FileProvisioner then XDSWatchFiles cfg \<noteq> []
        else HasPrefix (XDSConfigSource cfg) ''grpc://'')"

section \<open>Lemmas\<close>

lemmas provisioner_names = XDSV3FileProvisioner_def XDSV3GRPCProvisioner_def

lemma names_differ [simp]:
  "XDSV3FileProvisioner \<noteq> XDSV3GRPCProvisioner" "XDSV3GRPCProvisioner \<noteq> XDSV3FileProvisioner"
  "XDSV3FileProvisioner \<noteq> ''''" "XDSV3GRPCProvisioner \<noteq> ''''"
  "'''' \<noteq> XDSV3FileProvisioner" "'''' \<noteq> XDSV3GRPCProvisioner"
  by (simp_all add: provisioner_names)

lemma listen_ok_Validate:
  assumes "Provisioner cfg \<in> {XDSV3FileProvisioner, XDSV3GRPCProvisioner}"
    and "\<not> (Provisioner cfg = XDSV3GRPCProvisioner \<and> XDSConfigSource cfg = '''')"
  shows "Validate cfg = (if listen_ok (GRPCListen cfg) then None else Some ErrBadGRPCListen)"
proof -
  have lo: "listen_ok (GRPCListen cfg) \<longleftrightarrow> (\<exists>ip port n. SplitHostPort (GRPCListen cfg) = Inr (ip, port)
      \<and> ParseIP ip \<noteq> None \<and> Atoi port = Some n \<and> 1 \<le> n \<and> n \<le> 65535)"
    unfolding listen_ok_def SplitHostPort_iff by blast
  have v: "Validate cfg = (case SplitHostPort (GRPCListen cfg) of
      Inl _ \<Rightarrow> Some ErrBadGRPCListen
    | Inr (ip, port) \<Rightarrow>
        (if ParseIP ip = None then Some ErrBadGRPCListen
         else case Atoi port of
             None \<Rightarrow> Some ErrBadGRPCListen
           | Some pnum \<Rightarrow> if pnum < 1 \<or> pnum > 65535 then Some ErrBadGRPCListen else None))"
    using assms by (auto simp: Validate_def)
  show ?thesis
  proof (cases "SplitHostPort (GRPCListen cfg)")
    case (Inl e)
    then show ?thesis unfolding v lo by simp
  next
    case (Inr hp)
    then show ?thesis unfolding v lo by (cases hp) (auto simp: not_less split: option.split)
  qed
qed

lemma Validate_iff:
  "Validate cfg = None \<longleftrightarrow>
    (if Provisioner cfg = XDSV3GRPCProvisioner then XDSConfigSource cfg \<noteq> '''' else Provisioner cfg = XDSV3FileProvisioner)
    \<and> listen_ok (GRPCListen cfg)"
proof (cases "Provisioner cfg \<in> {XDSV3FileProvisioner, XDSV3GRPCProvisioner}
    \<and> \<not> (Provisioner cfg = XDSV3GRPCProvisioner \<and> XDSConfigSource cfg = '''')")
  case True
  then show ?thesis by (subst listen_ok_Validate) auto
next
  case False
  then show ?thesis by (auto simp: Validate_def)
qed

lemma ParseIP_at_dot: "\<forall>c \<in> set a. dec_char c \<Longrightarrow> ParseIP_at s (a @ CHR ''.'' # b) =
    map_option (\<lambda>bs. replicate 10 0 @ [255, 255] @ bs) (parseIPv4 s)"
  by (induction a) auto

lemma dec_byte_fmt_d: "n \<le> 255 \<Longrightarrow> dec_byte (fmt_d n)"
  using fmt_d_dec by (simp add: dec_byte_def)

lemma ParseIP_dotted:
  assumes "a \<le> 255" "b \<le> 255" "c \<le> 255" "d \<le> 255"
  shows "ParseIP (dotted a b c d) = Some (replicate 10 0 @ [255, 255, a, b, c, d])"
  using parseIPv4_bytes [OF assms [THEN dec_byte_fmt_d]] fmt_d_dec [of a]
  by (simp add: ParseIP_def dotted_def ParseIP_at_dot)

lemma fmt_d_special [simp]: "CHR '':'' \<notin> set (fmt_d n)" "CHR ''['' \<notin> set (fmt_d n)" "CHR '']'' \<notin> set (fmt_d n)"
  using fmt_d_dec [of n] dec_char_not by blast+

lemma dotted_plain: "plain_host (dotted a b c d)" "CHR '':'' \<notin> set (dotted a b c d)"
  by (simp_all add: plain_host_def dotted_def)

lemma listen_ok_dotted:
  assumes "a \<le> 255" "b \<le> 255" "c \<le> 255" "d \<le> 255"
  shows "listen_ok (dotted a b c d @ '':'' @ fmt_d p) \<longleftrightarrow> 1 \<le> p \<and> p \<le> 65535"
proof -
  let ?s = "dotted a b c d @ '':'' @ fmt_d p"
  have plain: "plain_host (fmt_d p)" "CHR '':'' \<notin> set (fmt_d p)"
    by (simp_all add: plain_host_def)
  have "SplitHostPort ?s = Inr (dotted a b c d, fmt_d p)"
    unfolding SplitHostPort_iff using dotted_plain plain by blast
  then have split: "SplitHostPort ?s = Inr (ip, port) \<longleftrightarrow> ip = dotted a b c d \<and> port = fmt_d p" for ip port
    by auto
  have "listen_ok ?s \<longleftrightarrow> (\<exists>ip port n. SplitHostPort ?s = Inr (ip, port)
      \<and> ParseIP ip \<noteq> None \<and> Atoi port = Some n \<and> 1 \<le> n \<and> n \<le> 65535)"
    unfolding listen_ok_def SplitHostPort_iff by blast
  then show ?thesis
    unfolding split using ParseIP_dotted [OF assms] by (auto simp: Atoi_fmt_d)
qed

definition example_context :: running_context where
  "example_context = \<lparr>PodNamespace = ''default'', IPAddress = ''10.0.0.2''\<rparr>"

abbreviation default_config :: config where
  "default_config \<equiv> NewDefaultConfig ''r'' example_context"

abbreviation quiet_machine :: machine where
  "quiet_machine \<equiv> \<lparr>mcOpen = (\<lambda>_. None), mcWatcher = None\<rparr>"

lemma listen_ok_default: "listen_ok DefaultGRPCListen"
proof -
  have "DefaultGRPCListen = dotted 127 0 0 1 @ '':'' @ fmt_d 2379"
    by (simp add: DefaultGRPCListen_def dotted_def fmt_d_def digits.simps digit_char_def)
  then show ?thesis using listen_ok_dotted [of 127 0 0 1 2379] by simp
qed

lemma default_config_valid: "Validate default_config = None"
  by (subst listen_ok_Validate) (simp_all add: NewDefaultConfig_def listen_ok_default)

definition logger_for :: "config \<Rightarrow> level \<Rightarrow> string \<Rightarrow> logger" where
  "logger_for cfg l ctx =
     (let w = (if LogOutput cfg = ''stdout'' then Stdout else if LogOutput cfg = ''stderr'' then Stderr
               else LogFile (LogOutput cfg))
      in \<lparr>lgWriter = w, lgEncoder = (if w = Stdout \<or> w = Stderr then ConsoleEncoder else JSONEncoder),
          lgLevel = l, lgContext = ctx\<rparr>)"

lemma new_logger_works:
  assumes "works mc"
  shows "new_logger mc cfg ctx =
    (case map_of levelMap (LogLevel cfg) of
       None \<Rightarrow> Inl (''unknown log level '' @ LogLevel cfg)
     | Some l \<Rightarrow> Inr (logger_for cfg l ctx))"
  using assms
  by (simp add: new_logger_def NewLogger_def works_def apply_options_def default_options_def WithOutputFile_def
      WithLogLevel_def WithContext_def logger_for_def Let_def split: option.split)

text \<open>A validated configuration need not be usable. On a machine where nothing fails, a provisioner
  is made of it exactly when its log level is known and, besides, it has files to watch or a source
  that starts with \<open>grpc://\<close>; the validation asks for none of these, and accepts the default
  configuration, of which no provisioner can be made.\<close>

lemma validated_but_refused:
  assumes "works mc" "Validate cfg = None"
  shows "(\<exists>p. newProvisioner mc cfg = Inr p) \<longleftrightarrow> startable cfg"
proof -
  have "Provisioner cfg = XDSV3FileProvisioner \<or> Provisioner cfg = XDSV3GRPCProvisioner"
    using assms(2) by (auto simp: Validate_def split: if_splits)
  then show ?thesis
    using assms(1)
    by (auto simp: newProvisioner_def startable_def file_NewXDSProvisioner_def grpc_NewXDSProvisioner_def
        NewAdaptor_def new_logger_works Let_def works_def split: option.split)
qed

lemma default_refused:
  "Validate (NewDefaultConfig uuid ctx) = None"
  "newProvisioner mc (NewDefaultConfig uuid ctx) = Inl ''xds-v3-file provisioner: no watch files''"
  by (subst listen_ok_Validate, simp_all add: NewDefaultConfig_def listen_ok_default newProvisioner_def
      file_NewXDSProvisioner_def)

section \<open>Properties\<close>

text \<open>C30: which configurations the validation accepts. The provisioner is one of two, the one over gRPC
  has a source, and the listen address is an IP address, in brackets or without a colon of its own,
  and a port from 1 to 65535. For a dotted address, the bytes that are parsed are those printed.\<close>

theorem config_validation:
  assumes "a \<le> 255" "b \<le> 255" "c \<le> 255" "d \<le> 255"
  shows "(Validate cfg = None \<longleftrightarrow>
      (if Provisioner cfg = XDSV3GRPCProvisioner then XDSConfigSource cfg \<noteq> '''' else Provisioner cfg = XDSV3FileProvisioner)
      \<and> listen_ok (GRPCListen cfg))
    \<and> (listen_ok (dotted a b c d @ '':'' @ fmt_d p) \<longleftrightarrow> 1 \<le> p \<and> p \<le> 65535)
    \<and> ParseIP (dotted a b c d) = Some (replicate 10 0 @ [255, 255, a, b, c, d])"
  using Validate_iff [of cfg] listen_ok_dotted [OF assms] ParseIP_dotted [OF assms] by blast

lemma config_validation_witness:
  "ParseIP ''127.0.0.1'' = Some (replicate 10 0 @ [255, 255, 127, 0, 0, 1])"
proof -
  have "''127.0.0.1'' = dotted 127 0 0 1"
    by (simp add: dotted_def fmt_d_def digits.simps digit_char_def)
  then show ?thesis using config_validation [of 127 0 0 1] by simp
qed

end
