(* ===== verification/Iptables_Rules.thy ===== *)
theory Iptables_Rules
  imports Go_Strings
begin

text \<open>
  \<open>cmd/iptables\<close>: the rules that redirect a pod's TCP traffic to APISIX, and their cleanup. The
  rules are appended to a builder of Istio's (a third-party package), whose \<open>BuildV4\<close> is the
  argument \<open>build\<close>. What the resulting commands do is stated over a reference semantics of the
  few commands, matches and targets of iptables(8) that occur: which packets are redirected
  where after the setup, and what is left after the cleanup.
\<close>

section \<open>Definitions\<close>

subsection \<open>The setup\<close>

definition InboundChain :: string where "InboundChain = ''APISIX_INBOUND''"
definition RedirectChain :: string where "RedirectChain = ''APISIX_REDIRECT''"
definition InboundRedirectChain :: string where "InboundRedirectChain = ''APISIX_INBOUND_REDIRECT''"
definition OutputChain :: string where "OutputChain = ''OUTPUT''"
definition PreRoutingChain :: string where "PreRoutingChain = ''PREROUTING''"

text \<open>The fields of Istio's configuration record the code uses.\<close>

record ipt_config =
  ProxyPort :: string
  InboundCapturePort :: string
  InboundPortsInclude :: string
  InboundPortsExclude :: string
  OutboundPortsInclude :: string
  OutboundPortsExclude :: string
  ProxyUID :: string
  ProxyGID :: string

text \<open>Their values when no option of the command is given; the user is looked up later.\<close>

definition default_ipt_config :: ipt_config where
  "default_ipt_config = \<lparr>ProxyPort = ''9080'', InboundCapturePort = ''9081'', InboundPortsInclude = '''',
     InboundPortsExclude = '''', OutboundPortsInclude = '''', OutboundPortsExclude = '''',
     ProxyUID = '''', ProxyGID = ''''\<rparr>"

text \<open>A rule as it is handed to the builder; \<open>AppendRuleV4\<close> adds one at the end.\<close>

record ipt_rule =
  irChain :: string
  irTable :: string
  irParams :: "string list"

type_synonym constructor_state = "ipt_rule list"

definition AppendRuleV4 :: "string \<Rightarrow> string \<Rightarrow> string list \<Rightarrow> constructor_state \<Rightarrow> constructor_state" where
  "AppendRuleV4 chain table params ic = ic @ [\<lparr>irChain = chain, irTable = table, irParams = params\<rparr>]"

fun filterEmpty :: "string list \<Rightarrow> string list" where
  "filterEmpty [] = []"
| "filterEmpty (s # strs) = (if s = '''' then filterEmpty strs else s # filterEmpty strs)"

definition split_ports :: "string \<Rightarrow> string list" where
  "split_ports s = (if s = '''' then [] else filterEmpty (Split s (CHR '','')))"

text \<open>\<open>for _, port := range ports\<close> with one rule per port.\<close>

fun append_ports :: "string \<Rightarrow> string \<Rightarrow> string list \<Rightarrow> constructor_state \<Rightarrow> constructor_state" where
  "append_ports chain target [] ic = ic"
| "append_ports chain target (port # ports) ic =
     append_ports chain target ports
       (AppendRuleV4 chain ''nat'' [''-p'', ''tcp'', ''--dport'', port, ''-j'', target] ic)"

definition insertInboundRules :: "ipt_config \<Rightarrow> constructor_state \<Rightarrow> constructor_state" where
  "insertInboundRules cfg ic =
     (if InboundPortsInclude cfg = '''' then ic
      else
        let ic1 = AppendRuleV4 PreRoutingChain ''nat'' [''-p'', ''tcp'', ''-j'', InboundChain] ic
        in if InboundPortsInclude cfg = ''*'' then
             let ic2 = AppendRuleV4 InboundChain ''nat''
                         [''-p'', ''tcp'', ''--dport'', ''22'', ''-j'', ''RETURN''] ic1;
                 ic3 = (if InboundPortsExclude cfg \<noteq> ''''
                        then append_ports InboundChain ''RETURN'' (split_ports (InboundPortsExclude cfg)) ic2
                        else ic2)
             in AppendRuleV4 InboundChain ''nat'' [''-p'', ''tcp'', ''-j'', InboundRedirectChain] ic3
           else append_ports InboundChain InboundRedirectChain (split_ports (InboundPortsInclude cfg)) ic1)"

definition insertOutboundRules :: "ipt_config \<Rightarrow> constructor_state \<Rightarrow> constructor_state" where
  "insertOutboundRules cfg ic =
     (if OutboundPortsInclude cfg = '''' then ic
      else if OutboundPortsInclude cfg = ''*'' then
        let ic1 = (if OutboundPortsExclude cfg \<noteq> ''''
                   then append_ports OutputChain ''RETURN'' (split_ports (OutboundPortsExclude cfg)) ic
                   else ic)
        in AppendRuleV4 OutputChain ''nat'' [''-p'', ''tcp'', ''-j'', RedirectChain] ic1
      else append_ports OutputChain RedirectChain (split_ports (OutboundPortsInclude cfg)) ic)"

definition insertSkipRules :: "ipt_config \<Rightarrow> constructor_state \<Rightarrow> constructor_state" where
  "insertSkipRules cfg ic =
     AppendRuleV4 OutputChain ''nat'' [''-m'', ''owner'', ''--gid-owner'', ProxyGID cfg, ''-j'', ''RETURN'']
       (AppendRuleV4 OutputChain ''nat'' [''-o'', ''lo'', ''!'', ''-d'', ''127.0.0.1/32'', ''-m'', ''owner'',
          ''--uid-owner'', ProxyUID cfg, ''-j'', ''RETURN''] ic)"

definition constructed :: "ipt_config \<Rightarrow> constructor_state" where
  "constructed cfg =
     (let ic = AppendRuleV4 RedirectChain ''nat''
                 [''-p'', ''tcp'', ''-j'', ''REDIRECT'', ''--to-ports'', ProxyPort cfg] [];
          ic = AppendRuleV4 InboundRedirectChain ''nat''
                 [''-p'', ''tcp'', ''-j'', ''REDIRECT'', ''--to-ports'', InboundCapturePort cfg] ic
      in insertOutboundRules cfg (insertInboundRules cfg (insertSkipRules cfg ic)))"

text \<open>
  The commands of the builder are run one after the other; the process ends at the first that
  fails (\<open>RunOrFail\<close>). \<open>exec\<close> is the effect of one command on the state of the machine. The user
  is looked up first: an unknown one panics.
\<close>

fun executeCommand :: "(string list \<Rightarrow> 's \<Rightarrow> 's option) \<Rightarrow> string list list \<Rightarrow> 's \<Rightarrow> 's go" where
  "executeCommand exec [] s = Ret s"
| "executeCommand exec (cmd # cmds) s =
     (case exec cmd s of None \<Rightarrow> Panic | Some s' \<Rightarrow> executeCommand exec cmds s')"

definition setup_run ::
    "(string list \<Rightarrow> 's \<Rightarrow> 's option) \<Rightarrow> (ipt_rule list \<Rightarrow> string list list) \<Rightarrow> ipt_config \<Rightarrow> 's \<Rightarrow> 's go" where
  "setup_run exec build cfg s = executeCommand exec (build (constructed cfg)) s"

definition setup_command ::
    "(string list \<Rightarrow> 's \<Rightarrow> 's option) \<Rightarrow> (ipt_rule list \<Rightarrow> string list list)
       \<Rightarrow> (string \<Rightarrow> (string \<times> string) option) \<Rightarrow> string \<Rightarrow> ipt_config \<Rightarrow> 's \<Rightarrow> 's go" where
  "setup_command exec build lookup proxyUser cfg s =
     (case lookup proxyUser of
        None \<Rightarrow> Panic
      | Some (uid, gid) \<Rightarrow> setup_run exec build (cfg\<lparr>ProxyUID := uid, ProxyGID := gid\<rparr>) s)"

subsection \<open>The cleanup\<close>

text \<open>\<open>RunQuietlyAndIgnore\<close>: a command that fails changes nothing.\<close>

definition run_ignore :: "(string list \<Rightarrow> 's \<Rightarrow> 's option) \<Rightarrow> string list \<Rightarrow> 's \<Rightarrow> 's" where
  "run_ignore exec cmd s = (case exec cmd s of None \<Rightarrow> s | Some s' \<Rightarrow> s')"

fun flushAndDeleteChains ::
    "(string list \<Rightarrow> 's \<Rightarrow> 's option) \<Rightarrow> string \<Rightarrow> string \<Rightarrow> string list \<Rightarrow> 's \<Rightarrow> 's" where
  "flushAndDeleteChains exec cmd table [] s = s"
| "flushAndDeleteChains exec cmd table (chain # rest) s =
     flushAndDeleteChains exec cmd table rest
       (run_ignore exec [cmd, ''-t'', table, ''-X'', chain]
         (run_ignore exec [cmd, ''-t'', table, ''-F'', chain] s))"

definition removeOldChains :: "(string list \<Rightarrow> 's \<Rightarrow> 's option) \<Rightarrow> string \<Rightarrow> 's \<Rightarrow> 's" where
  "removeOldChains exec cmd s =
     flushAndDeleteChains exec cmd ''nat'' [InboundChain, OutputChain, RedirectChain, InboundRedirectChain]
       (run_ignore exec [cmd, ''-t'', ''nat'', ''-D'', OutputChain, ''-p'', ''tcp'', ''-j'', OutputChain]
         (run_ignore exec [cmd, ''-t'', ''nat'', ''-D'', PreRoutingChain, ''-p'', ''tcp'', ''-j'', InboundChain] s))"

definition cleanup :: "(string list \<Rightarrow> 's \<Rightarrow> 's option) \<Rightarrow> 's \<Rightarrow> 's" where
  "cleanup exec s = removeOldChains exec ''iptables'' s"

subsection \<open>Specification: what the commands and rules mean\<close>

text \<open>
  The nat table of a network namespace: its chains, each with the arguments of its rules. The
  built-in chains always exist. A command that iptables refuses is \<open>None\<close>: creating a chain that
  exists, appending to one that does not or a rule that jumps to one that does not or to a built-in
  one, deleting a rule that is not there, deleting a chain that is built in, not empty or referred
  to.
\<close>

type_synonym nat_table = "(string, string list list) gomap"

definition builtin_chains :: "string list" where
  "builtin_chains = [''PREROUTING'', ''INPUT'', ''OUTPUT'', ''POSTROUTING'']"

definition rule_targets :: "string list" where
  "rule_targets = [''RETURN'', ''REDIRECT'']"

fun rule_jump :: "string list \<Rightarrow> string option" where
  "rule_jump (a # v # args) =
     (if a = ''-j'' then Some v else if a = ''!'' then rule_jump (v # args) else rule_jump args)"
| "rule_jump _ = None"

definition jump_ok :: "nat_table \<Rightarrow> string list \<Rightarrow> bool" where
  "jump_ok t params =
     (case rule_jump params of
        None \<Rightarrow> True
      | Some c \<Rightarrow> c \<in> set rule_targets \<or> (has_key t c \<and> c \<notin> set builtin_chains))"

definition referenced :: "nat_table \<Rightarrow> string \<Rightarrow> bool" where
  "referenced t c = list_ex (\<lambda>(_, rs). list_ex (\<lambda>r. rule_jump r = Some c) rs) t"

definition ipt_op :: "string \<Rightarrow> string \<Rightarrow> string list \<Rightarrow> nat_table \<Rightarrow> nat_table option" where
  "ipt_op opt chain args t =
     (if opt = ''-N'' then (if has_key t chain then None else Some (AList.update chain [] t))
      else
        (case map_of t chain of
           None \<Rightarrow> None
         | Some rs \<Rightarrow>
             if opt = ''-A'' then
               (if jump_ok t args then Some (AList.update chain (rs @ [args]) t) else None)
             else if opt = ''-D'' then
               (if args \<in> set rs then Some (AList.update chain (remove1 args rs) t) else None)
             else if opt = ''-F'' then Some (AList.update chain [] t)
             else if opt = ''-X'' then
               (if chain \<in> set builtin_chains \<or> rs \<noteq> [] \<or> referenced t chain then None
                else Some (AList.delete chain t))
             else None))"

fun ipt_exec :: "string list \<Rightarrow> nat_table \<Rightarrow> nat_table option" where
  "ipt_exec (cmd # t1 # table # opt # chain # args) t =
     (if t1 = ''-t'' \<and> table = ''nat'' then ipt_op opt chain args t else None)"
| "ipt_exec _ t = None"

text \<open>
  The builder: commands that create the chains of the rules other than the built-in ones, each
  once, then commands that append the rules in their order (the tests of the package show it).
\<close>

definition create_cmd :: "string \<Rightarrow> string list" where
  "create_cmd c = [''iptables'', ''-t'', ''nat'', ''-N'', c]"

definition append_cmd :: "ipt_rule \<Rightarrow> string list" where
  "append_cmd r = [''iptables'', ''-t'', irTable r, ''-A'', irChain r] @ irParams r"

definition builder_ok :: "(ipt_rule list \<Rightarrow> string list list) \<Rightarrow> bool" where
  "builder_ok build \<longleftrightarrow> (\<forall>rs. \<exists>cs. distinct cs \<and> set cs = irChain ` set rs - set builtin_chains
     \<and> build rs = map create_cmd cs @ map append_cmd rs)"

definition std_build :: "ipt_rule list \<Rightarrow> string list list" where
  "std_build rs =
     map create_cmd (remdups (filter (\<lambda>c. c \<notin> set builtin_chains) (map irChain rs))) @ map append_cmd rs"

text \<open>
  A packet that opens a connection, and what the chains do with it: the first rule all of whose
  matches hold is taken; \<open>RETURN\<close>, or the end of the chain, goes back to the calling chain, and out
  of a built-in chain the packet passes unchanged. How iptables reads a port argument is the
  argument \<open>ports\<close>; \<open>d\<close> bounds the depth of calls.
\<close>

record packet =
  pkProto :: string
  pkDport :: nat
  pkOut :: string
  pkDst :: string
  pkUid :: string
  pkGid :: string

datatype verdict = Redirect string | Unchanged

fun rule_target :: "(string \<Rightarrow> nat \<Rightarrow> bool) \<Rightarrow> string list \<Rightarrow> packet \<Rightarrow> string list option" where
  "rule_target ports (a # v # args) k =
     (if a = ''-j'' then Some (v # args)
      else if a = ''-p'' then (if pkProto k = v then rule_target ports args k else None)
      else if a = ''--dport'' then (if ports v (pkDport k) then rule_target ports args k else None)
      else if a = ''-o'' then (if pkOut k = v then rule_target ports args k else None)
      else if a = ''-m'' then rule_target ports args k
      else if a = ''--uid-owner'' then (if pkUid k = v then rule_target ports args k else None)
      else if a = ''--gid-owner'' then (if pkGid k = v then rule_target ports args k else None)
      else if a = ''!'' \<and> v = ''-d'' then
        (case args of
           [] \<Rightarrow> None
         | net # args' \<Rightarrow> if net \<noteq> pkDst k @ ''/32'' then rule_target ports args' k else None)
      else None)"
| "rule_target ports _ k = None"

definition chain_rules :: "nat_table \<Rightarrow> string \<Rightarrow> string list list" where
  "chain_rules t c = (case map_of t c of None \<Rightarrow> [] | Some rs \<Rightarrow> rs)"

fun walk :: "(string \<Rightarrow> nat \<Rightarrow> bool) \<Rightarrow> nat_table \<Rightarrow> nat \<Rightarrow> string list list \<Rightarrow> packet \<Rightarrow> verdict" where
  "walk ports t d [] k = Unchanged"
| "walk ports t d (r # rs) k =
     (case rule_target ports r k of
        None \<Rightarrow> walk ports t d rs k
      | Some [] \<Rightarrow> walk ports t d rs k
      | Some (tgt # opts) \<Rightarrow>
          if tgt = ''RETURN'' then Unchanged
          else if tgt = ''REDIRECT'' then Redirect (last opts)
          else (case d of
                  0 \<Rightarrow> Unchanged
                | Suc d' \<Rightarrow>
                    (case walk ports t d' (chain_rules t tgt) k of
                       Redirect p \<Rightarrow> Redirect p
                     | Unchanged \<Rightarrow> walk ports t d rs k)))"

definition verdict_at :: "(string \<Rightarrow> nat \<Rightarrow> bool) \<Rightarrow> nat_table \<Rightarrow> nat \<Rightarrow> string \<Rightarrow> packet \<Rightarrow> verdict" where
  "verdict_at ports t d c k = walk ports t d (chain_rules t c) k"

text \<open>Which ports a configuration captures.\<close>

definition captured :: "(string \<Rightarrow> nat \<Rightarrow> bool) \<Rightarrow> string \<Rightarrow> string list \<Rightarrow> nat \<Rightarrow> bool" where
  "captured ports includes excludes p \<longleftrightarrow>
     (if includes = ''*'' then \<not> list_ex (\<lambda>s. ports s p) excludes
      else list_ex (\<lambda>s. ports s p) (split_ports includes))"

definition inbound_captured :: "(string \<Rightarrow> nat \<Rightarrow> bool) \<Rightarrow> ipt_config \<Rightarrow> nat \<Rightarrow> bool" where
  "inbound_captured ports cfg p \<longleftrightarrow>
     captured ports (InboundPortsInclude cfg) (''22'' # split_ports (InboundPortsExclude cfg)) p"

definition outbound_captured :: "(string \<Rightarrow> nat \<Rightarrow> bool) \<Rightarrow> ipt_config \<Rightarrow> nat \<Rightarrow> bool" where
  "outbound_captured ports cfg p \<longleftrightarrow>
     captured ports (OutboundPortsInclude cfg) (split_ports (OutboundPortsExclude cfg)) p"

text \<open>Traffic of APISIX itself, which must not be redirected to it.\<close>

definition proxy_traffic :: "ipt_config \<Rightarrow> packet \<Rightarrow> bool" where
  "proxy_traffic cfg k \<longleftrightarrow>
     pkGid k = ProxyGID cfg \<or> (pkOut k = ''lo'' \<and> pkDst k \<noteq> ''127.0.0.1'' \<and> pkUid k = ProxyUID cfg)"

text \<open>A namespace before the setup: its built-in chains exist, the chains of the setup do not.\<close>

definition fresh_table :: "nat_table \<Rightarrow> bool" where
  "fresh_table t \<longleftrightarrow> gm_ok t \<and> (\<forall>c \<in> set builtin_chains. has_key t c)
     \<and> (\<forall>c rs. map_of t c = Some rs \<longrightarrow> list_all (jump_ok t) rs)
     \<and> \<not> has_key t InboundChain \<and> \<not> has_key t RedirectChain \<and> \<not> has_key t InboundRedirectChain"

text \<open>The ports to include name a port at all: \<open>,\<close> does not.\<close>

definition ports_given :: "ipt_config \<Rightarrow> bool" where
  "ports_given cfg \<longleftrightarrow> InboundPortsInclude cfg = '''' \<or> split_ports (InboundPortsInclude cfg) \<noteq> []"

section \<open>Lemmas\<close>

lemmas chain_defs = InboundChain_def RedirectChain_def InboundRedirectChain_def OutputChain_def
  PreRoutingChain_def builtin_chains_def rule_targets_def

named_theorems ipt_simps "the rules of the setup"

lemma chain_names [simp]:
  "InboundChain \<noteq> RedirectChain" "InboundChain \<noteq> InboundRedirectChain" "InboundChain \<noteq> OutputChain"
  "InboundChain \<noteq> PreRoutingChain" "RedirectChain \<noteq> InboundChain" "RedirectChain \<noteq> InboundRedirectChain"
  "RedirectChain \<noteq> OutputChain" "RedirectChain \<noteq> PreRoutingChain" "InboundRedirectChain \<noteq> InboundChain"
  "InboundRedirectChain \<noteq> RedirectChain" "InboundRedirectChain \<noteq> OutputChain"
  "InboundRedirectChain \<noteq> PreRoutingChain" "OutputChain \<noteq> InboundChain" "OutputChain \<noteq> RedirectChain"
  "OutputChain \<noteq> InboundRedirectChain" "OutputChain \<noteq> PreRoutingChain" "PreRoutingChain \<noteq> InboundChain"
  "PreRoutingChain \<noteq> RedirectChain" "PreRoutingChain \<noteq> InboundRedirectChain" "PreRoutingChain \<noteq> OutputChain"
  by (simp_all add: chain_defs)

lemma chain_kinds [simp]:
  "InboundChain \<notin> set builtin_chains" "RedirectChain \<notin> set builtin_chains"
  "InboundRedirectChain \<notin> set builtin_chains" "OutputChain \<in> set builtin_chains"
  "PreRoutingChain \<in> set builtin_chains"
  "InboundChain \<notin> set rule_targets" "RedirectChain \<notin> set rule_targets"
  "InboundRedirectChain \<notin> set rule_targets" "OutputChain \<notin> set rule_targets" "PreRoutingChain \<notin> set rule_targets"
  "''RETURN'' \<in> set rule_targets" "''REDIRECT'' \<in> set rule_targets"
  by (simp_all add: chain_defs)

subsection \<open>The rules of the setup, chain by chain\<close>

lemma filterEmpty_eq: "filterEmpty strs = filter (\<lambda>s. s \<noteq> '''') strs"
  by (induction strs) simp_all

definition port_rule :: "string \<Rightarrow> string \<Rightarrow> string list" where
  "port_rule target port = [''-p'', ''tcp'', ''--dport'', port, ''-j'', target]"

definition jump_rule :: "string \<Rightarrow> string list" where
  "jump_rule target = [''-p'', ''tcp'', ''-j'', target]"

definition redirect_rule :: "string \<Rightarrow> string list" where
  "redirect_rule port = [''-p'', ''tcp'', ''-j'', ''REDIRECT'', ''--to-ports'', port]"

definition skip_rules :: "ipt_config \<Rightarrow> string list list" where
  "skip_rules cfg =
     [[''-o'', ''lo'', ''!'', ''-d'', ''127.0.0.1/32'', ''-m'', ''owner'', ''--uid-owner'', ProxyUID cfg, ''-j'', ''RETURN''],
      [''-m'', ''owner'', ''--gid-owner'', ProxyGID cfg, ''-j'', ''RETURN'']]"

definition capture_rules :: "string \<Rightarrow> string list \<Rightarrow> string \<Rightarrow> string list list" where
  "capture_rules includes excludes target =
     (if includes = ''*'' then map (port_rule ''RETURN'') excludes @ [jump_rule target]
      else map (port_rule target) (split_ports includes))"

definition inbound_rules :: "ipt_config \<Rightarrow> string list list" where
  "inbound_rules cfg =
     capture_rules (InboundPortsInclude cfg) (''22'' # split_ports (InboundPortsExclude cfg)) InboundRedirectChain"

definition outbound_rules :: "ipt_config \<Rightarrow> string list list" where
  "outbound_rules cfg =
     capture_rules (OutboundPortsInclude cfg) (split_ports (OutboundPortsExclude cfg)) RedirectChain"

definition in_chain :: "string \<Rightarrow> string list \<Rightarrow> ipt_rule" where
  "in_chain c params = \<lparr>irChain = c, irTable = ''nat'', irParams = params\<rparr>"

lemma in_chain_simps [simp]:
  "irChain (in_chain c p) = c" "irTable (in_chain c p) = ''nat''" "irParams (in_chain c p) = p"
  by (simp_all add: in_chain_def)

lemma AppendRuleV4_in_chain: "AppendRuleV4 c ''nat'' params ic = ic @ [in_chain c params]"
  by (simp add: AppendRuleV4_def in_chain_def)

lemma append_ports_eq:
  "append_ports c target ports ic = ic @ map (\<lambda>p. in_chain c (port_rule target p)) ports"
  by (induction ports arbitrary: ic) (simp_all add: AppendRuleV4_in_chain port_rule_def)

lemma split_ports_Nil [simp]: "split_ports '''' = []"
  by (simp add: split_ports_def)

lemma constructed_eq:
  "constructed cfg =
     in_chain RedirectChain (redirect_rule (ProxyPort cfg))
     # in_chain InboundRedirectChain (redirect_rule (InboundCapturePort cfg))
     # map (in_chain OutputChain) (skip_rules cfg)
     @ (if InboundPortsInclude cfg = '''' then []
        else in_chain PreRoutingChain (jump_rule InboundChain) # map (in_chain InboundChain) (inbound_rules cfg))
     @ map (in_chain OutputChain) (outbound_rules cfg)"
  by (simp add: constructed_def insertOutboundRules_def insertInboundRules_def insertSkipRules_def
      AppendRuleV4_in_chain append_ports_eq Let_def skip_rules_def inbound_rules_def
      outbound_rules_def capture_rules_def redirect_rule_def jump_rule_def port_rule_def)

definition rules_at :: "string \<Rightarrow> ipt_rule list \<Rightarrow> string list list" where
  "rules_at c rs = map irParams (filter (\<lambda>r. irChain r = c) rs)"

lemma rules_at_simps [simp]:
  "rules_at c [] = []"
  "rules_at c (r # rs) = (if irChain r = c then irParams r # rules_at c rs else rules_at c rs)"
  "rules_at c (rs @ ss) = rules_at c rs @ rules_at c ss"
  "rules_at c (map (in_chain c') ps) = (if c' = c then ps else [])"
  by (simp_all add: rules_at_def filter_map comp_def)

lemma constructed_rules_at [ipt_simps]:
  "rules_at RedirectChain (constructed cfg) = [redirect_rule (ProxyPort cfg)]"
  "rules_at InboundRedirectChain (constructed cfg) = [redirect_rule (InboundCapturePort cfg)]"
  "rules_at OutputChain (constructed cfg) = skip_rules cfg @ outbound_rules cfg"
  "rules_at PreRoutingChain (constructed cfg) =
     (if InboundPortsInclude cfg = '''' then [] else [jump_rule InboundChain])"
  "rules_at InboundChain (constructed cfg) =
     (if InboundPortsInclude cfg = '''' then [] else inbound_rules cfg)"
  by (simp_all add: constructed_eq)

lemma rules_at_other:
  "c \<notin> {RedirectChain, InboundRedirectChain, OutputChain, PreRoutingChain, InboundChain} \<Longrightarrow>
     rules_at c (constructed cfg) = []"
  by (auto simp: constructed_eq)

lemma inbound_rules_Nil: "inbound_rules cfg = [] \<longleftrightarrow> split_ports (InboundPortsInclude cfg) = []"
proof -
  have "split_ports ''*'' = [''*'']" by (simp add: split_ports_def filterEmpty_eq)
  then show ?thesis by (auto simp: inbound_rules_def capture_rules_def)
qed

lemma constructed_chains:
  "irChain ` set (constructed cfg) - set builtin_chains =
     {RedirectChain, InboundRedirectChain} \<union>
     (if split_ports (InboundPortsInclude cfg) = [] then {} else {InboundChain})"
proof -
  have "irChain ` set (constructed cfg) =
      {RedirectChain, InboundRedirectChain, OutputChain} \<union>
      (if InboundPortsInclude cfg = '''' then {} else {PreRoutingChain}) \<union>
      (if split_ports (InboundPortsInclude cfg) = [] then {} else {InboundChain})"
    using inbound_rules_Nil [of cfg]
    by (auto simp: constructed_eq skip_rules_def image_Un image_image image_constant_conv)
  then show ?thesis by (auto split: if_splits)
qed

subsection \<open>Running the commands\<close>

lemma executeCommand_append:
  "executeCommand exec (xs @ ys) s = go_bind (executeCommand exec xs s) (executeCommand exec ys)"
  by (induction xs arbitrary: s) (simp_all split: option.split)

lemma run_create:
  "gm_ok t \<Longrightarrow> distinct cs \<Longrightarrow> \<forall>c \<in> set cs. \<not> has_key t c \<Longrightarrow>
     \<exists>t'. executeCommand ipt_exec (map create_cmd cs) t = Ret t' \<and> gm_ok t'
       \<and> map_of t' = (\<lambda>c. if c \<in> set cs then Some [] else map_of t c)"
proof (induction cs arbitrary: t)
  case (Cons c cs)
  then have "ipt_exec (create_cmd c) t = Some (AList.update c [] t)"
    by (simp add: create_cmd_def ipt_op_def)
  moreover obtain t' where "executeCommand ipt_exec (map create_cmd cs) (AList.update c [] t) = Ret t'"
    "gm_ok t'" "map_of t' = (\<lambda>d. if d \<in> set cs then Some [] else map_of (AList.update c [] t) d)"
    using Cons.IH [of "AList.update c [] t"] Cons.prems by (auto simp: gomap_simps)
  ultimately show ?case by (auto simp: gomap_simps fun_eq_iff)
qed simp

lemma run_append:
  assumes "gm_ok t" "\<forall>r \<in> set rs. irTable r = ''nat'' \<and> has_key t (irChain r) \<and> jump_ok t (irParams r)"
  shows "\<exists>t'. executeCommand ipt_exec (map append_cmd rs) t = Ret t' \<and> gm_ok t'
    \<and> map_of t' = (\<lambda>c. map_option (\<lambda>ps. ps @ rules_at c rs) (map_of t c))"
  using assms
proof (induction rs arbitrary: t)
  case Nil
  then show ?case by (auto simp: option.map_ident)
next
  case (Cons r rs)
  then obtain ps where ps: "map_of t (irChain r) = Some ps" by (auto simp: has_key_def)
  let ?t = "AList.update (irChain r) (ps @ [irParams r]) t"
  have ex: "ipt_exec (append_cmd r) t = Some ?t"
    using Cons.prems ps by (simp add: append_cmd_def ipt_op_def)
  have keys: "has_key ?t c \<longleftrightarrow> has_key t c" for c
    using ps by (auto simp: gomap_simps has_key_def)
  then have "jump_ok ?t p \<longleftrightarrow> jump_ok t p" for p
    by (simp add: jump_ok_def split: option.split)
  with Cons.prems keys Cons.IH [of ?t] obtain t' where
    "executeCommand ipt_exec (map append_cmd rs) ?t = Ret t'" "gm_ok t'"
    "map_of t' = (\<lambda>c. map_option (\<lambda>ps. ps @ rules_at c rs) (map_of ?t c))"
    by auto
  with ex ps show ?case by (auto simp: gomap_simps fun_eq_iff)
qed

lemma rule_jumps [ipt_simps]:
  "rule_jump (port_rule target p) = Some target"
  "rule_jump (jump_rule target) = Some target"
  "rule_jump (redirect_rule p) = Some ''REDIRECT''"
  "r \<in> set (skip_rules cfg) \<Longrightarrow> rule_jump r = Some ''RETURN''"
  by (auto simp: port_rule_def jump_rule_def redirect_rule_def skip_rules_def)

lemma capture_rule_jump:
  "r \<in> set (capture_rules includes excludes target) \<Longrightarrow> rule_jump r \<in> {Some ''RETURN'', Some target}"
  by (auto simp: capture_rules_def ipt_simps split: if_splits)

lemma capture_rule_jumpD:
  "r \<in> set (capture_rules includes excludes target) \<Longrightarrow> rule_jump r = Some c \<Longrightarrow> c = ''RETURN'' \<or> c = target"
  using capture_rule_jump [of r "includes" "excludes" target] by auto

text \<open>The chains of the setup, and the table it makes.\<close>

definition setup_chains :: "ipt_config \<Rightarrow> string set" where
  "setup_chains cfg = {RedirectChain, InboundRedirectChain} \<union>
     (if InboundPortsInclude cfg = '''' then {} else {InboundChain})"

definition setup_map :: "ipt_config \<Rightarrow> nat_table \<Rightarrow> string \<Rightarrow> string list list option" where
  "setup_map cfg t c =
     (if c \<in> setup_chains cfg then Some (rules_at c (constructed cfg))
      else map_option (\<lambda>ps. ps @ rules_at c (constructed cfg)) (map_of t c))"

lemma constructed_jump:
  assumes "r \<in> set (constructed cfg)"
  shows "\<exists>c. rule_jump (irParams r) = Some c \<and> c \<in> set rule_targets \<union> setup_chains cfg"
proof -
  have "rule_jump p \<in> {Some ''RETURN'', Some RedirectChain}" if "p \<in> set (outbound_rules cfg)" for p
    using that capture_rule_jump by (auto simp: outbound_rules_def)
  moreover have "rule_jump p \<in> {Some ''RETURN'', Some InboundRedirectChain}" if "p \<in> set (inbound_rules cfg)" for p
    using that capture_rule_jump by (auto simp: inbound_rules_def)
  ultimately show ?thesis
    using assms by (fastforce simp: constructed_eq setup_chains_def ipt_simps split: if_splits)
qed

lemma setup_chains_own: "c \<in> setup_chains cfg \<Longrightarrow> c \<notin> set builtin_chains \<and> c \<notin> set rule_targets"
  by (auto simp: setup_chains_def split: if_splits)

lemma setup_run_ok:
  assumes "builder_ok build" "fresh_table t" "ports_given cfg"
  shows "\<exists>t'. setup_run ipt_exec build cfg t = Ret t' \<and> gm_ok t' \<and> map_of t' = setup_map cfg t"
proof -
  obtain cs where cs: "distinct cs" "set cs = irChain ` set (constructed cfg) - set builtin_chains"
    and build: "build (constructed cfg) = map create_cmd cs @ map append_cmd (constructed cfg)"
    using assms(1) unfolding builder_ok_def by blast
  have set_cs: "set cs = setup_chains cfg"
    using assms(3) by (auto simp: cs(2) constructed_chains setup_chains_def ports_given_def)
  have new: "\<not> has_key t c" if "c \<in> setup_chains cfg" for c
    using assms(2) that by (auto simp: fresh_table_def setup_chains_def split: if_splits)
  then obtain t1 where t1: "executeCommand ipt_exec (map create_cmd cs) t = Ret t1" "gm_ok t1"
    "map_of t1 = (\<lambda>c. if c \<in> set cs then Some [] else map_of t c)"
    using run_create [of t cs] cs(1) assms(2) set_cs by (auto simp: fresh_table_def)
  have keys: "has_key t1 c \<longleftrightarrow> c \<in> setup_chains cfg \<or> has_key t c" for c
    using t1(3) set_cs by (simp add: has_key_def)
  have "irTable r = ''nat'' \<and> has_key t1 (irChain r) \<and> jump_ok t1 (irParams r)"
    if r: "r \<in> set (constructed cfg)" for r
  proof -
    have "irChain r \<in> setup_chains cfg \<union> set builtin_chains"
      using r cs(2) set_cs by blast
    then have "has_key t1 (irChain r)" using keys assms(2) by (auto simp: fresh_table_def)
    moreover have "irTable r = ''nat''" using r by (auto simp: constructed_eq split: if_splits)
    moreover have "jump_ok t1 (irParams r)"
      using constructed_jump [OF r] keys
      by (auto simp: jump_ok_def setup_chains_def split: if_splits)
    ultimately show ?thesis by blast
  qed
  then obtain t' where t': "executeCommand ipt_exec (map append_cmd (constructed cfg)) t1 = Ret t'" "gm_ok t'"
    "map_of t' = (\<lambda>c. map_option (\<lambda>ps. ps @ rules_at c (constructed cfg)) (map_of t1 c))"
    using run_append [OF t1(2)] by blast
  then have "map_of t' = setup_map cfg t"
    by (simp add: fun_eq_iff setup_map_def t1(3) set_cs)
  with t' t1(1) show ?thesis
    by (simp add: setup_run_def build executeCommand_append)
qed

subsection \<open>What the rules do with a packet\<close>

lemma rule_target_simps [ipt_simps]:
  "rule_target ports (port_rule target p) k =
     (if pkProto k = ''tcp'' \<and> ports p (pkDport k) then Some [target] else None)"
  "rule_target ports (jump_rule target) k = (if pkProto k = ''tcp'' then Some [target] else None)"
  "rule_target ports (redirect_rule q) k =
     (if pkProto k = ''tcp'' then Some [''REDIRECT'', ''--to-ports'', q] else None)"
  by (simp_all add: port_rule_def jump_rule_def redirect_rule_def)

lemma walk_return_ports:
  "walk ports t d (map (port_rule ''RETURN'') ps @ rs) k =
     (if pkProto k = ''tcp'' \<and> list_ex (\<lambda>s. ports s (pkDport k)) ps then Unchanged else walk ports t d rs k)"
  by (induction ps) (auto simp: ipt_simps)

lemma walk_jump_ports:
  assumes "target \<notin> {''RETURN'', ''REDIRECT''}" "chain_rules t target = [redirect_rule q]"
  shows "walk ports t (Suc d) (map (port_rule target) ps) k =
    (if pkProto k = ''tcp'' \<and> list_ex (\<lambda>s. ports s (pkDport k)) ps then Redirect q else Unchanged)"
  using assms by (induction ps) (auto simp: ipt_simps)

lemma walk_capture:
  assumes "target \<notin> {''RETURN'', ''REDIRECT''}" "chain_rules t target = [redirect_rule q]"
  shows "walk ports t (Suc d) (capture_rules includes excludes target) k =
    (if pkProto k = ''tcp'' \<and> captured ports includes excludes (pkDport k) then Redirect q else Unchanged)"
proof (cases "includes = ''*''")
  case True
  then show ?thesis
    using assms by (auto simp: capture_rules_def captured_def walk_return_ports ipt_simps)
next
  case False
  then show ?thesis
    using walk_jump_ports [OF assms] by (simp add: capture_rules_def captured_def)
qed

lemma walk_skip:
  "walk ports t d (skip_rules cfg @ rs) k = (if proxy_traffic cfg k then Unchanged else walk ports t d rs k)"
proof -
  have "''127.0.0.1/32'' = dst @ ''/32'' \<longleftrightarrow> dst = ''127.0.0.1''" for dst :: string
    using append_same_eq [of "''127.0.0.1''" "''/32''" dst] by auto
  then show ?thesis by (auto simp: skip_rules_def proxy_traffic_def)
qed

subsection \<open>What the cleanup leaves\<close>

lemma referenced_iff:
  "gm_ok t \<Longrightarrow> referenced t c \<longleftrightarrow> (\<exists>d rs r. map_of t d = Some rs \<and> r \<in> set rs \<and> rule_jump r = Some c)"
  by (auto simp: referenced_def list_ex_iff map_of_eq_iff_mem)

lemma ignore_delete_rule:
  assumes "gm_ok t"
  shows "gm_ok (run_ignore ipt_exec ([cmd, ''-t'', ''nat'', ''-D'', c] @ args) t)
    \<and> map_of (run_ignore ipt_exec ([cmd, ''-t'', ''nat'', ''-D'', c] @ args) t) =
      (case map_of t c of
         None \<Rightarrow> map_of t
       | Some rs \<Rightarrow> (map_of t)(c \<mapsto> remove1 args rs))"
  using assms by (auto simp: run_ignore_def ipt_op_def gomap_simps remove1_idem split: option.split)

lemma ignore_flush:
  assumes "gm_ok t"
  shows "gm_ok (run_ignore ipt_exec [cmd, ''-t'', ''nat'', ''-F'', c] t)
    \<and> map_of (run_ignore ipt_exec [cmd, ''-t'', ''nat'', ''-F'', c] t) =
      (if has_key t c then (map_of t)(c \<mapsto> []) else map_of t)"
  using assms by (auto simp: run_ignore_def ipt_op_def gomap_simps has_key_def split: option.split)

lemma ignore_delete_chain:
  assumes "gm_ok t"
  shows "gm_ok (run_ignore ipt_exec [cmd, ''-t'', ''nat'', ''-X'', c] t)
    \<and> map_of (run_ignore ipt_exec [cmd, ''-t'', ''nat'', ''-X'', c] t) =
      (if map_of t c = Some [] \<and> c \<notin> set builtin_chains \<and> \<not> referenced t c
       then (map_of t)(c := None) else map_of t)"
  using assms by (auto simp: run_ignore_def ipt_op_def gomap_simps split: option.split)

text \<open>Flushing and deleting a chain: a chain of one's own no other refers to is gone, a built-in
  one is empty.\<close>

lemma flush_delete:
  fixes cmd
  assumes "gm_ok t"
    and "\<And>d rs r. c \<notin> set builtin_chains \<Longrightarrow> d \<noteq> c \<Longrightarrow> map_of t d = Some rs \<Longrightarrow> r \<in> set rs \<Longrightarrow>
      rule_jump r \<noteq> Some c"
    and "c \<in> set builtin_chains \<Longrightarrow> has_key t c"
  defines "t' \<equiv> flushAndDeleteChains ipt_exec cmd ''nat'' [c] t"
  shows "gm_ok t' \<and> map_of t' = (map_of t)(c := (if c \<in> set builtin_chains then Some [] else None))"
proof -
  let ?f = "run_ignore ipt_exec [cmd, ''-t'', ''nat'', ''-F'', c] t"
  note f = ignore_flush [OF assms(1), of cmd c]
  have "\<not> referenced ?f c" if "c \<notin> set builtin_chains"
  proof (rule notI)
    assume "referenced ?f c"
    then obtain d rs r where "map_of ?f d = Some rs" "r \<in> set rs" "rule_jump r = Some c"
      using f referenced_iff [of ?f c] by auto
    then show False
      using f assms(2) [OF that, of d rs r] by (cases "d = c") (auto simp: has_key_def split: if_splits)
  qed
  then show ?thesis
    using f ignore_delete_chain [of ?f cmd c] assms(3) by (auto simp: t'_def has_key_def fun_eq_iff)
qed

lemma fresh_jumps:
  assumes "fresh_table t" "map_of t d = Some rs" "r \<in> set rs" "rule_jump r = Some c"
  shows "c \<notin> {InboundChain, RedirectChain, InboundRedirectChain, OutputChain, PreRoutingChain}"
proof -
  have "jump_ok t r" using assms(1-3) by (auto simp: fresh_table_def list_all_iff)
  with assms(1,4) show ?thesis
    by (auto simp: jump_ok_def fresh_table_def)
qed

lemma own_jumps:
  assumes "r \<in> set (rules_at d (constructed cfg))" "rule_jump r = Some c"
  shows "(d, c) \<in> {(PreRoutingChain, InboundChain), (OutputChain, RedirectChain), (InboundChain, InboundRedirectChain)}
    \<or> c \<in> set rule_targets"
proof -
  consider "d = RedirectChain" | "d = InboundRedirectChain" | "d = OutputChain" | "d = PreRoutingChain"
    | "d = InboundChain" | "rules_at d (constructed cfg) = []"
    using rules_at_other [of d cfg] by blast
  then show ?thesis
    using assms
    by cases (auto simp: ipt_simps inbound_rules_def outbound_rules_def
        dest!: capture_rule_jumpD split: if_splits)
qed

lemma setup_map_jumps:
  assumes "fresh_table t" "setup_map cfg t d = Some rs" "r \<in> set rs" "rule_jump r = Some c"
    "c \<in> {InboundChain, RedirectChain, InboundRedirectChain, OutputChain}"
  shows "(d, c) \<in> {(PreRoutingChain, InboundChain), (OutputChain, RedirectChain), (InboundChain, InboundRedirectChain)}"
proof -
  have "(\<exists>old. map_of t d = Some old \<and> r \<in> set old) \<or> r \<in> set (rules_at d (constructed cfg))"
    using assms(2,3) by (auto simp: setup_map_def split: if_splits)
  then show ?thesis
    using assms(4,5) fresh_jumps [OF assms(1), of d _ r c] own_jumps [of r d cfg c] by auto
qed

lemma cleaned_map:
  assumes "fresh_table t" "map_of t PreRoutingChain = Some pre"
  shows "(setup_map cfg t)(PreRoutingChain \<mapsto> pre, InboundChain := None, OutputChain \<mapsto> [],
    RedirectChain := None, InboundRedirectChain := None) = (map_of t)(OutputChain \<mapsto> [])"
proof (rule ext)
  fix c
  have new: "map_of t InboundChain = None" "map_of t RedirectChain = None" "map_of t InboundRedirectChain = None"
    using assms(1) by (simp_all add: fresh_table_def has_key_def)
  show "((setup_map cfg t)(PreRoutingChain \<mapsto> pre, InboundChain := None, OutputChain \<mapsto> [],
      RedirectChain := None, InboundRedirectChain := None)) c = ((map_of t)(OutputChain \<mapsto> [])) c"
  proof (cases "c \<in> {RedirectChain, InboundRedirectChain, OutputChain, PreRoutingChain, InboundChain}")
    case True
    then show ?thesis using new assms(2) by (elim insertE emptyE) simp_all
  next
    case False
    moreover from this have "setup_map cfg t c = map_of t c"
      using rules_at_other [of c cfg] by (simp add: setup_map_def setup_chains_def option.map_ident)
    ultimately show ?thesis by simp
  qed
qed

lemma cleanup_setup_map:
  assumes "fresh_table t" "gm_ok t'" "map_of t' = setup_map cfg t"
  shows "map_of (cleanup ipt_exec t') = (map_of t)(OutputChain \<mapsto> [])"
proof -
  let ?M = "setup_map cfg t"
  let ?t1 = "run_ignore ipt_exec [''iptables'', ''-t'', ''nat'', ''-D'', PreRoutingChain, ''-p'', ''tcp'', ''-j'', InboundChain] t'"
  let ?t2 = "run_ignore ipt_exec [''iptables'', ''-t'', ''nat'', ''-D'', OutputChain, ''-p'', ''tcp'', ''-j'', OutputChain] ?t1"
  note jumps = setup_map_jumps [OF assms(1), of cfg]
  obtain pre out where pre: "map_of t PreRoutingChain = Some pre" and out: "map_of t OutputChain = Some out"
    using assms(1) by (auto simp: fresh_table_def has_key_def builtin_chains_def PreRoutingChain_def OutputChain_def)
  have no_pre: "jump_rule InboundChain \<notin> set pre"
    using fresh_jumps [OF assms(1) pre] by (force simp: ipt_simps)
  have Mpre: "?M PreRoutingChain = Some (pre @ (if InboundPortsInclude cfg = '''' then [] else [jump_rule InboundChain]))"
    using pre by (simp add: setup_map_def setup_chains_def ipt_simps)
  have t1: "gm_ok ?t1" "map_of ?t1 = ?M(PreRoutingChain \<mapsto> pre)"
    using ignore_delete_rule [OF assms(2), of "''iptables''" PreRoutingChain "jump_rule InboundChain"] Mpre no_pre
    by (simp_all add: assms(3) jump_rule_def remove1_append remove1_idem)
  have no_out: "jump_rule OutputChain \<notin> set rs" if "?M OutputChain = Some rs" for rs
    using jumps [OF that, of "jump_rule OutputChain" OutputChain] by (auto simp: ipt_simps)
  have t2: "gm_ok ?t2" "map_of ?t2 = ?M(PreRoutingChain \<mapsto> pre)"
    using ignore_delete_rule [OF t1(1), of "''iptables''" OutputChain "jump_rule OutputChain"] no_out
    by (auto simp: t1(2) jump_rule_def remove1_idem fun_eq_iff split: option.splits)
  let ?M1 = "?M(PreRoutingChain \<mapsto> pre)"
  have refs: "(d, c) \<in> {(OutputChain, RedirectChain), (InboundChain, InboundRedirectChain)}"
    if "?M1 d = Some rs" "r \<in> set rs" "rule_jump r = Some c" "c \<in> {InboundChain, RedirectChain, InboundRedirectChain}" for d c rs r
    using that jumps [of d rs r c] fresh_jumps [OF assms(1) pre, of r c] by (auto split: if_splits)
  define t3 where "t3 = flushAndDeleteChains ipt_exec ''iptables'' ''nat'' [InboundChain] ?t2"
  have t3: "gm_ok t3" "map_of t3 = ?M1(InboundChain := None)"
    using flush_delete [OF t2(1), of InboundChain "''iptables''"] refs
    by (fastforce simp: t3_def t2(2))+
  define t4 where "t4 = flushAndDeleteChains ipt_exec ''iptables'' ''nat'' [OutputChain] t3"
  have t4: "gm_ok t4" "map_of t4 = ?M1(InboundChain := None, OutputChain \<mapsto> [])"
    using flush_delete [OF t3(1), of OutputChain "''iptables''"] out
    by (auto simp: t4_def t3(2) has_key_def setup_map_def)
  define t5 where "t5 = flushAndDeleteChains ipt_exec ''iptables'' ''nat'' [RedirectChain] t4"
  have no_red: "rule_jump r \<noteq> Some RedirectChain"
    if "d \<noteq> RedirectChain" "map_of t4 d = Some rs" "r \<in> set rs" for d rs r
    using that refs [of d rs r RedirectChain] by (auto simp: t4(2) split: if_splits)
  have t5: "gm_ok t5" "map_of t5 = ?M1(InboundChain := None, OutputChain \<mapsto> [], RedirectChain := None)"
    using flush_delete [OF t4(1) no_red] by (simp_all add: t5_def t4(2))
  have no_inb: "rule_jump r \<noteq> Some InboundRedirectChain"
    if "d \<noteq> InboundRedirectChain" "map_of t5 d = Some rs" "r \<in> set rs" for d rs r
    using that refs [of d rs r InboundRedirectChain] by (auto simp: t5(2) split: if_splits)
  have "map_of (flushAndDeleteChains ipt_exec ''iptables'' ''nat'' [InboundRedirectChain] t5) =
      ?M1(InboundChain := None, OutputChain \<mapsto> [], RedirectChain := None, InboundRedirectChain := None)"
    using flush_delete [OF t5(1) no_inb] by (simp add: t5(2))
  also have "\<dots> = (map_of t)(OutputChain \<mapsto> [])"
    by (rule cleaned_map [OF assms(1) pre])
  finally show ?thesis
    by (simp only: cleanup_def removeOldChains_def t3_def t4_def t5_def flushAndDeleteChains.simps)
qed


subsection \<open>The chains after the setup\<close>

lemma setup_chain_rules:
  assumes "map_of t' = setup_map cfg t"
  shows "chain_rules t' RedirectChain = [redirect_rule (ProxyPort cfg)]"
    and "chain_rules t' InboundRedirectChain = [redirect_rule (InboundCapturePort cfg)]"
    and "InboundPortsInclude cfg \<noteq> '''' \<Longrightarrow> chain_rules t' InboundChain = inbound_rules cfg"
    and "map_of t OutputChain = Some [] \<Longrightarrow> chain_rules t' OutputChain = skip_rules cfg @ outbound_rules cfg"
    and "map_of t PreRoutingChain = Some [] \<Longrightarrow> chain_rules t' PreRoutingChain =
      (if InboundPortsInclude cfg = '''' then [] else [jump_rule InboundChain])"
  by (simp_all add: chain_rules_def assms setup_map_def setup_chains_def ipt_simps)

lemma own_targets [simp]:
  "InboundChain \<noteq> ''RETURN''" "InboundChain \<noteq> ''REDIRECT''" "RedirectChain \<noteq> ''RETURN''"
  "RedirectChain \<noteq> ''REDIRECT''" "InboundRedirectChain \<noteq> ''RETURN''" "InboundRedirectChain \<noteq> ''REDIRECT''"
  by (simp_all add: chain_defs)

lemma builder_ok_std: "builder_ok std_build"
  unfolding builder_ok_def std_build_def
  by (intro allI exI [of _ "remdups (filter (\<lambda>c. c \<notin> set builtin_chains) (map irChain _))"]) auto

definition empty_table :: nat_table where
  "empty_table = map (\<lambda>c. (c, [])) builtin_chains"

lemma fresh_empty_table: "fresh_table empty_table" "map_of empty_table ''PREROUTING'' = Some []"
  "map_of empty_table ''OUTPUT'' = Some []"
  by (auto simp: fresh_table_def empty_table_def has_key_def gm_ok_def chain_defs split: if_splits)

definition example_ports :: "string \<Rightarrow> nat \<Rightarrow> bool" where
  "example_ports s p \<longleftrightarrow> s = fmt_d p"

definition capture_all :: ipt_config where
  "capture_all = \<lparr>ProxyPort = ''9080'', InboundCapturePort = ''9081'', InboundPortsInclude = ''*'',
     InboundPortsExclude = '''', OutboundPortsInclude = ''*'', OutboundPortsExclude = '''',
     ProxyUID = ''65534'', ProxyGID = ''65534''\<rparr>"

definition example_packet :: "nat \<Rightarrow> string \<Rightarrow> packet" where
  "example_packet p gid = \<lparr>pkProto = ''tcp'', pkDport = p, pkOut = ''eth0'', pkDst = ''10.0.0.1'',
     pkUid = ''0'', pkGid = gid\<rparr>"

lemma ports_given_all: "ports_given capture_all"
  by (simp add: ports_given_def capture_all_def split_ports_def filterEmpty_eq)

section \<open>Properties\<close>



text \<open>C29: what the cleanup leaves. After the setup it removes every chain and every rule of the setup and
  restores \<open>PREROUTING\<close>, but it also flushes the built-in \<open>OUTPUT\<close> chain: the rules others had there
  are lost, and the namespace is as before exactly when there were none.\<close>

theorem cleanup_after_setup:
  assumes "builder_ok build" "fresh_table t" "ports_given cfg" "setup_run ipt_exec build cfg t = Ret t'"
  shows "map_of (cleanup ipt_exec t') = (map_of t)(''OUTPUT'' \<mapsto> [])
    \<and> (map_of (cleanup ipt_exec t') = map_of t \<longleftrightarrow> map_of t ''OUTPUT'' = Some [])"
proof -
  have "map_of (cleanup ipt_exec t') = (map_of t)(OutputChain \<mapsto> [])"
    using setup_run_ok [OF assms(1-3)] assms(4) cleanup_setup_map [OF assms(2)] by auto
  then show ?thesis by (auto simp: OutputChain_def fun_upd_idem_iff)
qed

lemma cleanup_after_setup_witness:
  "\<exists>t'. setup_run ipt_exec std_build capture_all empty_table = Ret t'
     \<and> map_of (cleanup ipt_exec t') = map_of empty_table"
proof -
  obtain t' where "setup_run ipt_exec std_build capture_all empty_table = Ret t'"
    using setup_run_ok [OF builder_ok_std fresh_empty_table(1) ports_given_all] by blast
  with cleanup_after_setup [OF builder_ok_std fresh_empty_table(1) ports_given_all this] fresh_empty_table(3)
  show ?thesis by blast
qed


subsection \<open>Ports that name no port\<close>

text \<open>A list of inbound ports without a port, such as \<open>,\<close>, makes the setup fail: \<open>PREROUTING\<close> is to jump
  to a chain no rule creates.\<close>

theorem setup_needs_ports:
  assumes "builder_ok build" "fresh_table t" "\<not> ports_given cfg"
  shows "setup_run ipt_exec build cfg t = Panic"
proof -
  obtain cs where cs: "distinct cs" "set cs = irChain ` set (constructed cfg) - set builtin_chains"
    and build: "build (constructed cfg) = map create_cmd cs @ map append_cmd (constructed cfg)"
    using assms(1) unfolding builder_ok_def by blast
  have set_cs: "set cs = {RedirectChain, InboundRedirectChain}"
    using assms(3) by (auto simp: cs(2) constructed_chains ports_given_def)
  with assms(2) obtain t1 where t1: "executeCommand ipt_exec (map create_cmd cs) t = Ret t1" "gm_ok t1"
    "map_of t1 = (\<lambda>c. if c \<in> set cs then Some [] else map_of t c)"
    using run_create [of t cs] cs(1) by (auto simp: fresh_table_def)
  let ?pre = "in_chain RedirectChain (redirect_rule (ProxyPort cfg))
     # in_chain InboundRedirectChain (redirect_rule (InboundCapturePort cfg))
     # map (in_chain OutputChain) (skip_rules cfg)"
  have "\<forall>r \<in> set ?pre. irTable r = ''nat'' \<and> has_key t1 (irChain r) \<and> jump_ok t1 (irParams r)"
    using assms(2) set_cs
    by (auto simp: has_key_def t1(3) fresh_table_def jump_ok_def ipt_simps skip_rules_def)
  then obtain t2 where t2: "executeCommand ipt_exec (map append_cmd ?pre) t1 = Ret t2"
    "map_of t2 = (\<lambda>c. map_option (\<lambda>ps. ps @ rules_at c ?pre) (map_of t1 c))"
    using run_append [OF t1(2)] by blast
  have "\<not> has_key t2 InboundChain"
    using assms(2) set_cs by (simp add: has_key_def t2(2) t1(3) fresh_table_def)
  then have stop: "ipt_exec (append_cmd (in_chain PreRoutingChain (jump_rule InboundChain))) t2 = None"
    by (auto simp: append_cmd_def ipt_op_def jump_ok_def ipt_simps split: option.split)
  obtain rest where rest: "constructed cfg = ?pre @ in_chain PreRoutingChain (jump_rule InboundChain) # rest"
    using assms(3) by (auto simp: constructed_eq ports_given_def)
  then have "build (constructed cfg) = map create_cmd cs @ map append_cmd ?pre
      @ append_cmd (in_chain PreRoutingChain (jump_rule InboundChain)) # map append_cmd rest"
    unfolding build by (simp add: rest)
  then show ?thesis
    by (simp only: setup_run_def executeCommand_append t1(1) t2(1) go_bind_simps executeCommand.simps stop option.case)
qed

lemma setup_needs_ports_example: "\<not> ports_given (capture_all\<lparr>InboundPortsInclude := '',''\<rparr>)"
  by (simp add: ports_given_def capture_all_def split_ports_def filterEmpty_eq)

end
