(* ===== verification/Precheck.thy ===== *)
theory Precheck
  imports Iptables_Rules
begin

text \<open>
  \<open>cmd/precheck\<close>: the check of the environment before APISIX is started as a sidecar: its binary, its
  home directory, and the iptables chains the setup is to have made. \<open>os.Stat\<close> is the argument
  \<open>stat\<close> (the text of its error, or whether the path is a directory), running a command is the argument
  \<open>run\<close> (the text of its error, if any). A check returns its result and the report written so far.
\<close>

section \<open>Definitions\<close>

definition newline :: string where "newline = [CHR 0x0A]"

definition checkBin :: "(string \<Rightarrow> string + bool) \<Rightarrow> string \<Rightarrow> string \<Rightarrow> bool \<times> string" where
  "checkBin stat buffer path =
     (let buffer = buffer @ ''checking apisix binary path '' @ path @ '' ... ''
      in case stat path of
           Inl err \<Rightarrow> (False, buffer @ err @ newline)
         | Inr _ \<Rightarrow> (True, buffer @ ''found'' @ newline))"

definition checkHome :: "(string \<Rightarrow> string + bool) \<Rightarrow> string \<Rightarrow> string \<Rightarrow> bool \<times> string" where
  "checkHome stat buffer path =
     (let buffer = buffer @ ''checking apisix home path '' @ path @ '' ... ''
      in case stat path of
           Inl err \<Rightarrow> (False, buffer @ err @ newline)
         | Inr isDir \<Rightarrow>
             if \<not> isDir then (False, buffer @ ''not a directory'' @ newline)
             else (True, buffer @ ''found'' @ newline))"

definition checkChain :: "(string list \<Rightarrow> string option) \<Rightarrow> string \<Rightarrow> string \<Rightarrow> string option" where
  "checkChain run table chain = run [''iptables'', ''-t'', table, ''-L'', chain]"

fun checkChains :: "(string list \<Rightarrow> string option) \<Rightarrow> string \<Rightarrow> string list \<Rightarrow> bool \<times> string" where
  "checkChains run buffer [] = (True, buffer)"
| "checkChains run buffer (chain # rest) =
     (let buffer = buffer @ ''checking iptables, table: nat, chain: '' @ chain @ '' ... ''
      in case checkChain run ''nat'' chain of
           Some err \<Rightarrow> (False, buffer @ err @ newline)
         | None \<Rightarrow> checkChains run (buffer @ ''found'' @ newline) rest)"

definition checkIptables :: "(string list \<Rightarrow> string option) \<Rightarrow> string \<Rightarrow> bool \<times> string" where
  "checkIptables run buffer = checkChains run buffer [InboundChain, OutputChain, RedirectChain, PreRoutingChain]"

definition check ::
    "(string \<Rightarrow> string + bool) \<Rightarrow> (string list \<Rightarrow> string option) \<Rightarrow> string \<Rightarrow> string \<Rightarrow> bool \<times> string" where
  "check stat run bin home =
     (case checkBin stat '''' bin of
        (False, buffer) \<Rightarrow> (False, buffer)
      | (True, buffer) \<Rightarrow>
          (case checkHome stat buffer home of
             (False, buffer) \<Rightarrow> (False, buffer)
           | (True, buffer) \<Rightarrow>
               (case checkIptables run buffer of
                  (False, buffer) \<Rightarrow> (False, buffer)
                | (True, buffer) \<Rightarrow> (True, buffer))))"

text \<open>The command: its exit code.\<close>

definition precheck_code ::
    "(string \<Rightarrow> string + bool) \<Rightarrow> (string list \<Rightarrow> string option) \<Rightarrow> string \<Rightarrow> string \<Rightarrow> nat" where
  "precheck_code stat run bin home = (if \<not> fst (check stat run bin home) then 1 else 0)"

subsection \<open>Specification\<close>

text \<open>Listing a chain of a table fails exactly when it does not exist.\<close>

definition ipt_list :: "nat_table \<Rightarrow> string list \<Rightarrow> string option" where
  "ipt_list t cmd =
     (case cmd of
        [_, t1, table, opt, chain] \<Rightarrow>
          (if t1 = ''-t'' \<and> table = ''nat'' \<and> opt = ''-L'' \<and> has_key t chain then None
           else Some ''exit status 1'')
      | _ \<Rightarrow> Some ''exit status 2'')"

text \<open>The environment has APISIX installed.\<close>

definition apisix_installed :: "(string \<Rightarrow> string + bool) \<Rightarrow> string \<Rightarrow> string \<Rightarrow> bool" where
  "apisix_installed stat bin home \<longleftrightarrow> \<not> isl (stat bin) \<and> stat home = Inr True"

section \<open>Lemmas\<close>

lemma checkChains_ok: "fst (checkChains run buffer cs) \<longleftrightarrow> (\<forall>c \<in> set cs. checkChain run ''nat'' c = None)"
  by (induction cs arbitrary: buffer) (auto simp: Let_def split: option.split)

lemma checkChain_list: "checkChain (ipt_list t) ''nat'' c = None \<longleftrightarrow> has_key t c"
  by (simp add: checkChain_def ipt_list_def)

lemma check_ok:
  "fst (check stat run bin home) \<longleftrightarrow>
     apisix_installed stat bin home \<and>
     (\<forall>c \<in> {InboundChain, OutputChain, RedirectChain, PreRoutingChain}. checkChain run ''nat'' c = None)"
proof -
  have "fst (check stat run bin home) \<longleftrightarrow>
      fst (checkBin stat '''' bin) \<and> fst (checkHome stat (snd (checkBin stat '''' bin)) home) \<and>
      fst (checkIptables run (snd (checkHome stat (snd (checkBin stat '''' bin)) home)))"
    by (auto simp: check_def split: prod.splits bool.splits)
  moreover have "fst (checkBin stat b bin) \<longleftrightarrow> \<not> isl (stat bin)" for b
    by (auto simp: checkBin_def Let_def split: sum.splits)
  moreover have "fst (checkHome stat b home) \<longleftrightarrow> stat home = Inr True" for b
    by (auto simp: checkHome_def Let_def split: sum.splits)
  ultimately show ?thesis
    by (simp add: apisix_installed_def checkIptables_def checkChains_ok del: checkChains.simps)
qed

lemma check_table_ok:
  "fst (check stat (ipt_list t) bin home) \<longleftrightarrow> apisix_installed stat bin home \<and>
     (\<forall>c \<in> {InboundChain, OutputChain, RedirectChain, PreRoutingChain}. has_key t c)"
  by (simp add: check_ok checkChain_list)

lemma setup_keys:
  "fresh_table t \<Longrightarrow> map_of t' = setup_map cfg t \<Longrightarrow>
     has_key t' c \<longleftrightarrow> c \<in> setup_chains cfg \<or> has_key t c"
  by (auto simp: has_key_def setup_map_def)

section \<open>Properties\<close>

text \<open>C22: the check and the iptables commands together. Where APISIX is installed, the check fails
  before the setup and after the cleanup. After the setup it succeeds exactly when inbound ports were
  given: without them, which is the default, the setup makes no \<open>APISIX_INBOUND\<close> chain, and the check
  reports an environment as broken that was set up as its user asked.\<close>

theorem precheck_after_setup:
  assumes "builder_ok build" "fresh_table t" "ports_given cfg" "setup_run ipt_exec build cfg t = Ret t'"
    and "apisix_installed stat bin home"
  shows "precheck_code stat (ipt_list t) bin home = 1
    \<and> precheck_code stat (ipt_list t') bin home = (if InboundPortsInclude cfg = '''' then 1 else 0)
    \<and> precheck_code stat (ipt_list (cleanup ipt_exec t')) bin home = 1"
proof -
  have m: "map_of t' = setup_map cfg t" "gm_ok t'"
    using setup_run_ok [OF assms(1-3)] assms(4) by auto
  have no: "\<not> has_key t InboundChain" and own: "has_key t OutputChain" "has_key t PreRoutingChain"
    using assms(2) by (auto simp: fresh_table_def)
  have "map_of (cleanup ipt_exec t') = (map_of t)(OutputChain \<mapsto> [])"
    using m cleanup_setup_map [OF assms(2)] by auto
  then have "\<not> has_key (cleanup ipt_exec t') InboundChain" using no by (simp add: has_key_def)
  then show ?thesis
    using no own assms(5) setup_keys [OF assms(2) m(1)]
    by (auto simp: precheck_code_def check_table_ok setup_chains_def)
qed

definition capture_outbound :: ipt_config where
  "capture_outbound = capture_all\<lparr>InboundPortsInclude := ''''\<rparr>"

lemma precheck_after_setup_witness:
  "\<exists>t'. setup_run ipt_exec std_build capture_outbound empty_table = Ret t'
     \<and> precheck_code (\<lambda>_. Inr True) (ipt_list t') ''/usr/local/bin/apisix'' ''/usr/local/apisix'' = 1"
proof -
  have given: "ports_given capture_outbound" by (simp add: ports_given_def capture_outbound_def)
  obtain t' where t': "setup_run ipt_exec std_build capture_outbound empty_table = Ret t'"
    using setup_run_ok [OF builder_ok_std fresh_empty_table(1) given] by blast
  have "apisix_installed (\<lambda>_. Inr True) ''/usr/local/bin/apisix'' ''/usr/local/apisix''"
    by (simp add: apisix_installed_def)
  from precheck_after_setup [OF builder_ok_std fresh_empty_table(1) given t' this] t' show ?thesis
    by (auto simp: capture_outbound_def)
qed

end
