(* ===== verification/Agent_Run.thy ===== *)
theory Agent_Run
  imports Agent_Config Precheck Sidecar
begin

text \<open>
  The life of the agent: \<open>NewSidecar\<close> and \<open>Run\<close> of \<open>pkg/sidecar/types.go\<close>, the APISIX process it
  may start (\<open>pkg/sidecar/apisix.go\<close>), \<open>Serve\<close> and \<open>Shutdown\<close> of the etcd server as far as \<open>Run\<close> sees
  them, and the command (\<open>cmd/sidecar/sidecar.go\<close>). The machine, the network and the APISIX process
  are arguments: what each call of theirs yields. The goroutines of \<open>Run\<close> log at any time; here their
  entries come where \<open>Run\<close> next looks at them. Fields of log entries that are not strings or numbers
  are left out.
\<close>

section \<open>Definitions\<close>

subsection \<open>The APISIX process\<close>

record apisix_config =
  SSLPort :: int
  NodeListen :: int
  acGRPCListen :: string
  acEtcdKeyPrefix :: string

record apisix_runner =
  arConfig :: apisix_config
  arHome :: string
  arBin :: string
  arRunArgs :: "string list"
  arProcess :: "nat option"
  arLogger :: logger

text \<open>The configuration template, parsed: text and fields.\<close>

datatype segment = Text string | Field string

definition unlines :: "string list \<Rightarrow> string" where
  "unlines ls = concat (map (\<lambda>l. l @ newline) ls)"

definition config_yaml :: "segment list" where
  "config_yaml =
    [Text (unlines [
       ''apisix:'']),
     Text ''  node_listen: '',
     Field ''NodeListen'',
     Text newline,
     Text (unlines [
       ''  enable_admin: true'',
       ''  enable_admin_cors: true'',
       ''  enable_debug: true'',
       ''  port_admin: 9999'',
       ''  enable_dev_mode: true'',
       ''  allow_admin:'',
       ''    - 0.0.0.0/0'',
       ''  ssl:'',
       ''    enable: false'']),
     Text ''    listen_port: '',
     Field ''SSLPort'',
     Text newline,
     Text (unlines [
       ''nginx_config:                     # config for render the template to generate nginx.conf'',
       ''  error_log_level: \"info\"'',
       ''  main_configuration_snippet: |'',
       ''    daemon off;'',
       ''  http_configuration_snippet: |'',
       ''    server {'',
       ''          access_log on;'',
       ''          listen 9081 reuseport;'',
       ''          location / {'',
       ''              proxy_http_version 1.1;'',
       ''              proxy_set_header Connection \"\";'',
       ''              proxy_set_header Host $http_host;'',
       ''              proxy_pass http://$connection_original_dst;'',
       ''              add_header Via APISIX always;'',
       ''          }'',
       ''    }'',
       ''etcd:'',
       ''  host:'']),
     Text ''    - \"http://'',
     Field ''GRPCListen'',
     Text (''\"     # multiple etcd address, if your etcd cluster enables TLS, please use https scheme,'' @ newline),
     Text (unlines [
       ''    # e.g. \"https://127.0.0.1:2379\".'']),
     Text ''  prefix: \"'',
     Field ''EtcdKeyPrefix'',
     Text (''\"               # apisix configurations prefix'' @ newline),
     Text (unlines [
       ''plugins:'',
       ''  - cors'',
       ''  - request-id''])]"

definition config_field :: "apisix_config \<Rightarrow> string \<Rightarrow> string option" where
  "config_field c f =
     (if f = ''SSLPort'' then Some (fmt_int (SSLPort c))
      else if f = ''NodeListen'' then Some (fmt_int (NodeListen c))
      else if f = ''GRPCListen'' then Some (acGRPCListen c)
      else if f = ''EtcdKeyPrefix'' then Some (acEtcdKeyPrefix c)
      else None)"

fun execute_template :: "apisix_config \<Rightarrow> segment list \<Rightarrow> string option" where
  "execute_template c [] = Some ''''"
| "execute_template c (Text s # segs) = map_option (\<lambda>rest. s @ rest) (execute_template c segs)"
| "execute_template c (Field f # segs) =
     (case config_field c f of
        None \<Rightarrow> None
      | Some v \<Rightarrow> map_option (\<lambda>rest. v @ rest) (execute_template c segs))"

text \<open>\<open>filepath.Join\<close> with the cleaning it does.\<close>

fun clean_elems :: "bool \<Rightarrow> string list \<Rightarrow> string list \<Rightarrow> string list" where
  "clean_elems rooted acc [] = rev acc"
| "clean_elems rooted acc (e # es) =
     (if e = '''' \<or> e = ''.'' then clean_elems rooted acc es
      else if e = ''..'' then
        (case acc of
           [] \<Rightarrow> clean_elems rooted (if rooted then [] else [''..'']) es
         | a # as \<Rightarrow> clean_elems rooted (if a = ''..'' then ''..'' # acc else as) es)
      else clean_elems rooted (e # acc) es)"

fun join_slash :: "string list \<Rightarrow> string" where
  "join_slash [] = ''''"
| "join_slash [e] = e"
| "join_slash (e # es) = e @ ''/'' @ join_slash es"

definition path_Clean :: "string \<Rightarrow> string" where
  "path_Clean p =
     (let rooted = HasPrefix p ''/''; s = join_slash (clean_elems rooted [] (Split p (CHR ''/'')))
      in if rooted then ''/'' @ s else if s = '''' then ''.'' else s)"

definition path_Join :: "string list \<Rightarrow> string" where
  "path_Join parts =
     (let es = filter (\<lambda>e. e \<noteq> '''') parts in if es = [] then '''' else path_Clean (join_slash es))"

text \<open>
  The process: writing the configuration, starting it (it ends with an error within two seconds, with
  what it wrote on its error and output streams, or it has a process id from then on), sending it the
  interrupt, whether it exits then, and how it ends.
\<close>

datatype launch = FailsEarly string string string | Launched nat

record apisix_world =
  awWrite :: "string \<Rightarrow> string \<Rightarrow> string option"
  awLaunch :: "string \<Rightarrow> string list \<Rightarrow> launch"
  awSignal :: "nat \<Rightarrow> string option"
  awExits :: bool
  awEnd :: "string option \<times> string \<times> string"

text \<open>No field of the template is unknown, so the error of its execution does not occur.\<close>

definition renderConfig :: "apisix_world \<Rightarrow> apisix_runner \<Rightarrow> string option" where
  "renderConfig w ar =
     (case execute_template (arConfig ar) config_yaml of
        None \<Rightarrow> Some ''template: bad field''
      | Some output \<Rightarrow> awWrite w (path_Join [arHome ar, ''conf'', ''config.yaml'']) output)"

definition runner_ended :: "apisix_runner \<Rightarrow> string option \<times> string \<times> string \<Rightarrow> written \<Rightarrow> written" where
  "runner_ended ar ended out =
     (case ended of
        (Some err, stderr, stdout) \<Rightarrow>
          log_at WarnLevel [''apisix.go''] (arLogger ar)
            (Structured ''apisix running failure''
               [(''error'', err), (''bin'', arBin ar), (''stderr'', stderr), (''stdout'', stdout)]) out
      | (None, stderr, stdout) \<Rightarrow>
          log_at InfoLevel [''apisix.go''] (arLogger ar)
            (Structured ''apisix exited'' [(''stderr'', stderr), (''stdout'', stdout)]) out)"

definition runner_run :: "apisix_world \<Rightarrow> apisix_runner \<Rightarrow> written \<Rightarrow> (string + apisix_runner) \<times> written" where
  "runner_run w ar out =
     (case renderConfig w ar of
        Some err \<Rightarrow> (Inl err, out)
      | None \<Rightarrow>
          (case awLaunch w (arBin ar) (arRunArgs ar) of
             FailsEarly err stderr stdout \<Rightarrow> (Inl err, runner_ended ar (Some err, stderr, stdout) out)
           | Launched pid \<Rightarrow>
               (Inr (ar\<lparr>arProcess := Some pid\<rparr>), log_at InfoLevel [''apisix.go''] (arLogger ar)
                  (Structured ''launch apisix'' [(''master_pid'', fmt_d pid)]) out)))"

definition runner_shutdown :: "apisix_world \<Rightarrow> apisix_runner \<Rightarrow> written \<Rightarrow> written" where
  "runner_shutdown w ar out =
     (case arProcess ar of
        None \<Rightarrow> out
      | Some pid \<Rightarrow>
          (let out1 = log_at InfoLevel [''apisix.go''] (arLogger ar) (Plain [AString ''closing apisix'']) out
           in case awSignal w pid of
                Some err \<Rightarrow>
                  log_at FatalLevel [''apisix.go''] (arLogger ar)
                    (Structured ''failed to send SIGINT signal to apisix master process''
                       [(''master_pid'', fmt_d pid), (''error'', err)]) out1
              | None \<Rightarrow> out1))"

subsection \<open>The sidecar\<close>

record agent =
  agRunId :: string
  agLogger :: logger
  agProvisioner :: provisioner
  agListener :: string
  agSidecar :: sidecar
  agRunner :: "apisix_runner option"

text \<open>\<open>listen\<close> is \<open>net.Listen\<close>: the text of its error, if it fails.\<close>

definition agent_NewSidecar :: "machine \<Rightarrow> (string \<Rightarrow> string option) \<Rightarrow> config \<Rightarrow> string + agent" where
  "agent_NewSidecar mc listen cfg =
     (case newProvisioner mc cfg of
        Inl err \<Rightarrow> Inl err
      | Inr p \<Rightarrow>
          (case NewLogger (mcOpen mc)
                  [WithContext ''sidecar'', WithLogLevel (LogLevel cfg), WithOutputFile (LogOutput cfg)] of
             Inl err \<Rightarrow> Inl err
           | Inr lg \<Rightarrow>
               (case listen (GRPCListen cfg) of
                  Some err \<Rightarrow> Inl err
                | None \<Rightarrow>
                    let ar = (if RunMode cfg = BundleMode
                              then Some \<lparr>arConfig = \<lparr>SSLPort = 0, NodeListen = 9080, acGRPCListen = GRPCListen cfg,
                                                     acEtcdKeyPrefix = EtcdKeyPrefix cfg\<rparr>,
                                         arHome = APISIXHomePath cfg, arBin = APISIXBinPath cfg,
                                         arRunArgs = [''start''], arProcess = None, arLogger = lg\<rparr>
                              else None)
                    in case NewLogger (mcOpen mc)
                              [WithLogLevel (LogLevel cfg), WithOutputFile (LogOutput cfg), WithContext ''etcdv3''] of
                         Inl err \<Rightarrow> Inl err
                       | Inr _ \<Rightarrow>
                           Inr \<lparr>agRunId = RunId cfg, agLogger = lg, agProvisioner = p, agListener = GRPCListen cfg,
                                agSidecar = NewSidecar (EtcdKeyPrefix cfg), agRunner = ar\<rparr>)))"

text \<open>
  The etcd server: \<open>Serve\<close> fails to register its gateway, before there is an HTTP server, or serves
  until its listener yields an error, of which some are expected.
\<close>

datatype serve_result = GatewayError string | Served "string option"

definition reasonableFailure :: "string \<Rightarrow> bool" where
  "reasonableFailure err \<longleftrightarrow>
     (if err = ''http: Server closed'' then True
      else if Contains err ''mux: listener closed'' then True
      else if Contains err ''use of closed network connection'' then True
      else False)"

definition Serve_error :: "serve_result \<Rightarrow> string option" where
  "Serve_error r =
     (case r of
        GatewayError err \<Rightarrow> Some err
      | Served None \<Rightarrow> None
      | Served (Some err) \<Rightarrow> if \<not> reasonableFailure err then Some err else None)"

text \<open>\<open>Shutdown\<close>: without an HTTP server it dereferences nil.\<close>

definition etcd_Shutdown :: "serve_result \<Rightarrow> string option \<Rightarrow> string option go" where
  "etcd_Shutdown r httpShutdown =
     (case r of
        GatewayError _ \<Rightarrow> Panic
      | Served _ \<Rightarrow> Ret httpShutdown)"

text \<open>The loop of \<open>Run\<close>: a batch is reflected to the cache, then to the etcd server.\<close>

definition run_batch ::
    "proto_lib \<Rightarrow> marshaller \<Rightarrow> (i64, watch_stream) iter \<Rightarrow> (i64, unit) iter \<Rightarrow> sidecar \<Rightarrow> event list
       \<Rightarrow> sidecar \<times> push list" where
  "run_batch pl js ordw ordi s evs =
     (let (c, rv, evs') = reflectToCache pl (scCache s) (scRevision s) evs;
          (e, ps) = PushEvents js ordw ordi (scEtcd s) evs'
      in (s\<lparr>scCache := c, scRevision := rv, scEtcd := e\<rparr>, ps))"

fun run_loop ::
    "proto_lib \<Rightarrow> marshaller \<Rightarrow> (i64, watch_stream) iter \<Rightarrow> (i64, unit) iter \<Rightarrow> logger \<Rightarrow> sidecar \<Rightarrow> event list list
       \<Rightarrow> written \<Rightarrow> sidecar \<times> push list \<times> written" where
  "run_loop pl js ordw ordi lg s [] out = (s, [], out)"
| "run_loop pl js ordw ordi lg s (evs # batches) out =
     (let out1 = log_at DebugLevel [''types.go''] lg (Structured ''events arrived from provisioner'' []) out;
          (s1, ps1) = run_batch pl js ordw ordi s evs;
          (s2, ps2, out2) = run_loop pl js ordw ordi lg s1 batches out1
      in (s2, ps1 @ ps2, out2))"

text \<open>
  \<open>Run\<close>. What happens to it: the batches in the order they are received until the provisioner closes
  the channel, the error the provisioner ends with, if any, how serving goes, the error of the HTTP
  server's shutdown, and the APISIX process. It returns, it panics, or it waits forever for a process
  that does not exit. The goroutines of the provisioner are left out here: that a batch still waiting
  when the channel is closed ends the process is the subject of \<open>Event_Channel\<close>.
\<close>

record run_world =
  rwBatches :: "event list list"
  rwProvisionerError :: "string option"
  rwServe :: serve_result
  rwHttpShutdown :: "string option"
  rwApisix :: apisix_world

datatype run_outcome = Returned "string option" | Crashed | Blocked

definition log_error :: "level \<Rightarrow> logger \<Rightarrow> string \<Rightarrow> string option \<Rightarrow> written \<Rightarrow> written" where
  "log_error l lg message err out =
     (case err of
        None \<Rightarrow> out
      | Some e \<Rightarrow> log_at l [''types.go''] lg (Structured message [(''error'', e)]) out)"

definition agent_Run ::
    "proto_lib \<Rightarrow> marshaller \<Rightarrow> (i64, watch_stream) iter \<Rightarrow> (i64, unit) iter \<Rightarrow> run_world \<Rightarrow> agent \<Rightarrow> written
       \<Rightarrow> sidecar \<times> push list \<times> written \<times> run_outcome" where
  "agent_Run pl js ordw ordi w ag out =
     (let lg = agLogger ag;
          exited = log_at InfoLevel [''types.go''] lg (Plain [AString ''sidecar exited'']);
          out0 = log_at InfoLevel [''types.go''] lg (Structured ''sidecar started'' [(''id'', agRunId ag)]) out;
          (launched, out1) =
            (case agRunner ag of
               None \<Rightarrow> (Inr None, out0)
             | Some ar \<Rightarrow>
                 (case runner_run (rwApisix w) ar out0 of
                    (Inl err, out') \<Rightarrow> (Inl err, out')
                  | (Inr ar', out') \<Rightarrow> (Inr (Some ar'), out')))
      in case launched of
           Inl err \<Rightarrow> (agSidecar ag, [], exited out1, Returned (Some err))
         | Inr runner \<Rightarrow>
             (let (s, ps, out2) = run_loop pl js ordw ordi lg (agSidecar ag) (rwBatches w) out1;
                  out3 = log_error FatalLevel lg ''provisioner run failed'' (rwProvisionerError w) out2;
                  out4 = log_error FatalLevel lg ''etcd v3 server run failed'' (Serve_error (rwServe w)) out3;
                  out5 = (case runner of None \<Rightarrow> out4 | Some ar \<Rightarrow> runner_shutdown (rwApisix w) ar out4)
              in case etcd_Shutdown (rwServe w) (rwHttpShutdown w) of
                   Panic \<Rightarrow> (s, ps, exited out5, Crashed)
                 | Ret err \<Rightarrow>
                     (let out6 = log_error ErrorLevel lg ''failed to shutdown etcd server'' err out5
                      in case runner of
                           None \<Rightarrow> (s, ps, exited out6, Returned None)
                         | Some ar \<Rightarrow>
                             if \<not> awExits (rwApisix w) then (s, ps, out6, Blocked)
                             else (s, ps, exited (runner_ended ar (awEnd (rwApisix w)) out6), Returned None))))"

subsection \<open>The command\<close>

text \<open>What is printed on the standard error stream by \<open>dief\<close>, which then exits with status 1.\<close>

definition dief_text :: "string \<Rightarrow> log_arg list \<Rightarrow> string" where
  "dief_text template args =
     Sprintf (if template \<noteq> [] \<and> last template = CHR 0x0A then template else template @ newline) args"

text \<open>The result: what was printed, and the exit status, if the process ends; a panic exits with 2.\<close>

definition sidecar_command ::
    "proto_lib \<Rightarrow> marshaller \<Rightarrow> (i64, watch_stream) iter \<Rightarrow> (i64, unit) iter \<Rightarrow> machine \<Rightarrow> (string \<Rightarrow> string option)
       \<Rightarrow> run_world \<Rightarrow> config \<Rightarrow> string \<times> nat option" where
  "sidecar_command pl js ordw ordi mc listen w cfg =
     (case NewLogger (mcOpen mc) [WithLogLevel (LogLevel cfg), WithOutputFile (LogOutput cfg)] of
        Inl err \<Rightarrow> (dief_text ''failed to initialize logging: %s'' [AString err], Some 1)
      | Inr _ \<Rightarrow>
          (case Validate cfg of
             Some err \<Rightarrow> (dief_text ''configuration validation failure: %s'' [AString err], Some 1)
           | None \<Rightarrow>
               (case agent_NewSidecar mc listen cfg of
                  Inl err \<Rightarrow> (dief_text ''initialization failure: %s'' [AString err], Some 1)
                | Inr ag \<Rightarrow>
                    (case agent_Run pl js ordw ordi w ag [] of
                       (_, _, _, Returned (Some err)) \<Rightarrow> (dief_text err [], Some 1)
                     | (_, _, _, Returned None) \<Rightarrow> ('''', Some 0)
                     | (_, _, _, Crashed) \<Rightarrow> ('''', Some 2)
                     | (_, _, _, Blocked) \<Rightarrow> ('''', None)))))"

section \<open>Lemmas\<close>

lemma pushes_are_steps:
  assumes "range_order ordw" "range_order ordi"
  shows "reachable pl js prefix s \<Longrightarrow> scPending s = evs \<Longrightarrow>
    reachable pl js prefix (s\<lparr>scEtcd := fst (PushEvents js ordw ordi (scEtcd s) evs), scPending := []\<rparr>)"
proof (induction evs arbitrary: s)
  case Nil
  then show ?case by (cases s) simp
next
  case (Cons ev evs)
  obtain e1 ps where p: "pushEvent js ordw ordi (scEtcd s) ev = (e1, ps)" by fastforce
  let ?s = "s\<lparr>scEtcd := e1, scPending := evs\<rparr>"
  have "reachable pl js prefix ?s"
    using Cons.prems assms p by (blast intro: reachable.step sidecar_step.push)
  from Cons.IH [OF this] p show ?case by (simp add: split_beta)
qed

lemma batch_is_steps:
  assumes "range_order ordw" "range_order ordi" "reachable pl js prefix s" "scPending s = []"
    and "\<forall>ev \<in> set evs. wf_event ev" "unat (scRevision s) + length evs < 2 ^ 63"
    and "run_batch pl js ordw ordi s evs = (s', ps)"
  shows "reachable pl js prefix s'" "scPending s' = []"
    "unat (scRevision s') = unat (scRevision s) + length evs"
    "scCache s' = cache_after pl (scCache s) evs"
proof -
  obtain c rv evs' where b: "reflectToCache pl (scCache s) (scRevision s) evs = (c, rv, evs')"
    using prod_cases3 by blast
  let ?s = "s\<lparr>scCache := c, scRevision := rv, scPending := evs'\<rparr>"
  have r: "reachable pl js prefix ?s"
    using assms b by (blast intro: reachable.step sidecar_step.batch)
  have s': "s' = ?s\<lparr>scEtcd := fst (PushEvents js ordw ordi (scEtcd ?s) evs'), scPending := []\<rparr>"
    using assms(4,7) b by (auto simp: run_batch_def split_beta)
  show "reachable pl js prefix s'"
    unfolding s' by (rule pushes_are_steps [OF assms(1,2) r]) simp
  show "scPending s' = []" unfolding s' by simp
  have rv: "rv = scRevision s + of_nat (length evs)" "c = cache_after pl (scCache s) evs"
    using b by (simp_all add: reflectToCache_eq)
  show "unat (scRevision s') = unat (scRevision s) + length evs"
    unfolding s' using rv unat_add_small assms(6) by simp
  show "scCache s' = cache_after pl (scCache s) evs" unfolding s' using rv by simp
qed

lemma run_loop_is_steps:
  assumes "range_order ordw" "range_order ordi"
  shows "reachable pl js prefix s \<Longrightarrow> scPending s = [] \<Longrightarrow> \<forall>ev \<in> set (concat batches). wf_event ev \<Longrightarrow>
    unat (scRevision s) + length (concat batches) < 2 ^ 63 \<Longrightarrow>
    run_loop pl js ordw ordi lg s batches out = (s', ps, out') \<Longrightarrow>
    reachable pl js prefix s' \<and> scPending s' = []
      \<and> unat (scRevision s') = unat (scRevision s) + length (concat batches)
      \<and> scCache s' = cache_after pl (scCache s) (concat batches)"
proof (induction batches arbitrary: s ps out)
  case (Cons evs batches)
  obtain s1 ps1 where b: "run_batch pl js ordw ordi s evs = (s1, ps1)" by fastforce
  obtain ps2 out1 where l: "run_loop pl js ordw ordi lg s1 batches out1 = (s', ps2, out')"
    using Cons.prems(5) b by (auto simp: split_beta Let_def) (metis prod.collapse)
  have wf: "\<forall>ev \<in> set evs. wf_event ev" and bound: "unat (scRevision s) + length evs < 2 ^ 63"
    using Cons.prems(3,4) by auto
  note step = batch_is_steps [OF assms Cons.prems(1,2) wf bound b]
  have "\<forall>ev \<in> set (concat batches). wf_event ev" "unat (scRevision s1) + length (concat batches) < 2 ^ 63"
    using Cons.prems(3,4) step(3) by auto
  from Cons.IH [OF step(1,2) this l] step(3,4) show ?case by (simp add: cache_after_def)
qed (simp add: cache_after_def)

subsection \<open>Logs\<close>

lemma log_at_mono: "x \<in> set out \<Longrightarrow> x \<in> set (log_at l (frame # stack) lg call out)"
  by (simp add: log_at_eq)

lemma log_error_mono: "x \<in> set out \<Longrightarrow> x \<in> set (log_error l lg message err out)"
  by (simp add: log_error_def log_at_mono split: option.split)

lemma runner_shutdown_mono: "x \<in> set out \<Longrightarrow> x \<in> set (runner_shutdown w ar out)"
  by (simp add: runner_shutdown_def log_at_mono Let_def split: option.split)

lemma runner_ended_mono: "x \<in> set out \<Longrightarrow> x \<in> set (runner_ended ar ended out)"
  by (cases ended) (simp add: runner_ended_def log_at_mono split: option.split)

lemma level_le_Fatal: "l \<le> FatalLevel"
  by (cases l) (simp_all add: less_eq_level_def)

definition fatal_entry :: "logger \<Rightarrow> string \<Rightarrow> string \<Rightarrow> writer \<times> encoder \<times> entry" where
  "fatal_entry lg message err = (lgWriter lg, lgEncoder lg, \<lparr>enLevel = FatalLevel, enMessage = message,
     enLoggerName = lgContext lg, enCaller = Some ''types.go'', enFields = [(''error'', err)]\<rparr>)"

lemma fatal_logged: "fatal_entry lg message err \<in> set (log_error FatalLevel lg message (Some err) out)"
  by (simp add: log_error_def log_at_eq level_le_Fatal fatal_entry_def)

subsection \<open>The outcome of a run\<close>

text \<open>Whether APISIX can be started, when it is to be.\<close>

definition launch_error :: "run_world \<Rightarrow> agent \<Rightarrow> string option" where
  "launch_error w ag =
     (case agRunner ag of
        None \<Rightarrow> None
      | Some ar \<Rightarrow> (case fst (runner_run (rwApisix w) ar []) of Inl err \<Rightarrow> Some err | Inr _ \<Rightarrow> None))"

definition run_outcome :: "run_world \<Rightarrow> agent \<Rightarrow> run_outcome" where
  "run_outcome w ag =
     (case launch_error w ag of
        Some err \<Rightarrow> Returned (Some err)
      | None \<Rightarrow>
          (case rwServe w of
             GatewayError _ \<Rightarrow> Crashed
           | Served _ \<Rightarrow> if agRunner ag \<noteq> None \<and> \<not> awExits (rwApisix w) then Blocked else Returned None))"

lemma runner_run_out: "fst (runner_run w ar out) = fst (runner_run w ar [])"
  by (simp add: runner_run_def split: option.split launch.split)

lemma agent_Run_outcome:
  "\<exists>s ps out'. agent_Run pl js ordw ordi w ag out = (s, ps, out', run_outcome w ag)
    \<and> (launch_error w ag = None \<longrightarrow> rwProvisionerError w = Some err \<longrightarrow>
      fatal_entry (agLogger ag) ''provisioner run failed'' err \<in> set out')"
proof -
  note kept = log_at_mono log_error_mono runner_shutdown_mono runner_ended_mono
  show ?thesis
  proof (cases "agRunner ag")
    case None
    then show ?thesis
      by (cases "rwServe w")
        (auto simp: agent_Run_def run_outcome_def launch_error_def etcd_Shutdown_def split_beta Let_def
          intro!: kept fatal_logged)
  next
    case (Some ar)
    obtain l out1 where l: "runner_run (rwApisix w) ar (log_at InfoLevel [''types.go''] (agLogger ag)
        (Structured ''sidecar started'' [(''id'', agRunId ag)]) out) = (l, out1)" by fastforce
    then have fst: "fst (runner_run (rwApisix w) ar []) = l" using runner_run_out by (metis fst_conv)
    show ?thesis
      using Some l fst
      by (cases "rwServe w"; cases l; cases "awExits (rwApisix w)")
        (auto simp: agent_Run_def run_outcome_def launch_error_def etcd_Shutdown_def split_beta Let_def
          intro!: kept fatal_logged)
  qed
qed

lemma NewLogger_contexts:
  assumes "NewLogger openf [WithContext ctx, WithLogLevel l, WithOutputFile f] = Inr lg"
  shows "\<exists>lg'. NewLogger openf [WithLogLevel l, WithOutputFile f] = Inr lg'"
  using assms
  by (auto simp: NewLogger_def apply_options_def default_options_def WithOutputFile_def
      WithLogLevel_def WithContext_def Let_def split: option.splits if_splits)

lemma agent_NewSidecar_Inr:
  assumes "agent_NewSidecar mc listen cfg = Inr ag"
  shows "\<exists>lg. NewLogger (mcOpen mc) [WithLogLevel (LogLevel cfg), WithOutputFile (LogOutput cfg)] = Inr lg"
    and "agSidecar ag = NewSidecar (EtcdKeyPrefix cfg)" "agListener ag = GRPCListen cfg"
    and "agRunner ag = (if RunMode cfg = BundleMode
      then Some \<lparr>arConfig = \<lparr>SSLPort = 0, NodeListen = 9080, acGRPCListen = GRPCListen cfg,
                             acEtcdKeyPrefix = EtcdKeyPrefix cfg\<rparr>,
                 arHome = APISIXHomePath cfg, arBin = APISIXBinPath cfg,
                 arRunArgs = [''start''], arProcess = None, arLogger = agLogger ag\<rparr>
      else None)"
  using assms NewLogger_contexts
  by (auto simp: agent_NewSidecar_def Let_def split: sum.splits option.splits)

subsection \<open>The configuration of APISIX\<close>

lemma Contains_append: "Contains a sub \<Longrightarrow> Contains (p @ a) sub" "Contains a sub \<Longrightarrow> Contains (a @ q) sub"
  by (auto simp: Contains_iff) (metis append.assoc)+

lemma Contains_self: "Contains (p @ sub @ q) sub"
  by (auto simp: Contains_iff)

lemma Contains_trans: "Contains a b \<Longrightarrow> Contains b c \<Longrightarrow> Contains a c"
  by (auto simp: Contains_iff) (metis append.assoc)

lemma Contains_unlines: "l \<in> set ls \<Longrightarrow> Contains (unlines ls) l"
  using Contains_self by (auto simp: unlines_def in_set_conv_decomp)

lemma execute_append:
  "execute_template c (xs @ ys) =
     (case execute_template c xs of
        None \<Rightarrow> None
      | Some s \<Rightarrow> map_option (\<lambda>t. s @ t) (execute_template c ys))"
proof (induction xs)
  case Nil
  then show ?case by (cases "execute_template c ys") simp_all
next
  case (Cons x xs)
  then show ?case
    by (cases x; cases "execute_template c xs"; cases "execute_template c ys") (simp_all split: option.split)
qed

lemma execute_part:
  assumes "execute_template c segs = Some t" "execute_template c (take n (drop i segs)) = Some m"
  shows "Contains t m"
proof -
  have "segs = take i segs @ take n (drop i segs) @ drop n (drop i segs)"
    by (metis append_take_drop_id)
  with assms(1) have "execute_template c (take i segs @ take n (drop i segs) @ drop n (drop i segs)) = Some t"
    by simp
  with assms(2) obtain p q where "t = p @ m @ q"
    by (auto simp: execute_append split: option.splits)
  then show ?thesis by (simp add: Contains_self)
qed

lemma Contains_between: "cfgfile = p @ sub @ q \<Longrightarrow> Contains cfgfile sub"
  by (simp add: Contains_self)

lemma rendered_text:
  "\<exists>cfgfile. execute_template \<lparr>SSLPort = 0, NodeListen = 9080, acGRPCListen = addr, acEtcdKeyPrefix = pre\<rparr> config_yaml = Some cfgfile
    \<and> Contains cfgfile (''- \"http://'' @ addr @ ''\"'') \<and> Contains cfgfile (''prefix: \"'' @ pre @ ''\"'')
    \<and> Contains cfgfile ''node_listen: 9080'' \<and> Contains cfgfile ''listen 9081 reuseport;''"
proof -
  let ?c = "\<lparr>SSLPort = 0, NodeListen = 9080, acGRPCListen = addr, acEtcdKeyPrefix = pre\<rparr>"
  have int: "fmt_int 9080 = ''9080''"
    by (simp add: fmt_int_def fmt_d_def digits.simps digit_char_def)
  obtain t where t: "execute_template ?c config_yaml = Some t"
    by (simp add: config_yaml_def config_field_def)
  note part = Contains_trans [OF execute_part [OF t]]
  have "execute_template ?c (take 2 (drop 1 config_yaml)) = Some (''  node_listen: '' @ ''9080'')"
    by (simp add: config_yaml_def config_field_def int)
  from part [OF this Contains_between [where p = "''  ''" and q = "[]"]] have 1: "Contains t ''node_listen: 9080''" by simp
  have "execute_template ?c (take 3 (drop 9 config_yaml)) = Some (''    - \"http://'' @ addr
      @ ''\"     # multiple etcd address, if your etcd cluster enables TLS, please use https scheme,'' @ newline)"
    by (simp add: config_yaml_def config_field_def)
  from part [OF this Contains_between [where p = "''    ''" and
    q = "''     # multiple etcd address, if your etcd cluster enables TLS, please use https scheme,'' @ newline"]]
  have 2: "Contains t (''- \"http://'' @ addr @ ''\"'')" by simp
  have "execute_template ?c (take 3 (drop 13 config_yaml)) = Some (''  prefix: \"'' @ pre
      @ ''\"               # apisix configurations prefix'' @ newline)"
    by (simp add: config_yaml_def config_field_def)
  from part [OF this Contains_between [where p = "''  ''" and q = "''               # apisix configurations prefix'' @ newline"]]
  have 3: "Contains t (''prefix: \"'' @ pre @ ''\"'')" by simp
  obtain ls where ls: "execute_template ?c (take 1 (drop 8 config_yaml)) = Some (unlines ls)"
    "''          listen 9081 reuseport;'' \<in> set ls"
    by (simp add: config_yaml_def)
  from part [OF ls(1) Contains_trans [OF Contains_unlines [OF ls(2)] Contains_between [where p = "''          ''" and q = "[]"]]]
  have "Contains t ''listen 9081 reuseport;''" by simp
  with t 1 2 3 show ?thesis by blast
qed

subsection \<open>An example\<close>

definition file_config :: config where
  "file_config = default_config\<lparr>XDSWatchFiles := [''/etc/xds'']\<rparr>"

lemma file_config_valid: "Validate file_config = None"
  by (subst listen_ok_Validate) (simp_all add: file_config_def NewDefaultConfig_def listen_ok_default)

definition example_agent :: "string \<Rightarrow> agent" where
  "example_agent mode = (let lg = logger_for file_config InfoLevel ''sidecar'' in
     \<lparr>agRunId = ''r'', agLogger = lg, agProvisioner = XdsFile NewFileProvisioner [''/etc/xds''],
      agListener = DefaultGRPCListen, agSidecar = NewSidecar DefaultEtcdKeyPrefix,
      agRunner = (if mode = BundleMode
        then Some \<lparr>arConfig = \<lparr>SSLPort = 0, NodeListen = 9080, acGRPCListen = DefaultGRPCListen,
                               acEtcdKeyPrefix = DefaultEtcdKeyPrefix\<rparr>,
                   arHome = DefaultAPISIXHomePath, arBin = DefaultAPISIXBinPath,
                   arRunArgs = [''start''], arProcess = None, arLogger = lg\<rparr>
        else None)\<rparr>)"

lemma file_config_agent:
  "agent_NewSidecar quiet_machine (\<lambda>_. None) (file_config\<lparr>RunMode := mode\<rparr>) = Inr (example_agent mode)"
  by (simp add: agent_NewSidecar_def newProvisioner_def file_NewXDSProvisioner_def NewAdaptor_def new_logger_works
      works_def NewLogger_def file_config_def NewDefaultConfig_def apply_options_def default_options_def
      WithOutputFile_def WithLogLevel_def WithContext_def levelMap_def example_agent_def logger_for_def Let_def)

section \<open>Properties\<close>

text \<open>C8: the loop of \<open>Run\<close> is a run of the sidecar's step relation. It ends in a state that is reachable
  with no event pending, whose cache is the effect of all events in the order they were received,
  whose revision counts them, and in which exactly the cached objects have metadata.\<close>

theorem run_loop_refines:
  assumes "proto_ok pl" "marshals js" "range_order ordw" "range_order ordi"
    and "\<forall>ev \<in> set (concat batches). wf_event ev" "length (concat batches) < 2 ^ 63"
    and "run_loop pl js ordw ordi lg (NewSidecar prefix) batches out = (s, ps, out')"
  shows "reachable pl js prefix s \<and> scPending s = []
    \<and> scCache s = cache_after pl NewInMemoryCache (concat batches)
    \<and> unat (scRevision s) = length (concat batches)
    \<and> meta_keys (scEtcd s) = cache_keys prefix (scCache s)"
proof -
  have "reachable pl js prefix (NewSidecar prefix)" by (rule reachable.init)
  from run_loop_is_steps [OF assms(3,4) this _ assms(5) _ assms(7)] assms(6)
  have r: "reachable pl js prefix s" "scPending s = []" "unat (scRevision s) = length (concat batches)"
    "scCache s = cache_after pl NewInMemoryCache (concat batches)"
    by (simp_all add: NewSidecar_def)
  with reachable_ok [OF assms(1,2) r(1)] show ?thesis by (simp add: sidecar_ok_def)
qed

lemma run_loop_refines_witness:
  "\<exists>s ps out. run_loop std_lib std_marshaller rev rev (agLogger (example_agent ''standalone'')) (NewSidecar ''/a'')
       [[route_event EventAdd (zero_route\<lparr>rId := ''7''\<rparr>)]] [] = (s, ps, out)
     \<and> unat (scRevision s) = 1"
proof -
  let ?batches = "[[route_event EventAdd (zero_route\<lparr>rId := ''7''\<rparr>)]]"
  obtain s ps out where r: "run_loop std_lib std_marshaller rev rev (agLogger (example_agent ''standalone''))
      (NewSidecar ''/a'') ?batches [] = (s, ps, out)"
    using prod_cases3 by blast
  have "\<forall>ev \<in> set (concat ?batches). wf_event ev"
    by (simp add: wf_event_def event_object_def route_event_def)
  from run_loop_refines [OF _ _ _ _ this _ r] have "unat (scRevision s) = 1" by simp
  with r show ?thesis by blast
qed


definition failing_world :: run_world where
  "failing_world = \<lparr>rwBatches = [], rwProvisionerError = Some ''no such file or directory'', rwServe = Served None,
     rwHttpShutdown = None, rwApisix = \<lparr>awWrite = (\<lambda>_ _. None), awLaunch = (\<lambda>_ _. Launched 7),
       awSignal = (\<lambda>_. None), awExits = True, awEnd = (None, [], [])\<rparr>\<rparr>"


text \<open>C36: agent and APISIX fit together in the bundle mode. The configuration written for APISIX names
  the address the agent listens on and the key prefix its etcd server answers to, and APISIX listens on
  the ports the iptables commands redirect to by default.\<close>

theorem bundle_configuration:
  assumes "agent_NewSidecar mc listen cfg = Inr ag" "RunMode cfg = BundleMode"
  shows "\<exists>ar cfgfile. agRunner ag = Some ar \<and> execute_template (arConfig ar) config_yaml = Some cfgfile
    \<and> renderConfig w ar = awWrite w (path_Join [APISIXHomePath cfg, ''conf'', ''config.yaml'']) cfgfile
    \<and> Contains cfgfile (''- \"http://'' @ agListener ag @ ''\"'')
    \<and> Contains cfgfile (''prefix: \"'' @ keyPrefix (scEtcd (agSidecar ag)) @ ''\"'')
    \<and> Contains cfgfile (''node_listen: '' @ ProxyPort default_ipt_config)
    \<and> Contains cfgfile (''listen '' @ InboundCapturePort default_ipt_config @ '' reuseport;'')"
proof -
  note new = agent_NewSidecar_Inr [OF assms(1)]
  let ?c = "\<lparr>SSLPort = 0, NodeListen = 9080, acGRPCListen = GRPCListen cfg, acEtcdKeyPrefix = EtcdKeyPrefix cfg\<rparr>"
  obtain ar where ar: "agRunner ag = Some ar" "arConfig ar = ?c" "arHome ar = APISIXHomePath cfg"
    using new(4) assms(2) by simp
  obtain cfgfile where t: "execute_template ?c config_yaml = Some cfgfile"
    and has: "Contains cfgfile (''- \"http://'' @ GRPCListen cfg @ ''\"'')"
      "Contains cfgfile (''prefix: \"'' @ EtcdKeyPrefix cfg @ ''\"'')"
      "Contains cfgfile ''node_listen: 9080''" "Contains cfgfile ''listen 9081 reuseport;''"
    using rendered_text by blast
  have ports: "''node_listen: '' @ ProxyPort default_ipt_config = ''node_listen: 9080''"
    "''listen '' @ InboundCapturePort default_ipt_config @ '' reuseport;'' = ''listen 9081 reuseport;''"
    by (simp_all add: default_ipt_config_def)
  have "renderConfig w ar = awWrite w (path_Join [APISIXHomePath cfg, ''conf'', ''config.yaml'']) cfgfile"
    by (simp only: renderConfig_def ar t option.case)
  moreover have "keyPrefix (scEtcd (agSidecar ag)) = EtcdKeyPrefix cfg"
    by (simp add: new(2) NewSidecar_def NewEtcdV3Server_def)
  ultimately show ?thesis using ar(1) t has unfolding new(3) ports ar(2) [symmetric] by metis
qed

lemma bundle_configuration_witness:
  "\<exists>ar cfgfile. agRunner (example_agent BundleMode) = Some ar \<and> execute_template (arConfig ar) config_yaml = Some cfgfile
    \<and> Contains cfgfile (''node_listen: '' @ ProxyPort default_ipt_config)"
proof -
  have "RunMode (file_config\<lparr>RunMode := BundleMode\<rparr>) = BundleMode" by simp
  from bundle_configuration [OF file_config_agent this] show ?thesis by blast
qed

end
