(* ===== verification/Etcd_Serve.thy ===== *)
theory Etcd_Serve
  imports Agent_Run
begin

text \<open>
  \<open>Serve\<close> and \<open>Shutdown\<close> of the etcd server (\<open>pkg/etcdv3/etcd.go\<close>) with the gateway, as steps on what they
  set up: the servers in the fields \<open>grpcSrv\<close> and \<open>httpSrv\<close>, the context and the connection the gateway
  makes to the server itself. Whether the calls of gRPC, its gateway, \<open>net/http\<close> and cmux fail, and with
  which text, is the world. \<open>Agent_Run\<close> sees of this the \<open>serve_result\<close>.
\<close>

section \<open>Definitions\<close>

datatype gateway_conn = NoConn | OpenConn | ClosedConn

record serving =
  svGrpcSrv :: bool
  svHttpSrv :: bool
  svCtxDone :: bool
  svConn :: gateway_conn
  svCloser :: bool

definition before_serving :: serving where
  "before_serving = \<lparr>svGrpcSrv = False, svHttpSrv = False, svCtxDone = False, svConn = NoConn, svCloser = False\<rparr>"

record serve_world =
  swDial :: "string option"
  swKVHandler :: "string option"
  swWatchHandler :: "string option"
  swConnClose :: "string option"
  swHttpServe :: "string option"
  swGrpcServe :: "string option"
  swMuxServe :: "string option"

text \<open>The goroutine that closes the connection is started last.\<close>

definition registerGateway :: "serve_world \<Rightarrow> logger \<Rightarrow> serving \<Rightarrow> written \<Rightarrow> string option \<times> serving \<times> written" where
  "registerGateway sw lg s out =
     (let out1 = log_at InfoLevel [''etcd.go''] lg (Structured ''registering grpc gateway'' []) out
      in case swDial sw of
           Some err \<Rightarrow> (Some err, s, out1)
         | None \<Rightarrow>
             (let s1 = s\<lparr>svConn := OpenConn\<rparr>
              in case swKVHandler sw of
                   Some err \<Rightarrow> (Some err, s1, out1)
                 | None \<Rightarrow>
                     (case swWatchHandler sw of
                        Some err \<Rightarrow> (Some err, s1, out1)
                      | None \<Rightarrow> (None, s1\<lparr>svCloser := True\<rparr>, out1))))"

text \<open>The deferred \<open>cancel\<close>, and the goroutine that then closes the connection.\<close>

definition cancel_ctx :: "serve_world \<Rightarrow> logger \<Rightarrow> serving \<Rightarrow> written \<Rightarrow> serving \<times> written" where
  "cancel_ctx sw lg s out =
     (let s1 = s\<lparr>svCtxDone := True\<rparr>
      in if svCloser s then
           (s1\<lparr>svCloser := False, svConn := ClosedConn\<rparr>,
            case swConnClose sw of
              None \<Rightarrow> out
            | Some err \<Rightarrow>
                log_at WarnLevel [''etcd.go''] lg
                  (Structured ''failed to close local gateway grpc conn: '' [(''error'', err)]) out)
         else (s1, out))"

text \<open>What the goroutines of the two servers log when these end.\<close>

definition http_goroutine :: "serve_world \<Rightarrow> logger \<Rightarrow> written \<Rightarrow> written" where
  "http_goroutine sw lg out =
     (case swHttpServe sw of
        None \<Rightarrow> out
      | Some err \<Rightarrow>
          if \<not> Contains err ''mux: listener closed''
          then log_at ErrorLevel [''etcd.go''] lg (Structured ''http server serve failure'' [(''error'', err)]) out
          else out)"

definition grpc_goroutine :: "serve_world \<Rightarrow> logger \<Rightarrow> written \<Rightarrow> written" where
  "grpc_goroutine sw lg out =
     (case swGrpcServe sw of
        None \<Rightarrow> out
      | Some err \<Rightarrow> log_at ErrorLevel [''etcd.go''] lg (Structured ''grpc server serve failure'' [(''error'', err)]) out)"

text \<open>\<open>Serve\<close>, up to where it returns; the two goroutines run beside it.\<close>

definition etcd_Serve :: "serve_world \<Rightarrow> logger \<Rightarrow> serving \<Rightarrow> written \<Rightarrow> string option \<times> serving \<times> written" where
  "etcd_Serve sw lg s out =
     (let s1 = s\<lparr>svCtxDone := False, svGrpcSrv := True\<rparr>
      in case registerGateway sw lg s1 out of
           (Some err, s2, out1) \<Rightarrow>
             (let out2 = log_at ErrorLevel [''etcd.go''] lg (Structured ''failed to register gateway'' [(''error'', err)]) out1;
                  (s3, out3) = cancel_ctx sw lg s2 out2
              in (Some err, s3, out3))
         | (None, s2, out1) \<Rightarrow>
             (let s3 = s2\<lparr>svHttpSrv := True\<rparr>;
                  (s4, out2) = cancel_ctx sw lg s3 out1
              in case swMuxServe sw of
                   Some err \<Rightarrow> (if \<not> reasonableFailure err then (Some err, s4, out2) else (None, s4, out2))
                 | None \<Rightarrow> (None, s4, out2)))"

text \<open>\<open>Shutdown\<close>: \<open>shutdown\<close> is what the HTTP server's gives. A method of a server that was not made
  dereferences nil.\<close>

definition serving_Shutdown :: "serving \<Rightarrow> string option \<Rightarrow> string option go" where
  "serving_Shutdown s shutdown =
     (if \<not> svGrpcSrv s then Panic
      else if \<not> svHttpSrv s then Panic
      else case shutdown of Some err \<Rightarrow> Ret (Some err) | None \<Rightarrow> Ret None)"

subsection \<open>HTTP requests\<close>

text \<open>What the mux of the HTTP server does with the path of a request (the slash of a missing \<open>/v3/\<close> and
  paths that are not clean are redirected): requests below \<open>/v3/\<close> go to the gateway, with the method that
  its websocket proxy is told to use for what it forwards.\<close>

datatype http_target = GatewayProxy string | VersionHandler | Redirect string | NotFound

definition clean_path :: "string \<Rightarrow> string" where
  "clean_path p =
     (let q = (if p = '''' then ''/'' else if hd p = CHR ''/'' then p else ''/'' @ p);
          c = path_Clean q
      in if last q = CHR ''/'' \<and> c \<noteq> ''/'' then c @ ''/'' else c)"

definition http_mux :: "string \<Rightarrow> http_target" where
  "http_mux path =
     (if clean_path path = ''/v3'' then Redirect ''/v3/''
      else if clean_path path \<noteq> path then Redirect (clean_path path)
      else if path = ''/version'' then VersionHandler
      else if HasPrefix path ''/v3/'' then GatewayProxy ''POST''
      else NotFound)"

text \<open>\<open>version\<close>: the status and the body, and the log when writing fails.\<close>

definition version_handler :: "string option \<Rightarrow> logger \<Rightarrow> written \<Rightarrow> (nat \<times> string) \<times> written" where
  "version_handler write_error lg out =
     ((200, ''{\"etcdserver\":\"3.5.0-pre\",\"etcdcluster\":\"3.5.0\"}''),
      case write_error of
        None \<Rightarrow> out
      | Some err \<Rightarrow> log_at WarnLevel [''etcd.go''] lg (Structured ''failed to send version info'' [(''error'', err)]) out)"

subsection \<open>Abstraction\<close>

text \<open>The result the agent sees.\<close>

definition abs_serve :: "serve_world \<Rightarrow> serve_result" where
  "abs_serve sw =
     (case (swDial sw, swKVHandler sw, swWatchHandler sw) of
        (Some err, _, _) \<Rightarrow> GatewayError err
      | (None, Some err, _) \<Rightarrow> GatewayError err
      | (None, None, Some err) \<Rightarrow> GatewayError err
      | (None, None, None) \<Rightarrow> Served (swMuxServe sw))"

section \<open>Lemmas\<close>

lemma cancel_ctx_state:
  "fst (cancel_ctx sw lg s out) =
     s\<lparr>svCtxDone := True, svCloser := False, svConn := (if svCloser s then ClosedConn else svConn s)\<rparr>"
  by (cases s) (simp add: cancel_ctx_def Let_def)

lemma registerGateway_error:
  "fst (registerGateway sw lg s out) = (case abs_serve sw of GatewayError err \<Rightarrow> Some err | Served _ \<Rightarrow> None)"
  by (cases "swDial sw"; cases "swKVHandler sw"; cases "swWatchHandler sw")
    (simp_all add: registerGateway_def abs_serve_def Let_def)

lemma registerGateway_state:
  "fst (snd (registerGateway sw lg s out)) =
     (case abs_serve sw of
        GatewayError err \<Rightarrow> if swDial sw = None then s\<lparr>svConn := OpenConn\<rparr> else s
      | Served _ \<Rightarrow> s\<lparr>svConn := OpenConn, svCloser := True\<rparr>)"
  by (cases "swDial sw"; cases "swKVHandler sw"; cases "swWatchHandler sw")
    (simp_all add: registerGateway_def abs_serve_def Let_def)

lemma etcd_Serve_result:
  "fst (etcd_Serve sw lg s out) = Serve_error (abs_serve sw)"
  using registerGateway_error [of sw lg "s\<lparr>svCtxDone := False, svGrpcSrv := True\<rparr>" out]
  by (cases "abs_serve sw"; cases "swMuxServe sw")
    (auto simp: etcd_Serve_def Let_def split_beta Serve_error_def abs_serve_def split: option.splits)

lemma etcd_Serve_state:
  "fst (snd (etcd_Serve sw lg before_serving out)) =
     \<lparr>svGrpcSrv = True, svHttpSrv = (case abs_serve sw of GatewayError _ \<Rightarrow> False | Served _ \<Rightarrow> True), svCtxDone = True,
      svConn = (case abs_serve sw of
         Served _ \<Rightarrow> ClosedConn
       | GatewayError _ \<Rightarrow> if swDial sw = None then OpenConn else NoConn), svCloser = False\<rparr>"
  using registerGateway_error [of sw lg "before_serving\<lparr>svCtxDone := False, svGrpcSrv := True\<rparr>" out]
    registerGateway_state [of sw lg "before_serving\<lparr>svCtxDone := False, svGrpcSrv := True\<rparr>" out]
  by (cases "abs_serve sw"; cases "swMuxServe sw")
    (auto simp: etcd_Serve_def Let_def split_beta cancel_ctx_state before_serving_def split: option.splits)

section \<open>Properties\<close>



text \<open>Which requests the HTTP side answers itself, and which it hands to the gateway.\<close>

lemma http_routes:
  "http_mux ''/version'' = VersionHandler"
  "http_mux ''/v3/kv/range'' = GatewayProxy ''POST''"
  "http_mux ''/v3/watch'' = GatewayProxy ''POST''"
  "http_mux ''/v3'' = Redirect ''/v3/''"
  "http_mux ''/v3//kv/../watch'' = Redirect ''/v3/watch''"
  "http_mux ''/v2/keys'' = NotFound"
  by (simp_all add: http_mux_def clean_path_def path_Clean_def Let_def HasPrefix_def)

end
