(* ===== verification/Agent_System.thy ===== *)
theory Agent_System
  imports Grpc_Facts File_Provisioner Agent_Run
begin

text \<open>
  Provisioner and sidecar together. The interface \<open>Provisioner\<close> (\<open>pkg/provisioner/types.go\<close>) promises
  batches of events; what the sidecar relies on is the locale \<open>event_source\<close>: every event is
  well-formed. Both provisioners are instances, so the loop of \<open>Run\<close> fed by either is a run of the
  step relation, and what is shown of the steps holds of the agent. For the gRPC provisioner the
  agreement of \<open>Grpc_Sync\<close> is carried to the state the loop ends in.
\<close>

section \<open>Definitions\<close>

text \<open>A provisioner turns every input into a new state and the batches it hands over.\<close>

fun source_run :: "('p \<Rightarrow> 'i \<Rightarrow> ('p \<times> event list list) go) \<Rightarrow> 'p \<Rightarrow> 'i list \<Rightarrow> ('p \<times> event list list) go" where
  "source_run step p [] = Ret (p, [])"
| "source_run step p (i # inputs) =
     go_bind (step p i) (\<lambda>(p1, bs1).
       go_bind (source_run step p1 inputs) (\<lambda>(p2, bs2). Ret (p2, bs1 @ bs2)))"

definition file_source ::
    "proto_lib \<Rightarrow> decoders \<Rightarrow> (string, unit) iter \<Rightarrow> file_provisioner \<Rightarrow> file_op \<times> string \<times> file_content
       \<Rightarrow> (file_provisioner \<times> event list list) go" where
  "file_source pl dec ordh p i =
     (case i of (op, file, content) \<Rightarrow>
        if op = FsOther then Ret (p, [])
        else go_bind (handleFileEvent pl dec ordh p op file content) (\<lambda>(p1, evs). Ret (p1, file_batch evs)))"

definition grpc_source ::
    "grpc_provisioner \<times> string \<Rightarrow> runtime \<times> discovery_response
       \<Rightarrow> ((grpc_provisioner \<times> string) \<times> event list list) go" where
  "grpc_source st i =
     (case i of (rt, resp) \<Rightarrow>
        go_bind (translateLoop_step rt st resp) (\<lambda>(st1, _, batch).
          Ret (st1, (case batch of None \<Rightarrow> [] | Some evs \<Rightarrow> [evs]))))"

text \<open>The names of the clusters the responses bring.\<close>

definition cluster_names :: "(runtime \<times> discovery_response) list \<Rightarrow> string set" where
  "cluster_names resps = (\<Union>(rt, resp) \<in> set resps. clName ` usable_clusters rt (drResources resp))"

text \<open>No load assignment was refused.\<close>

definition assignments_accepted :: "discovery_request list \<Rightarrow> bool" where
  "assignments_accepted reqs \<longleftrightarrow>
     list_all (\<lambda>q. \<not> (dqTypeUrl q = ClusterLoadAssignmentUrl \<and> dqErrorDetail q)) reqs"

definition runtimes_ok :: "proto_lib \<Rightarrow> (runtime \<times> discovery_response) list \<Rightarrow> bool" where
  "runtimes_ok pl resps \<longleftrightarrow> (\<forall>(rt, resp) \<in> set resps. rt_ok rt \<and> rtProto rt = pl)"

section \<open>The interface of a provisioner\<close>

locale event_source =
  fixes step :: "'p \<Rightarrow> 'i \<Rightarrow> ('p \<times> event list list) go"
  assumes step_wf: "step p i = Ret (p', bs) \<Longrightarrow> b \<in> set bs \<Longrightarrow> ev \<in> set b \<Longrightarrow> wf_event ev"
begin

lemma source_run_wf: "source_run step p inputs = Ret (p', bs) \<Longrightarrow> \<forall>ev \<in> set (concat bs). wf_event ev"
proof (induction inputs arbitrary: p bs)
  case (Cons i inputs)
  from Cons.prems obtain p1 bs1 bs2 where s: "step p i = Ret (p1, bs1)"
    "source_run step p1 inputs = Ret (p', bs2)" "bs = bs1 @ bs2"
    by (auto simp: go_bind_Ret_iff)
  from Cons.IH [OF s(2)] step_wf [OF s(1)] s(3) show ?case by auto
qed simp

text \<open>The sidecar's loop on the batches of a source.\<close>

lemma source_run_serves:
  assumes "source_run step p inputs = Ret (p', batches)"
    and "proto_ok pl" "marshals js" "range_order ordw" "range_order ordi"
    and "length (concat batches) < 2 ^ 63"
    and "run_loop pl js ordw ordi lg (NewSidecar prefix) batches out = (s, ps, out')"
  shows "reachable pl js prefix s" "scPending s = []"
    "scCache s = cache_after pl NewInMemoryCache (concat batches)"
    "meta_keys (scEtcd s) = cache_keys prefix (scCache s)"
proof -
  have "reachable pl js prefix (NewSidecar prefix)" by (rule reachable.init)
  from run_loop_is_steps [OF assms(4,5) this _ source_run_wf [OF assms(1)] _ assms(7)] assms(6)
  show r: "reachable pl js prefix s" "scPending s = []"
    "scCache s = cache_after pl NewInMemoryCache (concat batches)"
    by (simp_all add: NewSidecar_def)
  show "meta_keys (scEtcd s) = cache_keys prefix (scCache s)"
    using reachable_ok [OF assms(2,3) r(1)] r(2) by (simp add: sidecar_ok_def)
qed

end

section \<open>The provisioners are instances\<close>

lemma update_event_wf [simp]: "wf_event (mk_event EventUpdate (OUpstream u) ONil)"
  by (simp add: wf_event_def event_object_def)

lemma handleFileEvent_wf:
  assumes "handleFileEvent pl dec ordh p op file content = Ret (p', evs)" "ev \<in> set evs"
  shows "wf_event ev"
  using assms generated_wf
  by (auto simp: handleFileEvent_def generateEventsFromDiscoveryResponseV3_def file_generateEvents_def
      go_bind_Ret_iff Let_def split: if_splits option.splits file_content.splits)

lemma translate_wf:
  assumes "translate rt p resp = Ret (p', reqs, Inr evs)" "ev \<in> set evs"
  shows "wf_event ev"
  using assms(1)
proof (cases rule: translate_cases)
  case rds
  from rds(3) show ?thesis
    by (cases rule: translate_rds_cases) (use assms(2) generated_wf in auto)
next
  case cds
  from cds(2) show ?thesis
    by (cases rule: translate_cds_cases) (use assms(2) generated_wf in auto)
next
  case eds
  then show ?thesis
    using assms(2) translate_eds_accept by (fastforce simp: update_event_def)
next
  case lds
  then show ?thesis using assms(2) translate_lds_frame by fastforce
qed simp

interpretation file_events: event_source "file_source pl dec ordh" for pl dec ordh
proof
  fix p p' i bs b ev
  assume "file_source pl dec ordh p i = Ret (p', bs)" "b \<in> set bs" "ev \<in> set b"
  then show "wf_event ev"
    using handleFileEvent_wf
    by (cases i) (auto simp: file_source_def file_batch_def go_bind_Ret_iff split: if_splits)
qed

interpretation grpc_events: event_source grpc_source
proof
  fix st st' i bs b ev
  assume a: "grpc_source st i = Ret (st', bs)" "b \<in> set bs" "ev \<in> set b"
  obtain rt resp where i: "i = (rt, resp)" by (cases i)
  obtain p ver where st: "st = (p, ver)" by (cases st)
  obtain p' ver' reqs where t: "translateLoop_step rt (p, ver) resp = Ret ((p', ver'), reqs, Some b)"
    using a(1,2) by (auto simp: grpc_source_def i st go_bind_Ret_iff split: option.splits)
  obtain reqs' r where "translate rt p resp = Ret (p', reqs', r)"
    "Some b = (case r of Inl _ \<Rightarrow> None | Inr evs \<Rightarrow> Some evs)"
    by (rule step_answer [OF t])
  with translate_wf a(3) show "wf_event ev" by (cases r) auto
qed

text \<open>The loops of the provisioners are runs of the sources.\<close>

lemma file_Run_source: "file_Run pl dec ordh p inputs = source_run (file_source pl dec ordh) p inputs"
proof (induction inputs arbitrary: p)
  case (Cons i inputs)
  obtain op f content where "i = (op, f, content)" by (cases i)
  with Cons.IH show ?case
    by (cases "handleFileEvent pl dec ordh p op f content")
      (auto simp: file_source_def split_beta go_bind_def split: go.split)
qed simp

lemma translateLoop_source:
  "translateLoop st resps = Ret (st', reqs, batches) \<Longrightarrow> source_run grpc_source st resps = Ret (st', batches)"
proof (induction resps arbitrary: st reqs batches)
  case (Cons i resps)
  obtain rt resp where i: "i = (rt, resp)" by (cases i)
  from Cons.prems obtain st1 reqs1 batch reqs2 batches2
    where s: "translateLoop_step rt st resp = Ret (st1, reqs1, batch)"
      "translateLoop st1 resps = Ret (st', reqs2, batches2)"
      "batches = (case batch of None \<Rightarrow> batches2 | Some evs \<Rightarrow> evs # batches2)"
    by (auto simp: i go_bind_Ret_iff)
  from Cons.IH [OF s(2)] s(1,3) show ?case
    by (auto simp: i grpc_source_def split: option.split)
qed simp

section \<open>Responses and the provisioner's state\<close>

text \<open>A load assignment is entered twice, under the same name.\<close>

lemma eds_loop_names:
  assumes "rt_ok rt"
  shows "eds_loop rt p resources ms = Ret (p', Inr ms') \<Longrightarrow> upstreams_wf (gpUpstreams p) \<Longrightarrow>
    dom (map_of (gpUpstreams p')) = dom (map_of (gpUpstreams p))"
proof (induction resources arbitrary: p ms)
  case (Cons res rest)
  obtain p1 r1 where p1: "processClusterLoadAssignmentV3 rt p res = Ret (p1, r1)"
    using Cons.prems(1) by (cases "processClusterLoadAssignmentV3 rt p res") auto
  from p1 show ?case
  proof (cases rule: processCLA_cases)
    case (reject e)
    with Cons.prems(1) p1 show ?thesis by simp
  next
    case (accept k u nodes)
    let ?u = "(clone_upstream (rtProto rt) u)\<lparr>uNodes := nodes\<rparr>"
    let ?p = "p\<lparr>gpUpstreams := AList.update k ?u (gpUpstreams p)\<rparr>"
    have u: "uName ?u = k" "uId ?u = GenID k"
      using accept(1) assms Cons.prems(2) proto_message.ident_clone [OF proto_okD(2)]
      by (auto simp: rt_ok_def upstreams_wf_def)
    have "AList.update k ?u (AList.update k ?u (gpUpstreams p)) = AList.update k ?u (gpUpstreams p)"
      by (rule update_triv) (simp add: map_of_update)
    then have "eds_loop rt ?p rest (ms @ [?u]) = Ret (p', Inr ms')"
      using Cons.prems(1) p1 accept u by simp
    moreover have "upstreams_wf (gpUpstreams ?p)"
      using upstreams_wf_update [OF Cons.prems(2) u] by simp
    ultimately have "dom (map_of (gpUpstreams p')) = dom (map_of (gpUpstreams ?p))"
      by (rule Cons.IH)
    also have "\<dots> = dom (map_of (gpUpstreams p))"
      using accept(1) by (auto simp: gomap_simps)
    finally show ?thesis .
  qed
qed auto

lemma translate_names:
  assumes "translate rt p resp = Ret (p', reqs, Inr evs)" "rt_ok rt" "upstreams_wf (gpUpstreams p)"
  shows "dom (map_of (gpUpstreams p')) \<subseteq> dom (map_of (gpUpstreams p)) \<union> clName ` usable_clusters rt (drResources resp)"
  using assms(1)
proof (cases rule: translate_cases)
  case rds
  from rds(3) show ?thesis by (cases rule: translate_rds_cases) auto
next
  case cds
  then obtain p1 r where l: "cds_loop rt (p\<lparr>edsRequiredClusters := []\<rparr>) (drResources resp) None [] = Ret (p1, r)"
    by (auto simp: translate_cds_def Let_def go_bind_Ret_iff)
  with cds(2) obtain ms nu where "r = Inr (ms, nu)" "gpUpstreams p' = nu"
    by (cases r) (auto simp: translate_cds_def Let_def)
  with l show ?thesis using cds_loop_upstreams by fastforce
next
  case eds
  then show ?thesis using translate_eds_accept eds_loop_names [OF assms(2) _ assms(3)] by blast
next
  case lds
  then show ?thesis using translate_lds_frame by fastforce
qed simp

lemma translateLoop_synced:
  assumes "inj_on GenID N"
  shows "translateLoop (p, ver) resps = Ret ((p', ver'), reqs, batches) \<Longrightarrow> synced pl p c \<Longrightarrow>
    runtimes_ok pl resps \<Longrightarrow> cluster_names resps \<subseteq> N \<Longrightarrow> dom (map_of (gpUpstreams p)) \<subseteq> N \<Longrightarrow>
    assignments_accepted reqs \<Longrightarrow> synced pl p' (cache_after pl c (concat batches))"
proof (induction resps arbitrary: p ver c reqs batches)
  case (Cons i resps)
  obtain rt resp where i: "i = (rt, resp)" by (cases i)
  from Cons.prems(1) obtain p1 ver1 reqs1 batch reqs2 batches2
    where s: "translateLoop_step rt (p, ver) resp = Ret ((p1, ver1), reqs1, batch)"
      and rest: "translateLoop (p1, ver1) resps = Ret ((p', ver'), reqs2, batches2)"
      and eq: "reqs = reqs1 @ reqs2" "batches = (case batch of None \<Rightarrow> batches2 | Some evs \<Rightarrow> evs # batches2)"
    by (auto simp: i go_bind_Ret_iff)
  obtain reqs' r where t: "translate rt p resp = Ret (p1, reqs', r)"
    and b: "batch = (case r of Inl _ \<Rightarrow> None | Inr evs \<Rightarrow> Some evs)"
    and ack: "reqs1 = reqs' @ [\<lparr>dqTypeUrl = drTypeUrl resp, dqResourceNames = ack_names rt p (drTypeUrl resp),
       dqVersionInfo = ver1, dqResponseNonce = drNonce resp, dqErrorDetail = (batch = None)\<rparr>]"
    by (rule step_answer [OF s])
  have rt: "rt_ok rt" "rtProto rt = pl" and rts: "runtimes_ok pl resps"
    using Cons.prems(3) by (auto simp: i runtimes_ok_def)
  have names: "clName ` usable_clusters rt (drResources resp) \<subseteq> N" "cluster_names resps \<subseteq> N"
    using Cons.prems(4) by (auto simp: i cluster_names_def)
  have acc: "assignments_accepted reqs2" using Cons.prems(6) eq(1) by (simp add: assignments_accepted_def)
  show ?case
  proof (cases r)
    case (Inl e)
    then have "drTypeUrl resp \<noteq> ClusterLoadAssignmentUrl"
      using Cons.prems(6) b by (auto simp: eq(1) ack assignments_accepted_def)
    then have "synced pl p1 c" "dom (map_of (gpUpstreams p1)) \<subseteq> N"
      using synced.reject [OF Cons.prems(2)] translate_reject_frame t Inl Cons.prems(5) by (blast, simp)
    from Cons.IH [OF rest this(1) rts names(2) this(2) acc] show ?thesis by (simp add: eq(2) b Inl)
  next
    case (Inr evs)
    have dom: "dom (map_of (gpUpstreams p1)) \<subseteq> N"
      using translate_names [OF t [unfolded Inr] rt(1)] synced_invariant [OF Cons.prems(2)] Cons.prems(5) names(1)
      by blast
    then have "no_collision (gpUpstreams p1)"
      unfolding no_collision_def by (rule inj_on_subset [OF assms])
    from synced.accept [OF Cons.prems(2) rt t [unfolded Inr] this]
    have "synced pl p1 (cache_after pl c evs)" .
    from Cons.IH [OF rest this rts names(2) dom acc] show ?thesis by (simp add: eq(2) b Inr cache_after_def)
  qed
qed (simp add: cache_after_def)

lemma file_Run_sync:
  assumes "proto_ok pl"
  shows "file_Run pl dec ordh p inputs = Ret (p', batches) \<Longrightarrow> \<forall>(op, g, content) \<in> set inputs. g = f \<Longrightarrow>
    routes_agree pl c (opt_routes (state_at p f)) \<Longrightarrow>
    routes_agree pl (cache_after pl c (concat batches)) (opt_routes (state_at p' f))"
proof (induction inputs arbitrary: p c batches)
  case (Cons i inputs)
  obtain op content where i: "i = (op, f, content)" using Cons.prems(2) by (cases i) auto
  show ?case
  proof (cases "op = FsOther")
    case True
    with Cons i show ?thesis by simp
  next
    case False
    with Cons.prems(1) i obtain p1 evs batches2 where h: "handleFileEvent pl dec ordh p op f content = Ret (p1, evs)"
      and rest: "file_Run pl dec ordh p1 inputs = Ret (p', batches2)" and b: "batches = file_batch evs @ batches2"
      by (auto simp: go_bind_Ret_iff)
    have "routes_agree pl (cache_after pl c evs) (opt_routes (state_at p1 f))"
      using file_event_sync [OF assms h Cons.prems(3)] by blast
    from Cons.IH [OF rest _ this] Cons.prems(2) b show ?thesis
      by (auto simp: file_batch_def cache_after_def)
  qed
qed (simp add: cache_after_def)

lemma routes_agree_start: "routes_agree pl NewInMemoryCache []"
  by (simp add: routes_agree_def NewInMemoryCache_def newRoute_def)

lemma example_loop:
  "translateLoop (NewGrpcProvisioner, '''') [(example_runtime, response ClusterUrl [''e''])] =
     Ret ((eds_state (Some []), ''v1''),
       [discovery_for ClusterLoadAssignmentUrl [''e''],
        \<lparr>dqTypeUrl = ClusterUrl, dqResourceNames = [], dqVersionInfo = ''v1'', dqResponseNonce = ''n1'', dqErrorDetail = False\<rparr>],
       [generateEvents std_lib (Some (zero_manifest\<lparr>mUpstreams := Some [upstream_e (Some [])]\<rparr>))
          (Some (zero_manifest\<lparr>mUpstreams := None\<rparr>))])"
proof -
  have "sendEds example_runtime (eds_state (Some [])) = [discovery_for ClusterLoadAssignmentUrl [''e'']]"
    by (simp add: sendEds_def eds_state_def example_runtime_def)
  moreover have "ClusterUrl \<noteq> ClusterLoadAssignmentUrl" "ClusterUrl \<noteq> RouteConfigurationUrl"
    by (simp_all add: ClusterUrl_def ClusterLoadAssignmentUrl_def RouteConfigurationUrl_def)
  moreover have "drTypeUrl (response ClusterUrl [''e'']) = ClusterUrl" "drVersionInfo (response ClusterUrl [''e'']) = ''v1''"
    "drNonce (response ClusterUrl [''e'']) = ''n1''"
    by (simp_all add: response_def)
  ultimately show ?thesis
    by (simp add: translateLoop_step_def translate_example_cds ack_names_def Let_def)
qed

lemma example_names: "cluster_names [(example_runtime, response ClusterUrl [''e''])] \<subseteq> {''e''}"
  by (auto simp: cluster_names_def usable_clusters_def response_def resource_def example_runtime_def example_cluster_def)

section \<open>From the provisioner to the cache\<close>

text \<open>The agent over gRPC, from the responses to the cache. Whatever responses are processed, as long
  as no load assignment is refused and the names of their clusters have different checksums, the loop
  of \<open>Run\<close> on the batches in their order ends in a reachable state whose cache holds exactly the routes
  and upstreams the provisioner knows, and whose etcd metadata is that of the cached objects.\<close>

lemma grpc_agent_in_step:
  assumes "translateLoop (NewGrpcProvisioner, '''') resps = Ret ((p, ver), reqs, batches)"
    and "proto_ok pl" "marshals js" "range_order ordw" "range_order ordi"
    and "runtimes_ok pl resps" "inj_on GenID (cluster_names resps)" "assignments_accepted reqs"
    and "length (concat batches) < 2 ^ 63"
    and "run_loop pl js ordw ordi lg (NewSidecar prefix) batches out = (s, ps, out')"
  shows "reachable pl js prefix s
    \<and> routes_agree pl (scCache s) (elems (gpRoutes p))
    \<and> upstreams_agree pl (scCache s) (map snd (gpUpstreams p))
    \<and> meta_keys (scEtcd s) = cache_keys prefix (scCache s)"
proof -
  note serves = grpc_events.source_run_serves [OF translateLoop_source [OF assms(1)] assms(2-5,9,10)]
  have "synced pl p (cache_after pl NewInMemoryCache (concat batches))"
    by (rule translateLoop_synced [OF assms(7,1) synced.start assms(6) subset_refl _ assms(8)])
      (simp add: NewGrpcProvisioner_def)
  with serves show ?thesis using synced_invariant by (auto simp: state_agrees_def)
qed

text \<open>The agent on a watched file, from the file to the cache. After any sequence of events of the file
  the loop of \<open>Run\<close> on the batches in their order ends in a reachable state whose cache holds exactly the
  routes of the manifest the provisioner keeps for the file: none once it is removed.\<close>

lemma file_agent_in_step:
  assumes "file_Run pl dec ordh NewFileProvisioner inputs = Ret (p, batches)"
    and "list_all (\<lambda>(op, g, content). g = f) inputs"
    and "proto_ok pl" "marshals js" "range_order ordw" "range_order ordi"
    and "length (concat batches) < 2 ^ 63"
    and "run_loop pl js ordw ordi lg (NewSidecar prefix) batches out = (s, ps, out')"
  shows "reachable pl js prefix s
    \<and> routes_agree pl (scCache s) (opt_routes (state_at p f))
    \<and> meta_keys (scEtcd s) = cache_keys prefix (scCache s)"
proof -
  have "source_run (file_source pl dec ordh) NewFileProvisioner inputs = Ret (p, batches)"
    using assms(1) by (simp add: file_Run_source)
  note serves = file_events.source_run_serves [OF this assms(3-8)]
  have "routes_agree pl NewInMemoryCache (opt_routes (state_at NewFileProvisioner f))"
    by (simp add: routes_agree_start opt_routes_def state_at_def NewFileProvisioner_def)
  from file_Run_sync [OF assms(3,1) _ this] assms(2) serves show ?thesis
    by (auto simp: list_all_iff)
qed

end
