(* ===== verification/End_To_End.thy ===== *)
theory End_To_End
  imports Agent_System Served_Resources File_Watch
begin

text \<open>
  From the control plane to APISIX: a provisioner, the sidecar's loop, the etcd server and the encoding
  of its values together. What a client decodes is compared with the routes the provisioner knows.
\<close>

section \<open>Definitions\<close>

text \<open>What a client gets of a directory of routes: the keys with the routes their values decode to.\<close>

definition decoded_routes :: "range_response \<Rightarrow> (string \<times> route option) list" where
  "decoded_routes resp = map (\<lambda>kv. (kvKey kv, Option.bind (kvValue kv) client_route)) (rsKvs resp)"

text \<open>What it should get, for a list of routes of which a later one replaces an earlier one with its
  identifier.\<close>

definition expected_routes :: "string \<Rightarrow> route list \<Rightarrow> (string \<times> route option) list" where
  "expected_routes prefix rs = map (\<lambda>(k, x). (route_key prefix k, Some (clean_route x))) (index_by rId rs)"

text \<open>A request for the directory of routes.\<close>

definition routes_request :: "string \<Rightarrow> range_request \<Rightarrow> bool" where
  "routes_request prefix r \<longleftrightarrow> plain_request r \<and> rqKey r = prefix @ ''/routes''
     \<and> rqRangeEnd r = Some (prefix @ ''/routet'') \<and> \<not> rqKeysOnly r"

text \<open>Routes that \<open>proto.Equal\<close> holds equal have the same JSON: they differ at most in nil and empty slices,
  which are written alike.\<close>

definition encodes_equal :: "proto_lib \<Rightarrow> (any_msg \<Rightarrow> json) \<Rightarrow> bool" where
  "encodes_equal pl any \<longleftrightarrow> (\<forall>a b. equal_route pl a b \<longrightarrow> route_json any a = route_json any b)"

section \<open>Lemmas\<close>

lemma encodes_equal_std: "encodes_equal std_lib any"
proof -
  have "route_json any (std_clone_route r) = route_json any r" for r
    by (simp add: route_json_def std_clone_route_def list_field_def omitempty_def Var_MarshalJSON_def comp_def
        norm_slice_def sappend_def split: option.split cong: map_cong)
  then show ?thesis by (auto simp: encodes_equal_def std_lib_def) metis
qed

text \<open>The adaptor makes no plugins.\<close>

lemma translateRoute_plugins:
  assumes "translateRoute prefix vhost hosts r = Ret rs" "x \<in> set rs"
  shows "rPlugins x = None"
proof -
  obtain c where c: "erAction r = RA_Route (CS_Cluster c)"
    using translateRoute_result [OF assms] by blast
  obtain m where m: "erMatch r = Some m"
    using assms(1) by (cases "erMatch r") (simp_all add: translateRoute_def)
  have ex: "expressible r"
    using translateRoute_inexpressible [of r prefix vhost hosts] assms m by fastforce
  from assms show ?thesis
    unfolding translateRoute_expressible [OF m ex c]
    by (auto simp: go_bind_Ret_iff Let_def zero_route_def split: if_splits)
qed

lemma TranslateRouteConfiguration_plugins:
  assumes "TranslateRouteConfiguration ordh rc opts = Ret rs" "x \<in> set rs"
  shows "rPlugins x = None"
proof -
  from assms(1) obtain ys where ys: "go_collect (translateVirtualHost ordh (rcName rc)) (rcVirtualHosts rc) = Ret ys"
    by (auto simp: TranslateRouteConfiguration_def go_bind_Ret_iff)
  with assms(1) have rs: "rs = ys \<or> (\<exists>d. rs = patchRoutesWithOriginalDestination ys d)"
    by (auto simp: TranslateRouteConfiguration_def split: option.splits)
  have "rPlugins y = None" if "y \<in> set ys" for y
    using go_collect_Ret_ex [OF ys that]
    by (auto simp: translateVirtualHost_def Let_def dest!: go_collect_Ret_ex translateRoute_plugins)
  with rs assms(2) show ?thesis by (auto simp: patchRoutesWithOriginalDestination_def)
qed

text \<open>A cache that agrees with a list of routes serves that list.\<close>

lemma cached_route_served:
  assumes "proto_ok pl" "encodes_equal pl any" "equal_route pl m x" "rPlugins x = None"
  shows "client_route (the (marshal_route (go_marshaller fmt any) (clone_route pl m))) = Some (clean_route x)"
    and "rId (clone_route pl m) = rId x"
proof -
  note pm = proto_okD(1) [OF assms(1)]
  have eq: "equal_route pl (clone_route pl m) x"
    using proto_message.clone_equal [OF pm] proto_message.equal_trans [OF pm] assms(3) by blast
  then show "rId (clone_route pl m) = rId x" by (rule proto_message.equal_ident [OF pm])
  from eq have "route_json any (clone_route pl m) = route_json any x"
    using assms(2) by (simp add: encodes_equal_def)
  then show "client_route (the (marshal_route (go_marshaller fmt any) (clone_route pl m))) = Some (clean_route x)"
    by (simp add: marshal_route_go client_route_text [OF assms(4)])
qed

lemma agree_routes_served:
  assumes "proto_ok pl" "encodes_equal pl any" "cache_ok c" "routes_agree pl c rs"
    and "\<forall>x \<in> set rs. rPlugins x = None"
  shows "(\<lambda>m. (route_key prefix (rId (clone_route pl m)),
        client_route (the (marshal_route (go_marshaller fmt any) (clone_route pl m))))) ` snd ` set (cRoute c)
    = set (expected_routes prefix rs)" (is "?f ` snd ` _ = _")
proof (intro set_eqI iffI)
  fix kx
  assume "kx \<in> ?f ` snd ` set (cRoute c)"
  then obtain k m where m: "(k, m) \<in> set (cRoute c)" "kx = ?f m" by auto
  then have "map_of (cRoute c) k = Some m" using assms(3) by (simp add: cache_ok_def map_of_eq_iff_mem)
  with assms(4) obtain x where x: "map_of (index_by rId rs) k = Some x" "equal_route pl m x"
    by (auto simp: routes_agree_def option_rel_Some1 dest!: spec [of _ k])
  have in_rs: "x \<in> set rs" "rId x = k" using index_by_Some [OF x(1)] by simp_all
  have "kx = (route_key prefix k, Some (clean_route x))"
    using cached_route_served [OF assms(1,2) x(2)] assms(5) in_rs m(2) by simp
  moreover have "(k, x) \<in> set (index_by rId rs)" using x(1) map_of_SomeD by fastforce
  ultimately show "kx \<in> set (expected_routes prefix rs)" by (auto simp: expected_routes_def)
next
  fix kx
  assume "kx \<in> set (expected_routes prefix rs)"
  then obtain k x where x: "(k, x) \<in> set (index_by rId rs)" "kx = (route_key prefix k, Some (clean_route x))"
    by (auto simp: expected_routes_def)
  then have i: "map_of (index_by rId rs) k = Some x" by (simp add: map_of_eq_iff_mem)
  with assms(4) obtain m where m: "map_of (cRoute c) k = Some m" "equal_route pl m x"
    by (auto simp: routes_agree_def option_rel_Some2 dest!: spec [of _ k])
  have in_rs: "x \<in> set rs" "rId x = k" using index_by_Some [OF i] by simp_all
  have "kx = ?f m"
    using cached_route_served [OF assms(1,2) m(2)] assms(5) in_rs x(2) by simp
  moreover have "m \<in> snd ` set (cRoute c)" using map_of_SomeD [OF m(1)] by force
  ultimately show "kx \<in> ?f ` snd ` set (cRoute c)" by blast
qed

lemma served_routes:
  assumes "proto_ok pl" "encodes_equal pl any" "cache_ok c" "routes_agree pl c rs"
    and "\<forall>x \<in> set rs. rPlugins x = None" "range_order ordr" "routes_request (keyPrefix e) r"
  shows "\<exists>e' resp. Range pl (go_marshaller fmt any) ordr ordu c rv e r = (e', Inr resp)
    \<and> set (decoded_routes resp) = set (expected_routes (keyPrefix e) rs)
    \<and> distinct (map fst (decoded_routes resp))"
proof -
  let ?js = "go_marshaller fmt any"
  from assms(7) obtain e' resp where range: "Range pl ?js ordr ordu c rv e r = (e', Inr resp)"
    and kvs: "rsKvs resp = map (\<lambda>x. kv_at rv e (route_key (keyPrefix e) (rId x)) (the (marshal_route ?js x)))
      (route_List pl ordr (cRoute c))"
    using Range_route_kvs [OF marshals_go] unfolding routes_request_def by blast
  have dec: "decoded_routes resp = map (\<lambda>(k, m). (route_key (keyPrefix e) (rId (clone_route pl m)),
      client_route (the (marshal_route ?js (clone_route pl m))))) (ordr (cRoute c))"
    by (simp add: decoded_routes_def kvs route_List_def kv_at_def comp_def split_beta)
  have "rId (clone_route pl m) = k" if "(k, m) \<in> set (ordr (cRoute c))" for k m
    using that assms(3) proto_message.ident_clone [OF proto_okD(1) [OF assms(1)]]
    by (auto simp: cache_ok_def range_order_set [OF assms(6)])
  then have "map fst (decoded_routes resp) = map (route_key (keyPrefix e)) (map fst (ordr (cRoute c)))"
    by (auto simp: dec)
  moreover have "inj_on (route_key (keyPrefix e)) A" for A by (auto simp: inj_on_def)
  moreover have "distinct (map fst (ordr (cRoute c)))"
    using assms(3) range_order_distinct_fst [OF assms(6)] by (simp add: cache_ok_def gm_ok_def)
  ultimately have "distinct (map fst (decoded_routes resp))" by (simp add: distinct_map comp_inj_on)
  moreover have "set (decoded_routes resp) = set (expected_routes (keyPrefix e) rs)"
    using agree_routes_served [OF assms(1-5), of "keyPrefix e" fmt]
    by (simp add: dec range_order_set [OF assms(6)] image_image split_beta)
  ultimately show ?thesis using range by blast
qed

text \<open>The routes the provisioners keep have no plugins.\<close>

definition plain_routes :: "route list \<Rightarrow> bool" where
  "plain_routes rs \<longleftrightarrow> (\<forall>x \<in> set rs. rPlugins x = None)"

lemma resource_loop_plain:
  "resource_loop pl dec ordh p resources rm upd = Ret (p', rm', upd') \<Longrightarrow> plain_routes (elems (mRoutes rm)) \<Longrightarrow>
     plain_routes (elems (mRoutes rm'))"
proof (induction resources arbitrary: p rm upd)
  case (Cons res rest)
  have r: "plain_routes rs" if "file_processRouteConfigurationV3 dec ordh res = Ret rs" for rs
    using that by (auto simp: file_processRouteConfigurationV3_def plain_routes_def
        dest: TranslateRouteConfiguration_plugins split: sum.splits)
  have app: "plain_routes xs \<Longrightarrow> plain_routes ys \<Longrightarrow> plain_routes (xs @ ys)" for xs ys
    by (auto simp: plain_routes_def)
  have mRoutes: "plain_routes (elems (mRoutes (rm\<lparr>mRoutes := sappend (mRoutes rm) rs\<rparr>)))"
    if "file_processRouteConfigurationV3 dec ordh res = Ret rs" for rs
    using app [OF Cons.prems(2) r [OF that]] by simp
  show ?case
    using Cons.prems(1) Cons.IH [OF _ mRoutes] Cons.IH Cons.prems(2)
    by (fastforce simp: go_bind_Ret_iff split: if_splits)
qed simp

lemma file_event_plain:
  assumes "handleFileEvent pl dec ordh p op file content = Ret (p', evs)" "plain_routes (opt_routes (state_at p g))"
  shows "plain_routes (opt_routes (state_at p' g))"
proof (cases "g = file")
  case False
  with file_event_other [OF assms(1) False] assms(2) show ?thesis by simp
next
  case True
  show ?thesis
  proof (cases "op = FsRemove")
    case True
    with assms \<open>g = file\<close> show ?thesis
      by (auto simp: handleFileEvent_def file_generateEvents_def Let_def state_at_def map_of_update opt_routes_def
          plain_routes_def split: option.splits)
  next
    case False
    show ?thesis
    proof (cases content)
      case (Response dr)
      with assms(1) False have "generateEventsFromDiscoveryResponseV3 pl dec ordh p file dr = Ret (p', evs)"
        by (simp add: handleFileEvent_def)
      then obtain p1 rm upd where "resource_loop pl dec ordh p (drResources dr) zero_manifest [] = Ret (p1, rm, upd)"
        "state_at p' file = Some rm"
        by (blast elim: file_state_after)
      with resource_loop_plain [OF this(1)] True show ?thesis
        by (simp add: opt_routes_def zero_manifest_def plain_routes_def)
    qed (use assms False in \<open>simp_all add: handleFileEvent_def\<close>)
  qed
qed

lemma file_Run_plain:
  "file_Run pl dec ordh p inputs = Ret (p', batches) \<Longrightarrow> plain_routes (opt_routes (state_at p g)) \<Longrightarrow>
     plain_routes (opt_routes (state_at p' g))"
proof (induction inputs arbitrary: p batches)
  case (Cons i rest)
  then show ?case by (cases i) (auto simp: go_bind_Ret_iff split: if_splits dest: file_event_plain)
qed simp

lemma eds_loop_routes: "eds_loop rt p resources ms = Ret (p', r) \<Longrightarrow> gpRoutes p' = gpRoutes p"
proof (induction resources arbitrary: p ms)
  case (Cons res rest)
  from Cons.prems obtain p1 r1 where s: "processClusterLoadAssignmentV3 rt p res = Ret (p1, r1)"
    and rest: "(case r1 of Inl e \<Rightarrow> Ret (p1, Inl e) | Inr ups \<Rightarrow>
        eds_loop rt (p1\<lparr>gpUpstreams := AList.update (uName ups) ups (gpUpstreams p1)\<rparr>) rest (ms @ [ups])) = Ret (p', r)"
    by (auto simp: go_bind_Ret_iff)
  from s have "gpRoutes p1 = gpRoutes p"
    by (auto simp: processClusterLoadAssignmentV3_def go_bind_Ret_iff Let_def split: sum.splits option.splits)
  with rest show ?case by (cases r1) (auto dest: Cons.IH)
qed simp

lemma translate_plain:
  assumes "translate rt p resp = Ret (p', reqs, r)" "plain_routes (elems (gpRoutes p))"
  shows "plain_routes (elems (gpRoutes p'))"
  using assms(1)
proof (cases rule: translate_cases)
  case rds
  from rds(3) show ?thesis
  proof (cases rule: translate_rds_cases)
    case (accept routes)
    have "rPlugins x = None" if "x \<in> set (elems routes)" for x
      using rds_loop_routes [OF accept(1) that] TranslateRouteConfiguration_plugins by auto
    with accept(2) show ?thesis by (simp add: plain_routes_def)
  qed (use assms(2) in simp)
next
  case cds
  from cds(2) show ?thesis by (cases rule: translate_cds_cases) (use assms(2) in simp_all)
next
  case eds
  from eds(3) obtain p1 r1 where l: "eds_loop rt p (drResources resp) [] = Ret (p1, r1)"
    by (auto simp: translate_eds_def go_bind_Ret_iff)
  with eds(3) have "eds_loop rt p (drResources resp) [] = Ret (p', r1)"
    by (cases r1) (simp_all add: translate_eds_def)
  from eds_loop_routes [OF this] assms(2) show ?thesis by simp
next
  case lds
  with translate_lds_frame [OF lds(2)] assms(2) show ?thesis by simp
qed (use assms(2) in simp)

lemma translateLoop_plain:
  "translateLoop (p, ver) resps = Ret ((p', ver'), reqs, batches) \<Longrightarrow> plain_routes (elems (gpRoutes p)) \<Longrightarrow>
     plain_routes (elems (gpRoutes p'))"
proof (induction resps arbitrary: p ver reqs batches)
  case (Cons i resps)
  obtain rt resp where i: "i = (rt, resp)" by (cases i)
  from Cons.prems(1) obtain p1 ver1 reqs1 batch reqs2 batches2
    where s: "translateLoop_step rt (p, ver) resp = Ret ((p1, ver1), reqs1, batch)"
      and rest: "translateLoop (p1, ver1) resps = Ret ((p', ver'), reqs2, batches2)"
    by (auto simp: i go_bind_Ret_iff)
  from s obtain reqs' r where "translate rt p resp = Ret (p1, reqs', r)" by (rule step_answer)
  from Cons.IH [OF rest translate_plain [OF this Cons.prems(2)]] show ?case .
qed simp

subsection \<open>Examples\<close>

definition route_decoders :: decoders where
  "route_decoders = example_decoders\<lparr>dec_route := (\<lambda>_. Inr example_configuration)\<rparr>"

definition route_file :: file_content where
  "route_file = Response \<lparr>drTypeUrl = '''', drVersionInfo = '''', drNonce = '''',
     drResources = [\<lparr>aTypeUrl = RouteConfigurationUrl, aValue = ''''\<rparr>]\<rparr>"

definition example_logger :: logger where
  "example_logger = \<lparr>lgWriter = Stderr, lgEncoder = ConsoleEncoder, lgLevel = InfoLevel, lgContext = ''''\<rparr>"

definition example_marshaller :: marshaller where
  "example_marshaller = go_marshaller (\<lambda>_. ''0.5'') (\<lambda>_. JNull)"

lemma example_route: "\<exists>y. TranslateRouteConfiguration rev example_configuration None = Ret [y]"
  by (simp add: TranslateRouteConfiguration_def example_configuration_def translateVirtualHost_def
      translateRoute_def getClusterName_def getURL_def getParametersMatchVars_def getHeadersMatchVars_def Let_def)

lemma example_watch:
  "\<exists>y p out. watch_Run std_lib route_decoders rev (\<lambda>_. ''WRITE'') (\<lambda>_. '''') example_logger (\<lambda>_. PlainFile)
      (\<lambda>_. route_file) (\<lambda>_. None) NewFileProvisioner [''f''] [WatchStop None] []
    = Ret (p, [[route_event EventAdd y]], out, Stopped) \<and> opt_routes (state_at p ''f'') = [y]"
proof -
  obtain y where y: "TranslateRouteConfiguration rev example_configuration None = Ret [y]"
    using example_route by blast
  let ?rm = "zero_manifest\<lparr>mRoutes := Some [y]\<rparr>"
  let ?p = "NewFileProvisioner\<lparr>fpState := [(''f'', Some ?rm)]\<rparr>"
  have "handleFileEvent std_lib route_decoders rev NewFileProvisioner FsWrite ''f'' route_file
      = Ret (?p, [route_event EventAdd y])"
    by (simp add: handleFileEvent_def route_file_def generateEventsFromDiscoveryResponseV3_def
        file_processRouteConfigurationV3_def route_decoders_def y file_generateEvents_def state_at_def
        NewFileProvisioner_def generateEvents_new manifest_Events_def zero_manifest_def sappend_def)
  moreover have "opt_routes (state_at ?p ''f'') = [y]" by (simp add: opt_routes_def state_at_def)
  ultimately show ?thesis
    by (intro exI [of _ y] exI [of _ ?p])
      (simp add: watch_Run_def handleInitialFileEvents_def file_batch_def Let_def)
qed

lemma example_request: "routes_request ''/a'' (plain_range ''/a/routes'' (Some ''/a/routet''))"
  by (simp add: routes_request_def)

section \<open>Properties\<close>

text \<open>C1: from the control plane to APISIX. Whatever responses the gRPC provisioner processes, as long as no
  load assignment is refused and the names of their clusters have different checksums, after the loop of
  \<open>Run\<close> on its batches the cache holds exactly the routes and upstreams the provisioner knows, with the
  etcd metadata of these objects; and a client that reads the directory of routes decodes exactly the
  routes the provisioner knows, each once and under its key.\<close>

theorem grpc_to_client:
  assumes "translateLoop (NewGrpcProvisioner, '''') resps = Ret ((p, ver), reqs, batches)"
    and "proto_ok pl" "encodes_equal pl any" "range_order ordw" "range_order ordi" "range_order ordr"
    and "runtimes_ok pl resps" "inj_on GenID (cluster_names resps)" "assignments_accepted reqs"
    and "length (concat batches) < 2 ^ 63"
    and "run_loop pl (go_marshaller fmt any) ordw ordi lg (NewSidecar prefix) batches out = (s, ps, out')"
    and "routes_request prefix r"
  shows "routes_agree pl (scCache s) (elems (gpRoutes p))
    \<and> upstreams_agree pl (scCache s) (map snd (gpUpstreams p))
    \<and> meta_keys (scEtcd s) = cache_keys prefix (scCache s)
    \<and> (\<exists>e' resp. Range pl (go_marshaller fmt any) ordr ordu (scCache s) (scRevision s) (scEtcd s) r = (e', Inr resp)
        \<and> set (decoded_routes resp) = set (expected_routes prefix (elems (gpRoutes p)))
        \<and> distinct (map fst (decoded_routes resp)))"
proof -
  note agent = grpc_agent_in_step [OF assms(1,2) marshals_go assms(4,5,7-11)]
  have ok: "cache_ok (scCache s)" "keyPrefix (scEtcd s) = prefix"
    using reachable_ok [OF assms(2) marshals_go] agent by (auto simp: sidecar_ok_def)
  have "plain_routes (elems (gpRoutes p))"
    using translateLoop_plain [OF assms(1)] by (simp add: NewGrpcProvisioner_def plain_routes_def)
  with agent served_routes [OF assms(2,3) ok(1) _ _ assms(6), of "elems (gpRoutes p)" "scEtcd s" r fmt ordu "scRevision s"]
    assms(12) show ?thesis by (simp add: ok(2) plain_routes_def)
qed

text \<open>C2: from a watched file to APISIX. After any run of the file provisioner on one file, its start and
  every event that arrives until it stops, the cache holds exactly the routes of the manifest kept for
  the file, with the etcd metadata of the cached objects; and a client that reads the directory of
  routes decodes exactly these routes, each once and under its key.\<close>

theorem file_to_client:
  assumes "watch_Run pl dec ordh opstr err lg0 stat readf add NewFileProvisioner [f] inputs [] = Ret (p, batches, out0, e)"
    and "stat f = PlainFile" "list_all (\<lambda>(op, g, content). g = f) (file_events inputs)"
    and "proto_ok pl" "encodes_equal pl any" "range_order ordw" "range_order ordi" "range_order ordr"
    and "length (concat batches) < 2 ^ 63"
    and "run_loop pl (go_marshaller fmt any) ordw ordi lg (NewSidecar prefix) batches out = (s, ps, out')"
    and "routes_request prefix r"
  shows "routes_agree pl (scCache s) (opt_routes (state_at p f))
    \<and> meta_keys (scEtcd s) = cache_keys prefix (scCache s)
    \<and> (\<exists>e' resp. Range pl (go_marshaller fmt any) ordr ordu (scCache s) (scRevision s) (scEtcd s) r = (e', Inr resp)
        \<and> set (decoded_routes resp) = set (expected_routes prefix (opt_routes (state_at p f)))
        \<and> distinct (map fst (decoded_routes resp)))"
proof -
  define evs where "evs = (FsWrite, f, readf f) #
    (if add_watches add [f] = None then filter (\<lambda>(op, _). op \<noteq> FsOther) (file_events inputs) else [])"
  have "initial_files stat [f] = Inr [f]" using assms(2) by simp
  with watch_run_events [OF assms(1)] have run: "file_Run pl dec ordh NewFileProvisioner evs = Ret (p, batches)"
    unfolding evs_def by (simp only: sum.case list.map append_Cons append_Nil)
  have all: "list_all (\<lambda>(op, g, content). g = f) evs"
    using assms(3) by (auto simp: evs_def list_all_iff)
  note agent = file_agent_in_step [OF run all assms(4) marshals_go assms(6,7,9,10)]
  have ok: "cache_ok (scCache s)" "keyPrefix (scEtcd s) = prefix"
    using reachable_ok [OF assms(4) marshals_go] agent by (auto simp: sidecar_ok_def)
  have "plain_routes (opt_routes (state_at p f))"
    using file_Run_plain [OF run] by (simp add: NewFileProvisioner_def plain_routes_def state_at_def opt_routes_def)
  with agent served_routes [OF assms(4,5) ok(1) _ _ assms(8), of "opt_routes (state_at p f)" "scEtcd s" r fmt ordu "scRevision s"]
    assms(11) show ?thesis by (simp add: ok(2) plain_routes_def)
qed

lemma file_to_client_witness:
  "\<exists>y (s::sidecar) e' resp. Range std_lib example_marshaller rev rev (scCache s) (scRevision s) (scEtcd s)
       (plain_range ''/a/routes'' (Some ''/a/routet'')) = (e', Inr resp)
     \<and> set (decoded_routes resp) = {(route_key ''/a'' (rId y), Some (clean_route y))}"
proof -
  obtain y p out where w: "watch_Run std_lib route_decoders rev (\<lambda>_. ''WRITE'') (\<lambda>_. '''') example_logger (\<lambda>_. PlainFile)
      (\<lambda>_. route_file) (\<lambda>_. None) NewFileProvisioner [''f''] [WatchStop None] []
    = Ret (p, [[route_event EventAdd y]], out, Stopped)" and y: "opt_routes (state_at p ''f'') = [y]"
    using example_watch by blast
  obtain s ps out' where r: "run_loop std_lib example_marshaller rev rev example_logger (NewSidecar ''/a'')
      [[route_event EventAdd y]] [] = (s, ps, out')"
    using prod_cases3 by blast
  have e: "expected_routes ''/a'' [y] = [(route_key ''/a'' (rId y), Some (clean_route y))]"
    by (simp add: expected_routes_def index_by_def)
  from file_to_client [OF w _ _ proto_ok_std encodes_equal_std range_order_rev range_order_rev range_order_rev
      _ r [unfolded example_marshaller_def] example_request, of rev]
  obtain e' resp where "Range std_lib example_marshaller rev rev (scCache s) (scRevision s) (scEtcd s)
      (plain_range ''/a/routes'' (Some ''/a/routet'')) = (e', Inr resp)"
    "set (decoded_routes resp) = set (expected_routes ''/a'' [y])"
    by (auto simp: y example_marshaller_def)
  with e show ?thesis by (intro exI [of _ y] exI [of _ s] exI [of _ e'] exI [of _ resp]) simp
qed

lemma grpc_to_client_witness:
  "\<exists>(s::sidecar) e' resp. upstreams_agree std_lib (scCache s) [upstream_e (Some [])]
     \<and> Range std_lib example_marshaller rev rev (scCache s) (scRevision s) (scEtcd s)
         (plain_range ''/a/routes'' (Some ''/a/routet'')) = (e', Inr resp) \<and> decoded_routes resp = []"
proof -
  let ?batches = "[generateEvents std_lib (Some (zero_manifest\<lparr>mUpstreams := Some [upstream_e (Some [])]\<rparr>))
      (Some (zero_manifest\<lparr>mUpstreams := None\<rparr>))]"
  obtain s ps out where r: "run_loop std_lib example_marshaller rev rev example_logger (NewSidecar ''/a'') ?batches []
      = (s, ps, out)"
    using prod_cases3 by blast
  have ok: "runtimes_ok std_lib [(example_runtime, response ClusterUrl [''e''])]"
    by (simp add: runtimes_ok_def)
  have inj: "inj_on GenID (cluster_names [(example_runtime, response ClusterUrl [''e''])])"
    using example_names by (rule inj_on_subset [rotated]) simp
  have acc: "assignments_accepted [discovery_for ClusterLoadAssignmentUrl [''e''],
      \<lparr>dqTypeUrl = ClusterUrl, dqResourceNames = [], dqVersionInfo = ''v1'', dqResponseNonce = ''n1'', dqErrorDetail = False\<rparr>]"
    by (simp add: assignments_accepted_def discovery_for_def)
  have "length (concat ?batches) \<le> 4"
    by (simp add: generateEvents_eq DiffFrom_def CompareRoutes_def CompareUpstreams_def compare_by_def
        zero_manifest_def manifest_Events_def sappend_def Let_def)
  then have len: "length (concat ?batches) < 2 ^ 63" by simp
  have e: "expected_routes ''/a'' [] = []" by (simp add: expected_routes_def index_by_def)
  from grpc_to_client [OF example_loop proto_ok_std encodes_equal_std range_order_rev range_order_rev
      range_order_rev ok inj acc len r [unfolded example_marshaller_def] example_request, of rev]
  obtain e' resp where "upstreams_agree std_lib (scCache s) [upstream_e (Some [])]"
    "Range std_lib example_marshaller rev rev (scCache s) (scRevision s) (scEtcd s)
      (plain_range ''/a/routes'' (Some ''/a/routet'')) = (e', Inr resp)"
    "set (decoded_routes resp) = set (expected_routes ''/a'' [])"
    by (auto simp: eds_state_def NewGrpcProvisioner_def example_marshaller_def)
  with e show ?thesis by (intro exI [of _ s] exI [of _ e'] exI [of _ resp]) simp
qed

end
