(* ===== verification/Agent_Commands.thy ===== *)
theory Agent_Commands
  imports Agent_Run Precheck Go_Json
begin

text \<open>
  The commands of the program (\<open>main.go\<close>, \<open>cmd\<close>): their options, with what they are bound to and
  their defaults, and what the commands do with them. Reading the command line is cobra's: a command
  gets the value of each option that is given. What the commands go on to do is in \<open>Agent_Run\<close>,
  \<open>Precheck\<close> and \<open>Iptables_Rules\<close>.
\<close>

section \<open>Definitions\<close>

subsection \<open>Options\<close>

text \<open>What cobra has read: the value an option is given, of the type it is declared with.\<close>

record command_line =
  clString :: "string \<Rightarrow> string option"
  clStrings :: "string \<Rightarrow> string list option"
  clBool :: "string \<Rightarrow> bool option"

definition no_options :: command_line where
  "no_options = \<lparr>clString = (\<lambda>_. None), clStrings = (\<lambda>_. None), clBool = (\<lambda>_. None)\<rparr>"

text \<open>An option: the variable it is bound to, as an update of it, its name and its default.\<close>

datatype 'c flag =
    StringVar "(string \<Rightarrow> string) \<Rightarrow> 'c \<Rightarrow> 'c" string string
  | StringSliceVar "(string list \<Rightarrow> string list) \<Rightarrow> 'c \<Rightarrow> 'c" string "string list"
  | BoolVar "(bool \<Rightarrow> bool) \<Rightarrow> 'c \<Rightarrow> 'c" string bool

definition given_or :: "'a option \<Rightarrow> 'a \<Rightarrow> 'a" where
  "given_or given dflt = (case given of None \<Rightarrow> dflt | Some v \<Rightarrow> v)"

fun bind_flag :: "command_line \<Rightarrow> 'c flag \<Rightarrow> 'c \<Rightarrow> 'c" where
  "bind_flag cl (StringVar upd name dflt) = upd (\<lambda>_. given_or (clString cl name) dflt)"
| "bind_flag cl (StringSliceVar upd name dflt) = upd (\<lambda>_. given_or (clStrings cl name) dflt)"
| "bind_flag cl (BoolVar upd name dflt) = upd (\<lambda>_. given_or (clBool cl name) dflt)"

definition bind_flags :: "command_line \<Rightarrow> 'c flag list \<Rightarrow> 'c \<Rightarrow> 'c" where
  "bind_flags cl flags = fold (bind_flag cl) flags"

subsection \<open>The sidecar\<close>

definition sidecar_flags :: "config flag list" where
  "sidecar_flags =
     [StringVar LogOutput_update ''log-output'' ''stderr'',
      StringVar LogLevel_update ''log-level'' ''info'',
      StringVar Provisioner_update ''provisioner'' XDSV3FileProvisioner,
      StringSliceVar XDSWatchFiles_update ''xds-watch-files'' [],
      StringVar GRPCListen_update ''grpc-listen'' DefaultGRPCListen,
      StringVar EtcdKeyPrefix_update ''etcd-key-prefix'' DefaultEtcdKeyPrefix,
      StringVar XDSConfigSource_update ''xds-config-source'' '''',
      StringVar RunMode_update ''run-mode'' StandaloneMode,
      StringVar APISIXBinPath_update ''apisix-bin-path'' DefaultAPISIXBinPath,
      StringVar APISIXHomePath_update ''apisix-home-path'' DefaultAPISIXHomePath]"

definition sidecar_config :: "command_line \<Rightarrow> string \<Rightarrow> running_context \<Rightarrow> config" where
  "sidecar_config cl uuid ctx = bind_flags cl sidecar_flags (NewDefaultConfig uuid ctx)"

text \<open>What becomes of a run of the program: an error of cobra's before the command is run, or what the
  command prints on the standard error stream and the exit status, if it ends.\<close>

datatype execution = Failed string | Ran string "nat option"

definition sidecar_main ::
    "proto_lib \<Rightarrow> marshaller \<Rightarrow> (i64, watch_stream) iter \<Rightarrow> (i64, unit) iter \<Rightarrow> machine \<Rightarrow> (string \<Rightarrow> string option)
       \<Rightarrow> run_world \<Rightarrow> string \<Rightarrow> running_context \<Rightarrow> string + command_line \<Rightarrow> execution" where
  "sidecar_main pl js ordw ordi mc listen w uuid ctx cobra =
     (case cobra of
        Inl err \<Rightarrow> Failed err
      | Inr cl \<Rightarrow> (case sidecar_command pl js ordw ordi mc listen w (sidecar_config cl uuid ctx) of (out, st) \<Rightarrow> Ran out st))"

text \<open>
  \<open>waitForSignal\<close>, with the signals the process is sent, each a number and a name: the first is logged by
  the default logger \<open>lg\<close> and closes the channel, if there is one; the others stay in the channel of
  \<open>signal.Notify\<close>, and the process is not ended by them.
\<close>

definition waitForSignal :: "logger \<Rightarrow> (int \<times> string) list \<Rightarrow> written \<Rightarrow> written \<times> bool" where
  "waitForSignal lg sigs out =
     (case sigs of
        [] \<Rightarrow> (out, False)
      | (num, name) # _ \<Rightarrow>
          (default_log_at InfoLevel [''sidecar.go''] lg
             (Templated ''signal %d (%s) received'' [AInt num, AString name]) out, True))"

subsection \<open>What the sidecar logs\<close>

text \<open>\<open>json.MarshalIndent\<close> without a prefix: \<open>k\<close> is the depth.\<close>

definition line_break :: "string \<Rightarrow> nat \<Rightarrow> string" where
  "line_break indent k = newline @ concat (replicate k indent)"

fun indented :: "string \<Rightarrow> nat \<Rightarrow> json \<Rightarrow> string" and indented_elems :: "string \<Rightarrow> nat \<Rightarrow> json list \<Rightarrow> string"
  and indented_members :: "string \<Rightarrow> nat \<Rightarrow> (string \<times> json) list \<Rightarrow> string" where
  "indented i k JNull = ''null''"
| "indented i k (JBool b) = (if b then ''true'' else ''false'')"
| "indented i k (JNum lit) = lit"
| "indented i k (JStr s) = quoted s"
| "indented i k (JArr []) = ''[]''"
| "indented i k (JArr (x # xs)) = ''['' @ indented_elems i (Suc k) (x # xs) @ line_break i k @ '']''"
| "indented i k (JObj []) = ''{}''"
| "indented i k (JObj (m # ms)) = ''{'' @ indented_members i (Suc k) (m # ms) @ line_break i k @ ''}''"
| "indented_elems i k [] = ''''"
| "indented_elems i k [x] = line_break i k @ indented i k x"
| "indented_elems i k (x # y # ys) = line_break i k @ indented i k x @ '','' @ indented_elems i k (y # ys)"
| "indented_members i k [] = ''''"
| "indented_members i k [(key, v)] = line_break i k @ quoted key @ '': '' @ indented i k v"
| "indented_members i k ((key, v) # m # ms) =
     line_break i k @ quoted key @ '': '' @ indented i k v @ '','' @ indented_members i k (m # ms)"

text \<open>The list of files is nil when the option is not given.\<close>

definition config_json :: "bool \<Rightarrow> config \<Rightarrow> json" where
  "config_json nil_files cfg =
     JObj [(''RunId'', JStr (RunId cfg)), (''log_level'', JStr (LogLevel cfg)), (''log_output'', JStr (LogOutput cfg)),
       (''provisioner'', JStr (Provisioner cfg)),
       (''xds_watch_files'', if nil_files then JNull else JArr (map JStr (XDSWatchFiles cfg))),
       (''xds_config_source'', JStr (XDSConfigSource cfg)), (''grpc_listen'', JStr (GRPCListen cfg)),
       (''etcd_key_prefix'', JStr (EtcdKeyPrefix cfg)), (''run_mode'', JStr (RunMode cfg)),
       (''apisix_home_path'', JStr (APISIXHomePath cfg)), (''apisix_bin_path'', JStr (APISIXBinPath cfg)),
       (''running_context'', JObj [(''PodNamespace'', JStr (PodNamespace (RunningContext cfg))),
          (''IPAddress'', JStr (IPAddress (RunningContext cfg)))])]"

text \<open>Everything a run of the command logs, with \<open>version\<close> the text of the version. The deferred message at
  the end is logged when \<open>Run\<close> returns without an error and when it panics; \<open>dief\<close> skips it.\<close>

definition sidecar_logs ::
    "proto_lib \<Rightarrow> marshaller \<Rightarrow> (i64, watch_stream) iter \<Rightarrow> (i64, unit) iter \<Rightarrow> machine \<Rightarrow> (string \<Rightarrow> string option)
       \<Rightarrow> run_world \<Rightarrow> string \<Rightarrow> bool \<Rightarrow> config \<Rightarrow> written" where
  "sidecar_logs pl js ordw ordi mc listen w version nil_files cfg =
     (case NewLogger (mcOpen mc) [WithLogLevel (LogLevel cfg), WithOutputFile (LogOutput cfg)] of
        Inl _ \<Rightarrow> []
      | Inr lg \<Rightarrow>
          (case Validate cfg of
             Some _ \<Rightarrow> []
           | None \<Rightarrow>
               (let info = default_log_at InfoLevel [''sidecar.go''] lg;
                    exited = info (Plain [AString ''apisix-mesh-agent exited'']);
                    out1 = info (Structured ''apisix-mesh-agent started'' []) [];
                    out2 = info (Plain [AString (''version:'' @ newline), AString version]) out1;
                    out3 = info (Plain [AString (''use configuration:'' @ newline),
                             AString (indented ''    '' 0 (config_json nil_files cfg))]) out2
                in case agent_NewSidecar mc listen cfg of
                     Inl _ \<Rightarrow> out3
                   | Inr ag \<Rightarrow>
                       (case agent_Run pl js ordw ordi w ag out3 of
                          (_, _, out4, Returned None) \<Rightarrow> exited out4
                        | (_, _, out4, Crashed) \<Rightarrow> exited out4
                        | (_, _, out4, _) \<Rightarrow> out4))))"

subsection \<open>The other commands\<close>

record precheck_paths =
  ppBin :: string
  ppHome :: string

definition precheck_flags :: "precheck_paths flag list" where
  "precheck_flags =
     [StringVar ppBin_update ''apisix-bin-path'' ''/usr/local/bin/apisix'',
      StringVar ppHome_update ''apisix-home-path'' ''/usr/local/apisix'']"

definition precheck_main ::
    "(string \<Rightarrow> string + bool) \<Rightarrow> (string list \<Rightarrow> string option) \<Rightarrow> string + command_line \<Rightarrow> execution" where
  "precheck_main stat run cobra =
     (case cobra of
        Inl err \<Rightarrow> Failed err
      | Inr cl \<Rightarrow>
          (let p = bind_flags cl precheck_flags \<lparr>ppBin = '''', ppHome = ''''\<rparr>
           in Ran (snd (check stat run (ppBin p) (ppHome p))) (Some (precheck_code stat run (ppBin p) (ppHome p)))))"

record setup_options =
  soConfig :: ipt_config
  soInterceptionMode :: string
  soDryRun :: bool
  soUser :: string

definition setup_flags :: "setup_options flag list" where
  "setup_flags =
     [StringVar soInterceptionMode_update ''inbound-interception-mode'' ''REDIRECT'',
      StringVar (soConfig_update \<circ> InboundCapturePort_update) ''apisix-inbound-capture-port'' ''9081'',
      StringVar (soConfig_update \<circ> ProxyPort_update) ''apisix-port'' ''9080'',
      StringVar (soConfig_update \<circ> InboundPortsInclude_update) ''inbound-ports'' '''',
      StringVar (soConfig_update \<circ> OutboundPortsInclude_update) ''outbound-ports'' '''',
      StringVar (soConfig_update \<circ> InboundPortsExclude_update) ''inbound-exclude-ports'' '''',
      StringVar (soConfig_update \<circ> OutboundPortsExclude_update) ''outbound-exclude-ports'' '''',
      BoolVar soDryRun_update ''dry-run'' False,
      StringVar soUser_update ''apisix-user'' ''nobody'']"

text \<open>The dry run hands the commands to Istio's stub, which prints them: the argument \<open>stub\<close> is its effect, as
  \<open>exec\<close> is that of running them.\<close>

definition zero_setup :: setup_options where
  "zero_setup = \<lparr>soConfig = \<lparr>ProxyPort = '''', InboundCapturePort = '''', InboundPortsInclude = '''',
       InboundPortsExclude = '''', OutboundPortsInclude = '''', OutboundPortsExclude = '''', ProxyUID = '''',
       ProxyGID = ''''\<rparr>, soInterceptionMode = '''', soDryRun = False, soUser = ''''\<rparr>"

definition setup_settings :: "command_line \<Rightarrow> setup_options" where
  "setup_settings cl = bind_flags cl setup_flags zero_setup"

definition iptables_main ::
    "(string list \<Rightarrow> 's \<Rightarrow> 's option) \<Rightarrow> (string list \<Rightarrow> 's \<Rightarrow> 's option) \<Rightarrow> (ipt_rule list \<Rightarrow> string list list)
       \<Rightarrow> (string \<Rightarrow> (string \<times> string) option) \<Rightarrow> command_line \<Rightarrow> 's \<Rightarrow> 's go" where
  "iptables_main exec stub build lookup cl s =
     (let so = setup_settings cl
      in setup_command (if soDryRun so then stub else exec) build lookup (soUser so) (soConfig so) s)"

definition cleanup_flags :: "bool flag list" where
  "cleanup_flags = [BoolVar (\<lambda>f. f) ''dry-run'' False]"

definition cleanup_main ::
    "(string list \<Rightarrow> 's \<Rightarrow> 's option) \<Rightarrow> (string list \<Rightarrow> 's \<Rightarrow> 's option) \<Rightarrow> command_line \<Rightarrow> 's \<Rightarrow> 's" where
  "cleanup_main exec stub cl s =
     (let dryRun = bind_flags cl cleanup_flags False in cleanup (if dryRun then stub else exec) s)"

subsection \<open>The version\<close>

text \<open>The variables set at build time, and what the Go runtime says about itself.\<close>

record build_info =
  biVersion :: string
  biGitRevision :: string
  biTimestamp :: string
  biGoVersion :: string
  biOS :: string
  biArch :: string

definition unknown_build :: "string \<Rightarrow> string \<Rightarrow> string \<Rightarrow> build_info" where
  "unknown_build go_version os arch = \<lparr>biVersion = ''unknown'', biGitRevision = ''unknown'', biTimestamp = ''0'',
     biGoVersion = go_version, biOS = os, biArch = arch\<rparr>"

definition Short :: "build_info \<Rightarrow> string" where
  "Short bi = biVersion bi"

text \<open>\<open>strconv.ParseInt\<close> to the base 10 and of 32 bits.\<close>

definition ParseInt32 :: "string \<Rightarrow> int option" where
  "ParseInt32 s = (case Atoi s of None \<Rightarrow> None | Some n \<Rightarrow> if - (2 ^ 31) \<le> n \<and> n < 2 ^ 31 then Some n else None)"

definition version_String :: "(int \<Rightarrow> string) \<Rightarrow> build_info \<Rightarrow> string" where
  "version_String date bi =
     ''Version: '' @ biVersion bi @ newline @ ''Git SHA: '' @ biGitRevision bi @ newline
     @ ''Go Version: '' @ biGoVersion bi @ newline @ ''OS/Arch: '' @ biOS bi @ ''/'' @ biArch bi @ newline
     @ (case ParseInt32 (biTimestamp bi) of
          None \<Rightarrow> ''Build Date: unknown''
        | Some ts \<Rightarrow> ''Build Date: '' @ date ts) @ newline"

text \<open>The command prints it with one more line end, on the standard output.\<close>

definition version_command :: "(int \<Rightarrow> string) \<Rightarrow> build_info \<Rightarrow> string" where
  "version_command date bi = version_String date bi @ newline"

subsection \<open>The program\<close>

text \<open>The names of the commands the root command has.\<close>

definition mesh_agent_commands :: "string list" where
  "mesh_agent_commands = [''sidecar'', ''version'', ''precheck'', ''iptables'', ''cleanup-iptables'']"

text \<open>\<open>main\<close>: what is printed on the standard error stream, and the exit status.\<close>

definition main :: "execution \<Rightarrow> string \<times> nat option" where
  "main e = (case e of Failed err \<Rightarrow> (err @ newline, Some 1) | Ran out st \<Rightarrow> (out, st))"

section \<open>Specification\<close>

text \<open>The command lines of which the sidecar can be started, on a machine where nothing fails: the log
  level is known, the address to listen on is well formed, and there are files to watch or a control
  plane to ask.\<close>

definition can_start :: "command_line \<Rightarrow> bool" where
  "can_start cl \<longleftrightarrow>
     (let given = (\<lambda>name dflt. given_or (clString cl name) dflt); provisioner = given ''provisioner'' ''xds-v3-file''
      in given ''log-level'' ''info'' \<in> set (map fst levelMap)
       \<and> listen_ok (given ''grpc-listen'' ''127.0.0.1:2379'')
       \<and> (provisioner = ''xds-v3-file'' \<and> given_or (clStrings cl ''xds-watch-files'') [] \<noteq> []
          \<or> provisioner = ''xds-v3-grpc'' \<and> HasPrefix (given ''xds-config-source'' '''') ''grpc://''))"

section \<open>Lemmas\<close>

lemma given_or_simps [simp]: "given_or None d = d" "given_or (Some v) d = v"
  by (simp_all add: given_or_def)

lemma no_options_simps [simp]:
  "clString no_options = (\<lambda>_. None)" "clStrings no_options = (\<lambda>_. None)" "clBool no_options = (\<lambda>_. None)"
  by (simp_all add: no_options_def)

lemma sidecar_config_fields:
  "sidecar_config cl uuid ctx =
     \<lparr>RunId = uuid, LogLevel = given_or (clString cl ''log-level'') ''info'',
      LogOutput = given_or (clString cl ''log-output'') ''stderr'',
      Provisioner = given_or (clString cl ''provisioner'') XDSV3FileProvisioner,
      XDSWatchFiles = given_or (clStrings cl ''xds-watch-files'') [],
      XDSConfigSource = given_or (clString cl ''xds-config-source'') '''',
      GRPCListen = given_or (clString cl ''grpc-listen'') DefaultGRPCListen,
      EtcdKeyPrefix = given_or (clString cl ''etcd-key-prefix'') DefaultEtcdKeyPrefix,
      RunMode = given_or (clString cl ''run-mode'') StandaloneMode,
      APISIXHomePath = given_or (clString cl ''apisix-home-path'') DefaultAPISIXHomePath,
      APISIXBinPath = given_or (clString cl ''apisix-bin-path'') DefaultAPISIXBinPath, RunningContext = ctx\<rparr>"
  by (simp add: sidecar_config_def bind_flags_def sidecar_flags_def NewDefaultConfig_def)

text \<open>The defaults are declared twice, here and in \<open>NewDefaultConfig\<close>, and they agree.\<close>

lemma sidecar_config_default: "sidecar_config no_options uuid ctx = NewDefaultConfig uuid ctx"
  by (simp add: sidecar_config_fields NewDefaultConfig_def)

lemma precheck_defaults:
  "bind_flags no_options precheck_flags p = \<lparr>ppBin = DefaultAPISIXBinPath, ppHome = DefaultAPISIXHomePath\<rparr>"
  by (cases p) (simp add: bind_flags_def precheck_flags_def DefaultAPISIXBinPath_def DefaultAPISIXHomePath_def)

lemma setup_defaults:
  "setup_settings no_options =
     \<lparr>soConfig = default_ipt_config, soInterceptionMode = ''REDIRECT'', soDryRun = False, soUser = ''nobody''\<rparr>"
  by (simp add: setup_settings_def bind_flags_def setup_flags_def zero_setup_def default_ipt_config_def)

text \<open>The mode of interception is an option that nothing reads.\<close>

lemma interception_mode_unused:
  "iptables_main exec stub build lookup (cl\<lparr>clString := (clString cl)(''inbound-interception-mode'' := v)\<rparr>) s
     = iptables_main exec stub build lookup cl s"
  by (simp add: iptables_main_def setup_settings_def bind_flags_def setup_flags_def zero_setup_def Let_def)

lemma levels_known: "map_of levelMap l \<noteq> None \<longleftrightarrow> l \<in> set (map fst levelMap)"
  by (simp add: map_of_eq_None_iff)

lemma info_known: "map_of levelMap ''info'' = Some InfoLevel"
  by (simp add: levelMap_def)

lemma NewLogger_works:
  assumes "works mc" "loWriteSyncer (apply_options opts) = None" "loLogLevel (apply_options opts) = l"
  shows "(\<exists>lg. NewLogger (mcOpen mc) opts = Inr lg) \<longleftrightarrow> map_of levelMap l \<noteq> None"
  using assms by (cases "map_of levelMap l") (simp_all add: NewLogger_def works_def Let_def)

lemmas option_simps = apply_options_def default_options_def WithOutputFile_def WithLogLevel_def WithContext_def

lemma agent_NewSidecar_works:
  assumes "works mc" "\<forall>a. listen a = None"
  shows "(\<exists>ag. agent_NewSidecar mc listen cfg = Inr ag) \<longleftrightarrow>
    (\<exists>p. newProvisioner mc cfg = Inr p) \<and> map_of levelMap (LogLevel cfg) \<noteq> None"
proof (cases "newProvisioner mc cfg")
  case (Inr p)
  have lg: "(\<exists>lg. NewLogger (mcOpen mc) [WithContext ''sidecar'', WithLogLevel (LogLevel cfg),
        WithOutputFile (LogOutput cfg)] = Inr lg) \<longleftrightarrow> map_of levelMap (LogLevel cfg) \<noteq> None"
    "(\<exists>lg. NewLogger (mcOpen mc) [WithLogLevel (LogLevel cfg), WithOutputFile (LogOutput cfg),
        WithContext ''etcdv3''] = Inr lg) \<longleftrightarrow> map_of levelMap (LogLevel cfg) \<noteq> None"
    by (rule NewLogger_works [OF assms(1)]; simp add: option_simps)+
  show ?thesis
  proof (cases "map_of levelMap (LogLevel cfg) = None")
    case True
    with lg(1) Inr show ?thesis by (auto simp: agent_NewSidecar_def split: sum.split)
  next
    case False
    then obtain l1 l2 where
      "NewLogger (mcOpen mc) [WithContext ''sidecar'', WithLogLevel (LogLevel cfg), WithOutputFile (LogOutput cfg)] = Inr l1"
      "NewLogger (mcOpen mc) [WithLogLevel (LogLevel cfg), WithOutputFile (LogOutput cfg), WithContext ''etcdv3''] = Inr l2"
      using lg(1) lg(2) by blast
    with False Inr assms(2) show ?thesis by (simp add: agent_NewSidecar_def Let_def)
  qed
qed (simp add: agent_NewSidecar_def)

lemma can_start_startable:
  "can_start cl \<longleftrightarrow> Validate (sidecar_config cl uuid ctx) = None \<and> startable (sidecar_config cl uuid ctx)"
proof -
  have "HasPrefix source ''grpc://'' \<Longrightarrow> source \<noteq> ''''" for source
    by (auto simp: HasPrefix_def)
  then show ?thesis
    unfolding Validate_iff startable_def can_start_def Let_def levels_known [symmetric] sidecar_config_fields
    by (auto simp: provisioner_names DefaultGRPCListen_def)
qed

lemma can_start_iff:
  assumes "works mc" "\<forall>a. listen a = None"
  shows "can_start cl \<longleftrightarrow> Validate (sidecar_config cl uuid ctx) = None
    \<and> (\<exists>ag. agent_NewSidecar mc listen (sidecar_config cl uuid ctx) = Inr ag)"
  using validated_but_refused [OF assms(1), of "sidecar_config cl uuid ctx"]
  by (auto simp only: can_start_startable [of cl uuid ctx] agent_NewSidecar_works [OF assms] startable_def)

text \<open>The build date, in seconds since the epoch, is parsed in 32 bits: a binary built from 2038 on does
  not know it.\<close>

lemma version_build_date:
  "version_String date (bi\<lparr>biTimestamp := fmt_d n\<rparr>) =
     ''Version: '' @ biVersion bi @ newline @ ''Git SHA: '' @ biGitRevision bi @ newline
     @ ''Go Version: '' @ biGoVersion bi @ newline @ ''OS/Arch: '' @ biOS bi @ ''/'' @ biArch bi @ newline
     @ ''Build Date: '' @ (if n < 2 ^ 31 then date (int n) else ''unknown'') @ newline"
  by (auto simp: version_String_def ParseInt32_def Atoi_fmt_d)

section \<open>Properties\<close>

text \<open>C31: which command lines start the sidecar, on a machine where nothing fails. Every other one ends
  it with status 1 and a message; without any option, the message is that there is no file to watch.\<close>

theorem sidecar_starts:
  assumes "works mc" "\<forall>a. listen a = None"
  shows "(can_start cl \<longleftrightarrow> Validate (sidecar_config cl uuid ctx) = None
      \<and> (\<exists>ag. agent_NewSidecar mc listen (sidecar_config cl uuid ctx) = Inr ag))
    \<and> (\<not> can_start cl \<longrightarrow>
        (\<exists>message. sidecar_main pl js ordw ordi mc listen w uuid ctx (Inr cl) = Ran message (Some 1) \<and> message \<noteq> ''''))
    \<and> sidecar_main pl js ordw ordi mc listen w uuid ctx (Inr no_options) =
        Ran (''initialization failure: xds-v3-file provisioner: no watch files'' @ newline) (Some 1)"
proof -
  let ?c = "sidecar_config cl uuid ctx"
  have fails: "\<exists>message. sidecar_main pl js ordw ordi mc listen w uuid ctx (Inr cl) = Ran message (Some 1) \<and> message \<noteq> ''''"
    if "\<not> can_start cl"
    using that can_start_iff [OF assms, of cl uuid ctx]
    by (auto simp: sidecar_main_def sidecar_command_def dief_text_def split: sum.split option.split)
  have "\<exists>lg. NewLogger (mcOpen mc) [WithLogLevel (LogLevel (NewDefaultConfig uuid ctx)),
      WithOutputFile (LogOutput (NewDefaultConfig uuid ctx))] = Inr lg"
    by (subst NewLogger_works [OF assms(1), where l = "''info''"])
      (simp_all add: option_simps NewDefaultConfig_def info_known)
  then have "sidecar_main pl js ordw ordi mc listen w uuid ctx (Inr no_options) =
        Ran (''initialization failure: xds-v3-file provisioner: no watch files'' @ newline) (Some 1)"
    by (auto simp: sidecar_main_def sidecar_config_default sidecar_command_def agent_NewSidecar_def dief_text_def
        default_refused newline_def)
  with fails can_start_iff [OF assms, of cl uuid ctx] show ?thesis by blast
qed

lemma sidecar_starts_witness:
  "\<exists>ag. agent_NewSidecar quiet_machine (\<lambda>_. None)
    (sidecar_config (no_options\<lparr>clStrings := [''xds-watch-files'' \<mapsto> [''a.json'']]\<rparr>) ''r'' example_context) = Inr ag"
proof -
  have "can_start (no_options\<lparr>clStrings := [''xds-watch-files'' \<mapsto> [''a.json'']]\<rparr>)"
    using listen_ok_default info_known levels_known [of "''info''"]
    by (simp add: can_start_def Let_def DefaultGRPCListen_def)
  moreover have "works quiet_machine" by (simp add: works_def)
  ultimately show ?thesis
    using sidecar_starts [of quiet_machine "\<lambda>_. None" "no_options\<lparr>clStrings := [''xds-watch-files'' \<mapsto> [''a.json'']]\<rparr>"]
    by blast
qed

end
