(* ===== verification/Spec2Isabelle.thy ===== *)
theory Spec2Isabelle
  imports Grpc_Facts Grpc_Connection File_Provisioner Sidecar Event_Channel Etcd_Delivery Etcd_Races
    Validation_Errors Served_Resources File_Watch Etcd_Serve
    Agent_Log Agent_Config Agent_Run End_To_End Agent_Commands Iptables_Rules Precheck
begin

text \<open>
  A verification library of apisix-mesh-agent, the sidecar that turns Envoy's xDS configuration
  into APISIX resources and serves them to Apache APISIX as an etcd v3 server. This theory states
  the properties that span components and imports the others.

  \<^bold>\<open>The program.\<close> A provisioner receives xDS resources (\<open>pkg/provisioner/xds/v3/grpc\<close> over a gRPC
  stream, \<open>.../file\<close> from watched files), has the adaptor (\<open>pkg/adaptor/xds/v3\<close>) translate them to
  routes and upstreams, compares these with what it knew (\<open>pkg/provisioner/util\<close>, \<open>pkg/apisix\<close>)
  and sends the differences as a batch of events. The sidecar (\<open>pkg/sidecar\<close>) reflects a batch to
  the object cache (\<open>pkg/cache\<close>), numbering the events, and pushes it to the etcd server
  (\<open>pkg/etcdv3\<close>), which keeps two revisions per key, informs the watchers, and answers range and
  watch requests out of the cache. Around this core the command (\<open>cmd/sidecar\<close>) validates a
  configuration (\<open>pkg/config\<close>), sets up the sidecar and, in the bundle mode, an APISIX process; other
  commands redirect a pod's traffic to APISIX (\<open>cmd/iptables\<close>) and check that they did (\<open>cmd/precheck\<close>).

  \<^bold>\<open>Theories and code.\<close>
  \<^item> \<open>Mesh_Prelude\<close>: Go slices, maps, panics, machine integers; the lemma collections.
  \<^item> \<open>Go_Strings\<close>: the functions of \<open>strings\<close>, \<open>sort\<close> and \<open>fmt\<close> the code calls.
  \<^item> \<open>Id_Gen\<close>, \<open>String_Set\<close>: \<open>pkg/id\<close> with the CRC-32 it uses, \<open>pkg/set\<close>.
  \<^item> \<open>Apisix_Types\<close>: the structs of \<open>pkg/types/apisix\<close>, the events and type URLs of \<open>pkg/types\<close>.
  \<^item> \<open>Proto_Message\<close>: \<open>proto.Clone\<close> and \<open>proto.Equal\<close>, parameters of the model (\<open>proto_lib\<close>) with
    the laws of the locale \<open>proto_message\<close>; \<open>std_lib\<close> is an instance that distinguishes nil slices,
    as the library does.
  \<^item> \<open>Resource_Diff\<close>: \<open>CompareRoutes\<close>, \<open>CompareUpstreams\<close>, \<open>Manifest\<close>, \<open>generateEvents\<close>.
  \<^item> \<open>Object_Cache\<close>: the two stores of \<open>pkg/cache\<close>, both instances of the locale \<open>object_store\<close>.
  \<^item> \<open>Cache_Reflection\<close>: \<open>reflectToCache\<close> of \<open>pkg/sidecar/cachereflection.go\<close>.
  \<^item> \<open>Xds_Types\<close>, \<open>Xds_Cluster\<close>, \<open>Xds_Route\<close>, \<open>Xds_Listener\<close>: Envoy's messages and the three files
    of the adaptor.
  \<^item> \<open>Validators\<close>, \<open>Validation_Errors\<close>: the \<open>Validate\<close> methods of the resources and the types of the
    errors they return.
  \<^item> \<open>Etcd_State\<close>, \<open>Etcd_KV\<close>, \<open>Etcd_Push\<close>, \<open>Etcd_Watch\<close>: \<open>conformance.go\<close>, \<open>kv.go\<close>, the push of
    \<open>etcd.go\<close> with the goroutines that deliver responses (\<open>deliver\<close>, a step relation), \<open>watch.go\<close>.
  \<^item> \<open>Etcd_Serve\<close>: \<open>Serve\<close>, \<open>Shutdown\<close>, the gateway and the HTTP side of \<open>etcd.go\<close>, of which \<open>serve_result\<close>
    in \<open>Agent_Run\<close> is the abstraction (\<open>abs_serve\<close>).
  \<^item> \<open>Go_Utf8\<close>, \<open>Go_Json\<close>: \<open>unicode/utf8\<close> and \<open>encoding/json\<close>, with a reader as the reference.
  \<^item> \<open>Resource_Json\<close>, \<open>Served_Resources\<close>: the JSON of the resources by the tags of their structs and
    \<open>Var.MarshalJSON\<close> (\<open>workaround.go\<close>), and what a client of the etcd server decodes.
  \<^item> \<open>Grpc_Provisioner\<close> (the definitions), \<open>Grpc_Sync\<close>, \<open>Grpc_Facts\<close>: \<open>types.go\<close> and
    \<open>delivery.go\<close> of the gRPC provisioner. \<open>synced\<close> is the system of provisioner and cache.
  \<^item> \<open>File_Provisioner\<close>: the same of the file provisioner; \<open>File_Watch\<close>: its \<open>Run\<close> with the watcher.
  \<^item> \<open>Grpc_Connection\<close>: the connections of the gRPC provisioner, with the loops that send and receive.
    The receiving loop need not end: it is a partial function, and when it ends is a theorem.
  \<^item> \<open>Sidecar\<close>: \<open>NewSidecar\<close> and the loop of \<open>Run\<close> with the requests served in between, as a step
    relation \<open>sidecar_step\<close> on the shared state: a batch, the push of an event, a request are one step each.
  \<^item> \<open>Event_Channel\<close>: the channel between a provisioner and the sidecar, as a step relation.
  \<^item> \<open>Etcd_Delivery\<close>: progress of the goroutines of \<open>Etcd_Push\<close>.
  \<^item> \<open>Etcd_Races\<close>: the metadata accesses of range requests and pushes as steps of their own
    (\<open>fine_step\<close>), of which the steps of \<open>Sidecar\<close> are runs.
  \<^item> \<open>Agent_Log\<close>, \<open>Go_Net\<close>, \<open>Agent_Config\<close>: \<open>pkg/log\<close>; the address parsing of Go's \<open>net\<close>;
    \<open>pkg/config\<close> with the constructors of the provisioners.
  \<^item> \<open>Agent_Run\<close>: \<open>pkg/sidecar/types.go\<close> and \<open>apisix.go\<close> from set-up to exit, \<open>cmd/sidecar\<close>.
  \<^item> \<open>Agent_Commands\<close>: the options and defaults of all commands of \<open>cmd\<close>, what the sidecar command logs,
    the signal handler, \<open>pkg/version\<close>.
  \<^item> \<open>Agent_System\<close>: a provisioner together with the sidecar's loop; the locale \<open>event_source\<close> is the
    interface between them, of which both provisioners are instances.
  \<^item> \<open>End_To_End\<close>: the same with the etcd server and the JSON of its values.
  \<^item> \<open>Iptables_Rules\<close>, \<open>Precheck\<close>: \<open>cmd/iptables\<close> with a reference semantics of the iptables commands
    and rules it uses, \<open>cmd/precheck\<close>.

  Record fields and functions keep the names of the code with a prefix for their struct
  (\<open>rUris\<close> of a route, \<open>route_Insert\<close>). A map is an association list with distinct keys
  (\<open>gm_ok\<close>) and a range over one takes its order as an argument (\<open>range_order\<close> says it is a
  permutation), so every theorem holds for all orders the runtime may choose. Integers keep their
  width; a pointer that may be nil is an option; a call that may panic has a result in \<open>go\<close>, one that
  may fail a sum or option.

  \<^bold>\<open>What is shown.\<close> End to end: after a batch the cache agrees with the provisioner's resources
  (\<open>state_of_the_world_sync\<close>, \<open>provisioner_cache_agreement\<close>, \<open>file_routes_sync\<close>), also after the
  sidecar's loop, when a client that reads the directory of routes decodes exactly the provisioner's
  routes (\<open>grpc_to_client\<close>, \<open>file_to_client\<close>, for the file provisioner from its \<open>Run\<close> on), and a directory read
  lists exactly their keys (\<open>configuration_reaches_client\<close>), with values that decode to the cached
  resources (\<open>client_reads_configuration\<close>, out of \<open>json_round_trip\<close> and \<open>resource_round_trip\<close>); in every reachable state of the sidecar
  the metadata of the etcd server follows the cache (\<open>metadata_follows_cache\<close>), and what remains of that
  when reads and pushes interleave at every lock (\<open>metadata_under_races\<close>). Per component: the
  store contracts; the comparison; what each translation yields, drops or panics on; which requests
  are served and with what; how watches are registered and informed; that pushed responses are
  neither lost nor doubled while a stream is open (\<open>delivery_conservation\<close>) and all arrive
  (\<open>delivery_live\<close>); how discovery responses are answered; that the sidecar's loop is a run of the
  step relation (\<open>run_loop_refines\<close>), the file provisioner's with its watcher one over file events
  (\<open>watch_run_refines\<close>), and what \<open>Serve\<close> does one of the results the agent sees (\<open>serve_refines\<close>); which configurations are accepted (\<open>config_validation\<close>) and which command lines start the sidecar (\<open>sidecar_starts\<close>), how the
  agent ends (\<open>agent_exit_status\<close>), that APISIX is configured to match it (\<open>bundle_configuration\<close>);
  which connections the iptables rules redirect (\<open>traffic_redirection\<close>).

  Some theorems record where the code falls short. A read that races a deletion leaves metadata for an
  object that is gone (\<open>stale_metadata\<close>). Responses and batches may overtake each other
  (\<open>delivery_can_reorder\<close>, \<open>batches_can_reorder\<close>), a closing stream or channel can crash the process
  (\<open>closed_channel_crash\<close>, \<open>closing_crash\<close>), an event's revision is the one before it
  (\<open>event_revision_lags\<close>), a rejected load assignment leaves the provisioner ahead of the cache
  (\<open>eds_reject_diverges\<close>), the static route configurations are lost (\<open>static_routes_are_dropped\<close>),
  identifiers collide (\<open>colliding_clusters\<close>), no translated resource passes its own validation, a
  stream its server ends is never renewed (\<open>graceful_end_spins\<close>), a new connection can leave the
  upstreams without endpoints (\<open>reconnect_without_endpoints\<close>), a failed request is not retried
  (\<open>requests_sent_once\<close>), the default configuration is valid but cannot be started
  (\<open>sidecar_starts\<close>), an upstream without nodes is pushed as something else than it is read
  (\<open>pushed_nodes_differ\<close>), a watched file that is renamed keeps its resources (\<open>watch_run_refines\<close>), a failed provisioner ends the agent with status 0
  (\<open>agent_exit_status\<close>), the cleanup flushes the rules of others (\<open>cleanup_after_setup\<close>), and the
  precheck refuses the default set-up (\<open>precheck_after_setup\<close>).

  \<^bold>\<open>Bounds.\<close> Recursions are structural or have a measure and no fuel is used; only \<open>recvLoop\<close> is
  partial. A walk through iptables chains is bounded by the depth of calls, of which the rules need two.
  The revision and the watch id are signed 64-bit counters: the steps of \<open>Sidecar\<close> are guarded by
  their staying below \<open>2 ^ 63\<close>, which a nanosecond per event reaches after 292 years; the rest of the
  development lets them wrap. \<open>float64\<close> is a rational, with the rounding of its one conversion.

  \<^bold>\<open>Parameters.\<close> \<open>proto.Clone\<close>, \<open>proto.Equal\<close> (\<open>proto_lib\<close>), \<open>json.Marshal\<close> (\<open>marshaller\<close>, only
  assumed to succeed on the resources; \<open>go_marshaller\<close> is the one of \<open>Resource_Json\<close>, in which the text
  of a fractional number and the JSON of a protobuf \<open>Any\<close> are arguments), \<open>proto.Unmarshal\<close> of xDS messages
  (\<open>decoders\<close>), the constant \<open>wellknown.HTTPConnectionManager\<close>, the orders of ranges over maps; Istio's
  rule builder (\<open>build\<close>, of which \<open>builder_ok\<close> says which commands it yields) and the effect of a command
  (\<open>exec\<close>); what cobra reads of a command line (\<open>command_line\<close>); what the machine, the network, the file
  watcher and the HTTP and gRPC servers yield (\<open>machine\<close>, \<open>run_world\<close>, \<open>recv_result\<close>, \<open>watch_input\<close>,
  \<open>serve_world\<close>). The levels of zap are taken over by name and order.

  \<^bold>\<open>Not modelled.\<close> Sockets, the transport of gRPC and HTTP, the encoding of log entries, the parsing of
  command lines, the end-to-end tests, the descriptors of generated code (its accessors are the fields of
  the records). The log messages of the translations are left out. The reflection of a batch to the cache
  and the handling of a watch request are single steps, also in \<open>Etcd_Races\<close>, although the code takes the
  lock of a store once per object.

  \<^bold>\<open>Next.\<close> The orders in which received responses are translated; reads between the objects of one batch.
\<close>

section \<open>Properties that span components\<close>

text \<open>C5: the configuration reaches the client. If the cache agrees with the old manifest, then after the
  events generated for the new one a request for the directory of routes answers with exactly the keys
  of the routes of the new manifest, each once.\<close>

theorem configuration_reaches_client:
  assumes "proto_ok pl" "marshals js" "cache_ok c" "routes_agree pl c (elems (mRoutes old))" "range_order ordr"
    and "plain_request r" "rqKey r = keyPrefix e @ ''/routes''"
    "rqRangeEnd r = Some (keyPrefix e @ ''/routet'')" "\<not> rqKeysOnly r"
    and "reflectToCache pl c rv (generateEvents pl (Some new) (Some old)) = (c', rv', evs)"
  shows "\<exists>e' resp. Range pl js ordr ordu c' rv' e r = (e', Inr resp)
    \<and> set (map kvKey (rsKvs resp)) = route_key (keyPrefix e) ` rId ` set (elems (mRoutes new))
    \<and> distinct (map kvKey (rsKvs resp))"
proof -
  have c': "cache_ok c'" "routes_agree pl c' (elems (mRoutes new))"
    using assms(3,10) generateEvents_routes [OF assms(1,4)]
    by (auto simp: reflectToCache_eq cache_after_ok)
  obtain e' resp where range: "Range pl js ordr ordu c' rv' e r = (e', Inr resp)"
    and kvs: "map kvKey (rsKvs resp) = map (\<lambda>x. route_key (keyPrefix e) (rId x)) (route_List pl ordr (cRoute c'))"
    using Range_routes [OF assms(2,6-9), of pl ordr ordu c' rv'] by (auto simp: kv_at_def comp_def)
  have ids: "map rId (route_List pl ordr (cRoute c')) = map fst (ordr (cRoute c'))"
    using c'(1) range_order_set [OF assms(5), of "cRoute c'"]
      proto_message.ident_clone [OF proto_okD(1) [OF assms(1)]]
    by (auto simp: route_List_def cache_ok_def)
  have "dom (map_of (cRoute c')) = rId ` set (elems (mRoutes new))"
  proof -
    have "k \<in> dom (map_of (cRoute c')) \<longleftrightarrow> k \<in> rId ` set (elems (mRoutes new))" for k
      using c'(2) has_key_index_by [of rId "elems (mRoutes new)" k]
      by (cases "map_of (cRoute c') k"; cases "map_of (index_by rId (elems (mRoutes new))) k")
        (auto simp: routes_agree_def has_key_def dest!: spec [of _ k])
    then show ?thesis by blast
  qed
  then have "rId ` set (route_List pl ordr (cRoute c')) = rId ` set (elems (mRoutes new))"
    using arg_cong [OF ids, of set] by (simp add: range_order_set [OF assms(5)] dom_map_of_conv_image_fst)
  moreover have "distinct (map rId (route_List pl ordr (cRoute c')))"
    using range_order_distinct_fst [OF assms(5)] c'(1) by (simp add: ids cache_ok_def gm_ok_def)
  ultimately show ?thesis
    using range by (intro exI [of _ e'] exI [of _ resp])
      (simp add: kvs distinct_map inj_on_def flip: image_image)
qed

lemma configuration_reaches_client_witness:
  "\<exists>c' rv' evs e' resp. reflectToCache std_lib NewInMemoryCache 0 (generateEvents std_lib
       (Some (zero_manifest\<lparr>mRoutes := Some [route_7]\<rparr>)) (Some zero_manifest)) = (c', rv', evs)
     \<and> Range std_lib std_marshaller rev rev c' rv' (NewEtcdV3Server ''/a'')
         (plain_range ''/a/routes'' (Some ''/a/routet'')) = (e', Inr resp)
     \<and> set (map kvKey (rsKvs resp)) = {''/a/routes/7''}"
proof -
  let ?new = "zero_manifest\<lparr>mRoutes := Some [route_7]\<rparr>"
  obtain c' rv' evs where r: "reflectToCache std_lib NewInMemoryCache 0
      (generateEvents std_lib (Some ?new) (Some zero_manifest)) = (c', rv', evs)"
    using prod_cases3 by blast
  have p: "keyPrefix (NewEtcdV3Server ''/a'') = ''/a''" by (simp add: NewEtcdV3Server_def)
  have a: "routes_agree std_lib NewInMemoryCache (elems (mRoutes zero_manifest))"
    by (simp add: routes_agree_def NewInMemoryCache_def newRoute_def)
  have img: "route_key ''/a'' ` rId ` set (elems (mRoutes ?new)) = {''/a/routes/7''}"
    by (simp add: route_7_def route_key_def)
  have "\<exists>e' resp. Range std_lib std_marshaller rev rev c' rv' (NewEtcdV3Server ''/a'')
        (plain_range ''/a/routes'' (Some ''/a/routet'')) = (e', Inr resp)
      \<and> set (map kvKey (rsKvs resp)) = route_key (keyPrefix (NewEtcdV3Server ''/a'')) ` rId ` set (elems (mRoutes ?new))
      \<and> distinct (map kvKey (rsKvs resp))"
    by (rule configuration_reaches_client [OF proto_ok_std marshals_std cache_ok_new a range_order_rev
          plain_range_plain _ _ _ r]) (simp_all add: p)
  then obtain e' resp where "Range std_lib std_marshaller rev rev c' rv' (NewEtcdV3Server ''/a'')
        (plain_range ''/a/routes'' (Some ''/a/routet'')) = (e', Inr resp)"
      "set (map kvKey (rsKvs resp)) = {''/a/routes/7''}"
    unfolding p img by blast
  then show ?thesis using r by (intro exI conjI)
qed

text \<open>Identifiers are checksums of names and two names can have the same one: of two clusters with the
  names below, both accepted, the cache keeps a single upstream.\<close>

theorem colliding_clusters:
  "\<exists>u1 u2. TranslateCluster (example_cluster ''plumless'' STATIC) = Ret (Some u1, None)
     \<and> TranslateCluster (example_cluster ''buckeroo'' STATIC) = Ret (Some u2, None)
     \<and> uName u1 \<noteq> uName u2
     \<and> length (cUpstream (cache_after std_lib NewInMemoryCache
          (manifest_Events (zero_manifest\<lparr>mUpstreams := Some [u1, u2]\<rparr>) EventAdd))) = 1"
proof -
  let ?u = "\<lambda>n. base_upstream (example_cluster n STATIC)\<lparr>uNodes := None\<rparr>"
  have "TranslateCluster (example_cluster n STATIC) = Ret (Some (?u n), None)" for n
    by (simp add: TranslateCluster_eq unsupported_def example_cluster_def GetType_def)
  moreover have "uId (?u ''plumless'') = uId (?u ''buckeroo'')"
    using GenID_eq_iff [of "''plumless''" "''buckeroo''"] ChecksumIEEE_collision
    by (simp add: example_cluster_def)
  moreover have "length (cUpstream (cache_after std_lib NewInMemoryCache
      (manifest_Events (zero_manifest\<lparr>mUpstreams := Some [u1, u2]\<rparr>) EventAdd))) = 1"
    if "uId u1 = uId u2" for u1 u2
    using that by (simp add: manifest_Events_def zero_manifest_def upstream_event_def reflect_event_def
        NewInMemoryCache_def newUpstream_def upstream_Insert_def Let_def std_lib_def std_clone_upstream_def)
  moreover have "uName (?u ''plumless'') \<noteq> uName (?u ''buckeroo'')"
    by (simp add: example_cluster_def)
  ultimately show ?thesis by blast
qed

end
